(* ===== verification/GoPrelude.thy ===== *)
theory GoPrelude
  imports Main "HOL-Library.Word"
begin

text \<open>
  The vocabulary every component shares: Go strings and byte slices, error values and
  \<open>errors.Is\<close>, 64-bit signed arithmetic, \<open>time.Time\<close> and \<open>time.Duration\<close>, and the
  functions of package \<open>strings\<close> the program calls.

  A Go \<open>string\<close> and a \<open>[]byte\<close> are both sequences of bytes; both are \<open>char list\<close> here
  (a \<open>char\<close> is a byte), so \<open>[]byte(s)\<close> and \<open>string(b)\<close> are the identity.
  A fallible function returns \<open>goerr + 'a\<close>, \<open>Inl\<close> being the error.
\<close>

named_theorems go_simps \<open>equations for the shared Go vocabulary\<close>

section \<open>Bytes and strings\<close>

type_synonym bytes = string

definition HasPrefix :: "string \<Rightarrow> string \<Rightarrow> bool" where
  "HasPrefix s p \<longleftrightarrow> take (length p) s = p"

definition HasSuffix :: "string \<Rightarrow> string \<Rightarrow> bool" where
  "HasSuffix s p \<longleftrightarrow> length p \<le> length s \<and> drop (length s - length p) s = p"

text \<open>\<open>bytes.Cut\<close> with a one-byte separator: the parts around its first occurrence.\<close>

fun Cut :: "bytes \<Rightarrow> char \<Rightarrow> (bytes \<times> bytes) option" where
  "Cut [] sep = None"
| "Cut (c # cs) sep =
     (if c = sep then Some ([], cs)
      else case Cut cs sep of None \<Rightarrow> None | Some (a, b) \<Rightarrow> Some (c # a, b))"

lemma HasPrefix_append [simp]: "HasPrefix (p @ s) p"
  by (simp add: HasPrefix_def)

lemma HasPrefix_iff: "HasPrefix s p \<longleftrightarrow> (\<exists>r. s = p @ r)"
  by (metis HasPrefix_def append_eq_conv_conj)

lemma HasSuffix_iff: "HasSuffix s p \<longleftrightarrow> (\<exists>r. s = r @ p)"
proof
  assume "HasSuffix s p"
  then have "s = take (length s - length p) s @ p"
    unfolding HasSuffix_def by (metis append_take_drop_id)
  then show "\<exists>r. s = r @ p" ..
qed (auto simp: HasSuffix_def)

lemma Cut_Some: "Cut s c = Some (a, b) \<Longrightarrow> s = a @ c # b \<and> c \<notin> set a"
  by (induction s arbitrary: a) (auto split: if_splits option.splits)

lemma Cut_append: "c \<notin> set a \<Longrightarrow> Cut (a @ c # b) c = Some (a, b)"
  by (induction a) auto

lemma of_char_less [simp]: "of_char (c::char) < (256::nat)"
  using of_char_mod_256 [of c, where 'a = nat] by (metis mod_less_divisor zero_less_numeral)

lemma char_of_mod: "char_of (n mod 256 :: nat) = char_of n"
  by (simp add: char_of_eq_iff)

section \<open>Errors\<close>

text \<open>
  The package's sentinel errors, bbolt's \<open>ErrMaxSizeReached\<close>, and the two ways other
  errors are built: \<open>errors.New\<close> / \<open>fmt.Errorf\<close> without \<open>%w\<close> (\<open>Msg\<close>) and
  \<open>fmt.Errorf\<close> with \<open>%w\<close> (\<open>Wrap\<close>, which \<open>errors.Is\<close> looks through). A message keeps
  its format string; the formatted arguments only reach the log.
\<close>

datatype sentinel =
    ErrNoteOpenFailed | ErrPayloadEmpty | ErrPayloadTooLarge | ErrStorageFull
  | ErrTicketExpired | ErrTicketInvalid | ErrTicketUnusable | ErrLifetimeInvalid
  | ErrInvalidBurnToken | ErrRequestTooLarge | ErrMaxSizeReached

datatype goerr = Sentinel sentinel | Msg string | Wrap string goerr

primrec errors_Is :: "goerr \<Rightarrow> sentinel \<Rightarrow> bool" where
  "errors_Is (Sentinel s) t \<longleftrightarrow> s = t"
| "errors_Is (Msg m) t \<longleftrightarrow> False"
| "errors_Is (Wrap m e) t \<longleftrightarrow> errors_Is e t"

type_synonym 'a result = "goerr + 'a"

definition wrap_err :: "string \<Rightarrow> 'a result \<Rightarrow> 'a result" where
  "wrap_err m r = (case r of Inl e \<Rightarrow> Inl (Wrap m e) | Inr a \<Rightarrow> Inr a)"

lemma wrap_err_simps [simp]:
  "wrap_err m (Inl e) = Inl (Wrap m e)"
  "wrap_err m (Inr a) = Inr a"
  by (simp_all add: wrap_err_def)

lemma wrap_err_Inr_iff [simp]: "wrap_err m r = Inr a \<longleftrightarrow> r = Inr a"
  by (cases r) simp_all

lemma errors_Is_unique: "errors_Is e s \<Longrightarrow> errors_Is e t \<Longrightarrow> s = t"
  by (induction e) auto

section \<open>Machine integers, instants and durations\<close>

text \<open>
  \<open>int64 x\<close> is the value a 64-bit signed integer holds after a computation whose exact
  result is \<open>x\<close>; Go's \<open>int\<close> is 64 bits wide on the platforms the image is built for.
\<close>

definition int64 :: "int \<Rightarrow> int" where
  "int64 x = (x + 2 ^ 63) mod 2 ^ 64 - 2 ^ 63"

definition maxInt64 :: int where "maxInt64 = 2 ^ 63 - 1"
definition minInt64 :: int where "minInt64 = - (2 ^ 63)"

lemma int64_bounds: "minInt64 \<le> int64 x" "int64 x \<le> maxInt64"
  by (simp_all add: int64_def minInt64_def maxInt64_def)

lemma int64_id [go_simps]: "minInt64 \<le> x \<Longrightarrow> x \<le> maxInt64 \<Longrightarrow> int64 x = x"
  by (simp add: int64_def minInt64_def maxInt64_def)

text \<open>
  A \<open>time.Time\<close> is an instant, in nanoseconds since January 1, year 1, 00:00:00 UTC, so
  the zero \<open>Time\<close> is 0. A \<open>time.Duration\<close> is an \<open>int64\<close> count of nanoseconds.
  \<open>Time.Sub\<close> saturates at the ends of that range.
\<close>

type_synonym time = int
type_synonym duration = int

definition Nanosecond :: duration where "Nanosecond = 1"
definition Second :: duration where "Second = 1000000000 * Nanosecond"
definition Minute :: duration where "Minute = 60 * Second"
definition Hour :: duration where "Hour = 60 * Minute"

lemma duration_values [go_simps]:
  "Nanosecond = 1" "Second = 1000000000" "Minute = 60000000000" "Hour = 3600000000000"
  by (simp_all add: Nanosecond_def Second_def Minute_def Hour_def)

definition IsZero :: "time \<Rightarrow> bool" where "IsZero t \<longleftrightarrow> t = 0"
definition Before :: "time \<Rightarrow> time \<Rightarrow> bool" where "Before t u \<longleftrightarrow> t < u"
definition After :: "time \<Rightarrow> time \<Rightarrow> bool" where "After t u \<longleftrightarrow> u < t"
definition time_Add :: "time \<Rightarrow> duration \<Rightarrow> time" where "time_Add t d = t + d"
definition time_Sub :: "time \<Rightarrow> time \<Rightarrow> duration" where
  "time_Sub t u = max minInt64 (min maxInt64 (t - u))"

lemmas time_defs = IsZero_def Before_def After_def time_Add_def

lemma time_Sub_le_iff:
  "minInt64 \<le> d \<Longrightarrow> d < maxInt64 \<Longrightarrow> time_Sub t u \<le> d \<longleftrightarrow> t - u \<le> d"
  by (auto simp: time_Sub_def)

lemma time_Sub_less_iff:
  "minInt64 < d \<Longrightarrow> d \<le> maxInt64 \<Longrightarrow> time_Sub t u < d \<longleftrightarrow> t - u < d"
  by (auto simp: time_Sub_def)

section \<open>Association lists\<close>

lemma map_of_filter_distinct:
  assumes "distinct (map fst xs)"
  shows "map_of (filter P xs) k =
    (case map_of xs k of None \<Rightarrow> None | Some v \<Rightarrow> if P (k, v) then Some v else None)"
  using assms
proof (induction xs)
  case Nil
  then show ?case by simp
next
  case (Cons a xs)
  then have "fst a = k \<Longrightarrow> map_of xs k = None"
    by (auto simp: map_of_eq_None_iff)
  with Cons show ?case by (cases a) (auto split: option.splits)
qed

lemma map_of_filter_key: "map_of (filter (\<lambda>(j, v). j \<noteq> k) xs) i = (if i = k then None else map_of xs i)"
  by (induction xs) auto

end
