(* ===== verification/Bolt.thy ===== *)
theory Bolt
  imports GoPrelude "HOL-Library.AList"
begin

text \<open>
  \<open>database.go\<close> over the bbolt interface. bbolt is third-party code: its bucket operations
  and its failures are the fields of a parameter record \<open>'b bolt\<close>, \<open>'b\<close> being its
  representation of a bucket, and \<open>bolt_ok\<close> names the documented behaviour the program
  relies on. Any \<open>Put\<close>, \<open>Delete\<close>, transaction start or commit may fail; failures of
  the last two depend on the number of the transaction, so that repeating a transaction on
  the same data can end differently; a transaction that cannot start does not report a full
  database (bbolt answers that the database is closed or read-only). \<open>db_Update\<close> and \<open>db_View\<close> are the documented
  transaction contract: a read-write transaction takes effect when it commits, and leaves
  the database as it was when the callback or the commit fails.
\<close>

section \<open>The bbolt interface\<close>

record 'b bolt =
  bGet :: "'b \<Rightarrow> bytes \<Rightarrow> bytes option"
  bPut :: "'b \<Rightarrow> bytes \<Rightarrow> bytes \<Rightarrow> 'b result"
  bDelete :: "'b \<Rightarrow> bytes \<Rightarrow> 'b result"
  bForEach :: "'b \<Rightarrow> (bytes \<times> bytes) list"
  bCreate :: "bytes \<Rightarrow> 'b result"
  beginErr :: "nat \<Rightarrow> goerr option"
  commitErr :: "nat \<Rightarrow> (bytes \<rightharpoonup> 'b) \<Rightarrow> goerr option"

definition bolt_ok :: "'b bolt \<Rightarrow> bool" where
  "bolt_ok B \<longleftrightarrow>
     (\<forall>b k v b'. bPut B b k v = Inr b' \<longrightarrow> bGet B b' = (bGet B b)(k := Some v)) \<and>
     (\<forall>b k b'. bDelete B b k = Inr b' \<longrightarrow> bGet B b' = (bGet B b)(k := None)) \<and>
     (\<forall>b. distinct (map fst (bForEach B b)) \<and> map_of (bForEach B b) = bGet B b) \<and>
     (\<forall>n b. bCreate B n = Inr b \<longrightarrow> bGet B b = Map.empty) \<and>
     (\<forall>n e. beginErr B n = Some e \<longrightarrow> \<not> errors_Is e ErrMaxSizeReached \<and> \<not> errors_Is e ErrStorageFull)"

lemma bolt_okD:
  assumes "bolt_ok B"
  shows bGet_bPut: "bPut B b k v = Inr b' \<Longrightarrow> bGet B b' = (bGet B b)(k := Some v)"
    and bGet_bDelete: "bDelete B b k = Inr b' \<Longrightarrow> bGet B b' = (bGet B b)(k := None)"
    and distinct_bForEach: "distinct (map fst (bForEach B b))"
    and map_of_bForEach: "map_of (bForEach B b) = bGet B b"
    and bGet_bCreate: "bCreate B n = Inr b0 \<Longrightarrow> bGet B b0 = Map.empty"
    and beginErr_not_full:
      "beginErr B i = Some e \<Longrightarrow> \<not> errors_Is e ErrMaxSizeReached \<and> \<not> errors_Is e ErrStorageFull"
  using assms by (simp_all add: bolt_ok_def)

text \<open>The buckets of an opened database, by the names the program gives them.\<close>

record 'b store =
  payloads_b :: 'b
  config_b :: 'b
  metadata_b :: 'b
  root_keys_b :: 'b
  used_tickets_b :: 'b

definition payloadBucketName :: bytes where "payloadBucketName = ''payloads''"
definition configBucketName :: bytes where "configBucketName = ''config''"
definition metadataBucketName :: bytes where "metadataBucketName = ''metadata''"
definition rootKeysBucketName :: bytes where "rootKeysBucketName = ''root_keys''"
definition usedTicketsBucketName :: bytes where "usedTicketsBucketName = ''used_tickets''"
definition schemaVersionKey :: bytes where "schemaVersionKey = ''schema_version''"

lemmas bucket_name_defs = payloadBucketName_def configBucketName_def metadataBucketName_def
  rootKeysBucketName_def usedTicketsBucketName_def

definition bucketNames :: "bytes list" where
  "bucketNames = [payloadBucketName, configBucketName, metadataBucketName,
     rootKeysBucketName, usedTicketsBucketName]"

definition raw_of :: "'b store \<Rightarrow> (bytes \<rightharpoonup> 'b)" where
  "raw_of st = [payloadBucketName \<mapsto> payloads_b st, configBucketName \<mapsto> config_b st,
     metadataBucketName \<mapsto> metadata_b st, rootKeysBucketName \<mapsto> root_keys_b st,
     usedTicketsBucketName \<mapsto> used_tickets_b st]"

lemma raw_of_simps:
  "raw_of st payloadBucketName = Some (payloads_b st)" "raw_of st configBucketName = Some (config_b st)"
  "raw_of st metadataBucketName = Some (metadata_b st)" "raw_of st rootKeysBucketName = Some (root_keys_b st)"
  "raw_of st usedTicketsBucketName = Some (used_tickets_b st)"
  by (simp_all add: raw_of_def bucket_name_defs)

definition store_of :: "(bytes \<rightharpoonup> 'b) \<Rightarrow> 'b store option" where
  "store_of raw =
     (case (raw payloadBucketName, raw configBucketName, raw metadataBucketName,
            raw rootKeysBucketName, raw usedTicketsBucketName) of
        (Some p, Some c, Some m, Some r, Some u) \<Rightarrow>
          Some \<lparr>payloads_b = p, config_b = c, metadata_b = m, root_keys_b = r, used_tickets_b = u\<rparr>
      | _ \<Rightarrow> None)"

text \<open>
  An instance of the interface that keeps each bucket as an association list and reports
  \<open>ErrMaxSizeReached\<close> when a commit would hold more entries than the given capacity; like bbolt it
  refuses an empty key. It shows that \<open>bolt_ok\<close> can hold, and runs examples.
\<close>

definition mem_entries :: "(bytes \<rightharpoonup> (bytes \<times> bytes) list) \<Rightarrow> nat" where
  "mem_entries raw = sum_list (map (\<lambda>n. case raw n of None \<Rightarrow> 0 | Some b \<Rightarrow> length b) bucketNames)"

definition mem_bolt :: "nat option \<Rightarrow> ((bytes \<times> bytes) list) bolt" where
  "mem_bolt cap =
     \<lparr>bGet = map_of,
      bPut = (\<lambda>b k v. if k = [] then Inl (Msg ''key required'')
        else Inr ((k, v) # filter (\<lambda>(j, _). j \<noteq> k) b)),
      bDelete = (\<lambda>b k. Inr (filter (\<lambda>(j, _). j \<noteq> k) b)),
      bForEach = AList.clearjunk,
      bCreate = (\<lambda>_. Inr []),
      beginErr = (\<lambda>_. None),
      commitErr = (\<lambda>_ raw. if (\<exists>c \<in> set_option cap. c < mem_entries raw)
        then Some (Sentinel ErrMaxSizeReached) else None)\<rparr>"

lemma mem_bolt_simps [simp]:
  "bGet (mem_bolt cap) = map_of"
  "bPut (mem_bolt cap) b k v = (if k = [] then Inl (Msg ''key required'')
     else Inr ((k, v) # filter (\<lambda>(j, _). j \<noteq> k) b))"
  "bDelete (mem_bolt cap) b k = Inr (filter (\<lambda>(j, _). j \<noteq> k) b)"
  "bForEach (mem_bolt cap) = AList.clearjunk"
  "bCreate (mem_bolt cap) n = Inr []"
  "beginErr (mem_bolt cap) i = None"
  "commitErr (mem_bolt cap) i raw =
     (if (\<exists>c \<in> set_option cap. c < mem_entries raw) then Some (Sentinel ErrMaxSizeReached) else None)"
  by (simp_all add: mem_bolt_def)

lemma mem_entries_raw_of [simp]:
  "mem_entries (raw_of st) = length (payloads_b st) + length (config_b st) + length (metadata_b st) +
     length (root_keys_b st) + length (used_tickets_b st)"
  by (simp add: mem_entries_def bucketNames_def raw_of_simps)

text \<open>A database without failures: no transaction fails to start or commit, and no deletion
  fails.\<close>

definition reliable :: "'b bolt \<Rightarrow> bool" where
  "reliable B \<longleftrightarrow> (\<forall>i. beginErr B i = None) \<and> (\<forall>i raw. commitErr B i raw = None) \<and>
     (\<forall>b k. \<exists>b'. bDelete B b k = Inr b')"

lemma mem_bolt_reliable: "reliable (mem_bolt None)"
  by (simp add: reliable_def)

lemma mem_bolt_ok: "bolt_ok (mem_bolt cap)"
  by (auto simp: bolt_ok_def mem_bolt_def map_of_filter_key fun_eq_iff distinct_clearjunk map_of_clearjunk
      split: if_splits)

section \<open>Transactions\<close>

record 'b world =
  store :: "'b store"
  steps :: nat

definition db_Update ::
  "'b bolt \<Rightarrow> ('b store \<Rightarrow> ('a \<times> 'b store) result) \<Rightarrow> 'b world \<Rightarrow> 'a result \<times> 'b world" where
  "db_Update B fn w =
     (let n = steps w; w1 = w\<lparr>steps := Suc n\<rparr>
      in case beginErr B n of Some e \<Rightarrow> (Inl e, w1)
      | None \<Rightarrow> (case fn (store w) of Inl e \<Rightarrow> (Inl e, w1)
        | Inr (a, st') \<Rightarrow> (case commitErr B n (raw_of st') of Some e \<Rightarrow> (Inl e, w1)
          | None \<Rightarrow> (Inr a, w1\<lparr>store := st'\<rparr>))))"

definition db_View :: "'b bolt \<Rightarrow> ('b store \<Rightarrow> 'a result) \<Rightarrow> 'b world \<Rightarrow> 'a result \<times> 'b world" where
  "db_View B fn w =
     (let n = steps w; w1 = w\<lparr>steps := Suc n\<rparr>
      in case beginErr B n of Some e \<Rightarrow> (Inl e, w1) | None \<Rightarrow> (fn (store w), w1))"

lemma db_Update_Inr:
  "db_Update B fn w = (Inr a, w') \<Longrightarrow>
   fn (store w) = Inr (a, store w') \<and> w' = w\<lparr>store := store w', steps := Suc (steps w)\<rparr>"
  by (auto simp: db_Update_def Let_def split: option.splits sum.splits prod.splits)

lemma db_Update_Inl:
  "db_Update B fn w = (Inl e, w') \<Longrightarrow> store w' = store w \<and> w' = w\<lparr>steps := Suc (steps w)\<rparr>"
  by (auto simp: db_Update_def Let_def split: option.splits sum.splits prod.splits)

lemma db_Update_steps [simp]: "steps (snd (db_Update B fn w)) = Suc (steps w)"
  by (simp add: db_Update_def Let_def split: option.split sum.split prod.split)

lemma db_Update_invariant:
  assumes "\<And>a st'. fn (store w) = Inr (a, st') \<Longrightarrow> P (store w) \<Longrightarrow> P st'" and "P (store w)"
  shows "P (store (snd (db_Update B fn w)))"
  using assms by (auto simp: db_Update_def Let_def split: option.split sum.split prod.split)

lemma db_View_store [simp]: "store (snd (db_View B fn w)) = store w"
  by (simp add: db_View_def Let_def split: option.split)

lemma db_View_steps [simp]: "steps (snd (db_View B fn w)) = Suc (steps w)"
  by (simp add: db_View_def Let_def split: option.split)

lemma db_View_Inr: "db_View B fn w = (Inr a, w') \<Longrightarrow> fn (store w) = Inr a \<and> w' = w\<lparr>steps := Suc (steps w)\<rparr>"
  by (auto simp: db_View_def Let_def split: option.splits)

section \<open>Eight-byte big-endian integers\<close>

fun be_bytes :: "nat \<Rightarrow> nat \<Rightarrow> bytes" where
  "be_bytes 0 x = []"
| "be_bytes (Suc n) x = be_bytes n (x div 256) @ [char_of x]"

definition be_val :: "bytes \<Rightarrow> nat" where
  "be_val bs = foldl (\<lambda>acc c. acc * 256 + of_char c) 0 bs"

definition encodeUint64 :: "64 word \<Rightarrow> bytes" where
  "encodeUint64 v = be_bytes 8 (unat v)"

definition decodeUint64 :: "bytes \<Rightarrow> 64 word" where
  "decodeUint64 bs = (if length bs \<noteq> 8 then 0 else word_of_nat (be_val bs))"

lemma length_be_bytes [simp]: "length (be_bytes n x) = n"
  by (induction n arbitrary: x) auto

lemma be_val_snoc: "be_val (bs @ [c]) = be_val bs * 256 + of_char c"
  by (simp add: be_val_def)

lemma be_val_be_bytes: "be_val (be_bytes n x) = x mod 256 ^ n"
proof (induction n arbitrary: x)
  case 0
  then show ?case by (simp add: be_val_def)
next
  case (Suc n)
  have "x mod 256 ^ Suc n = 256 * (x div 256 mod 256 ^ n) + x mod 256"
    by (simp add: mod_mult2_eq)
  with Suc show ?case by (simp add: be_val_snoc)
qed

lemma horner_less: "v < p \<Longrightarrow> c < 256 \<Longrightarrow> v * 256 + c < 256 * p" for v p c :: nat
  by linarith

lemma be_val_less: "be_val bs < 256 ^ length bs"
proof (induction bs rule: rev_induct)
  case Nil
  then show ?case by (simp add: be_val_def)
next
  case (snoc c bs)
  then have "be_val bs * 256 + of_char c < 256 * 256 ^ length bs"
    using of_char_less by (rule horner_less)
  then show ?case by (simp add: be_val_snoc)
qed

lemma be_bytes_be_val: "be_bytes (length bs) (be_val bs) = bs"
proof (induction bs rule: rev_induct)
  case Nil
  then show ?case by (simp add: be_val_def)
next
  case (snoc c bs)
  have "(be_val bs * 256 + of_char c) div 256 = be_val bs" by simp
  moreover have "char_of (be_val bs * 256 + of_char c) = c"
    using char_of_mod [of "be_val bs * 256 + of_char c"] by simp
  ultimately show ?case using snoc by (simp add: be_val_snoc)
qed

end
