(* ===== verification/Database.thy ===== *)
theory Database
  imports Bolt
begin

text \<open>
  \<open>database.go\<close>: opening the database, creating its buckets and checking its schema
  version. The file system and \<open>bolt.Open\<close> are a parameter record; a warning the code
  logs is an entry of the returned log.
\<close>

section \<open>The file system\<close>

record fileinfo =
  fi_IsDir :: bool
  fi_Perm :: "32 word"
  fi_Sticky :: bool

record 'b osenv =
  os_Stat :: "string \<Rightarrow> fileinfo result"
  filepath_Dir :: "string \<Rightarrow> string"
  bolt_Open :: "string \<Rightarrow> int \<Rightarrow> (bytes \<rightharpoonup> 'b) result"

type_synonym log = "string list"

definition validateDBParent :: "'b osenv \<Rightarrow> string \<Rightarrow> unit result \<times> log" where
  "validateDBParent os path =
     (case os_Stat os path of
        Inl e \<Rightarrow> (Inl (Wrap ''error checking database directory: %w'' e), [])
      | Inr info \<Rightarrow>
          if \<not> fi_IsDir info then (Inl (Msg ''database parent path %q is not a directory''), [])
          else (Inr (),
            if and (fi_Perm info) 0x002 \<noteq> 0 \<and> \<not> fi_Sticky info
            then [''database_directory_world_writable''] else []))"

definition validateDBFile :: "'b osenv \<Rightarrow> string \<Rightarrow> unit result \<times> log" where
  "validateDBFile os path =
     (case os_Stat os path of
        Inl e \<Rightarrow> (Inl (Wrap ''error checking database file: %w'' e), [])
      | Inr info \<Rightarrow> (Inr (),
          if and (fi_Perm info) 0x03F \<noteq> 0
          then [''database_file_group_or_other_accessible''] else []))"

section \<open>Buckets and schema version\<close>

definition currentSchemaVersion :: "64 word" where "currentSchemaVersion = 1"

definition CreateBucketIfNotExists ::
  "'b bolt \<Rightarrow> (bytes \<rightharpoonup> 'b) \<Rightarrow> bytes \<Rightarrow> (bytes \<rightharpoonup> 'b) result" where
  "CreateBucketIfNotExists B raw name =
     (case raw name of Some b \<Rightarrow> Inr raw
      | None \<Rightarrow> (case bCreate B name of Inl e \<Rightarrow> Inl e | Inr b \<Rightarrow> Inr (raw(name \<mapsto> b))))"

fun ensure_each :: "'b bolt \<Rightarrow> bytes list \<Rightarrow> (bytes \<rightharpoonup> 'b) \<Rightarrow> (bytes \<rightharpoonup> 'b) result" where
  "ensure_each B [] raw = Inr raw"
| "ensure_each B (bucket # rest) raw =
     (case CreateBucketIfNotExists B raw bucket of
        Inl e \<Rightarrow> Inl (Wrap ''error creating bucket %q: %w'' e)
      | Inr raw' \<Rightarrow> ensure_each B rest raw')"

definition ensureBuckets :: "'b bolt \<Rightarrow> (bytes \<rightharpoonup> 'b) \<Rightarrow> (bytes \<rightharpoonup> 'b) result" where
  "ensureBuckets B raw = ensure_each B bucketNames raw"

text \<open>A missing value is a nil slice, of length 0. A missing bucket would be a nil
  dereference; it is an error value here and \<open>openDB\<close> never reaches it.\<close>

definition nil_slice :: "bytes option \<Rightarrow> bytes" where
  "nil_slice v = (case v of None \<Rightarrow> [] | Some b \<Rightarrow> b)"

definition ensureSchemaVersion :: "'b bolt \<Rightarrow> (bytes \<rightharpoonup> 'b) \<Rightarrow> (bytes \<rightharpoonup> 'b) result" where
  "ensureSchemaVersion B raw =
     (case raw configBucketName of
        None \<Rightarrow> Inl (Msg ''panic: nil bucket'')
      | Some config \<Rightarrow>
          (let version = decodeUint64 (nil_slice (bGet B config schemaVersionKey))
           in if version = 0
              then (case bPut B config schemaVersionKey (encodeUint64 currentSchemaVersion) of
                      Inl e \<Rightarrow> Inl e
                    | Inr config' \<Rightarrow> Inr (raw(configBucketName \<mapsto> config')))
              else if version > currentSchemaVersion
              then Inl (Msg ''unsupported database schema version %d'')
              else if version < currentSchemaVersion
              then Inl (Msg ''unsupported database schema version %d'')
              else Inr raw))"

definition init_tx :: "'b bolt \<Rightarrow> (bytes \<rightharpoonup> 'b) \<Rightarrow> (bytes \<rightharpoonup> 'b) result" where
  "init_tx B raw =
     (case ensureBuckets B raw of Inl e \<Rightarrow> Inl e | Inr raw1 \<Rightarrow> ensureSchemaVersion B raw1)"

definition raw_Update ::
  "'b bolt \<Rightarrow> nat \<Rightarrow> ((bytes \<rightharpoonup> 'b) \<Rightarrow> (bytes \<rightharpoonup> 'b) result) \<Rightarrow> (bytes \<rightharpoonup> 'b) \<Rightarrow> (bytes \<rightharpoonup> 'b) result" where
  "raw_Update B n fn raw =
     (case beginErr B n of Some e \<Rightarrow> Inl e
      | None \<Rightarrow> (case fn raw of Inl e \<Rightarrow> Inl e
        | Inr raw' \<Rightarrow> (case commitErr B n raw' of Some e \<Rightarrow> Inl e | None \<Rightarrow> Inr raw')))"

definition openDB ::
  "'b bolt \<Rightarrow> 'b osenv \<Rightarrow> nat \<Rightarrow> string \<Rightarrow> int \<Rightarrow> (bytes \<rightharpoonup> 'b) result \<times> log" where
  "openDB B os n dbPath maxDBSize =
     (case validateDBParent os (filepath_Dir os dbPath) of
        (Inl e, lg) \<Rightarrow> (Inl e, lg)
      | (Inr _, lg) \<Rightarrow>
          if maxDBSize > maxInt64 then (Inl (Msg ''%s is too large for this platform''), lg)
          else (case bolt_Open os dbPath maxDBSize of
            Inl e \<Rightarrow> (Inl (Wrap ''error opening database: %w'' e), lg)
          | Inr raw \<Rightarrow> (case validateDBFile os dbPath of
              (Inl e, lg') \<Rightarrow> (Inl e, lg @ lg')
            | (Inr _, lg') \<Rightarrow> (raw_Update B n (init_tx B) raw, lg @ lg'))))"

section \<open>Lemmas\<close>

definition raw_lookup :: "'b bolt \<Rightarrow> (bytes \<rightharpoonup> 'b) \<Rightarrow> bytes \<Rightarrow> bytes \<Rightarrow> bytes option" where
  "raw_lookup B raw name k = (case raw name of None \<Rightarrow> None | Some b \<Rightarrow> bGet B b k)"

definition raw_version :: "'b bolt \<Rightarrow> (bytes \<rightharpoonup> 'b) \<Rightarrow> 64 word" where
  "raw_version B raw = decodeUint64 (nil_slice (raw_lookup B raw configBucketName schemaVersionKey))"

lemma decode_encode_Uint64: "decodeUint64 (encodeUint64 v) = v"
proof -
  have "unat v mod 256 ^ 8 = unat v"
    using unsigned_less [of v, where 'a = nat] by simp
  then show ?thesis
    by (simp only: decodeUint64_def encodeUint64_def be_val_be_bytes length_be_bytes) simp
qed

lemma encode_decode_Uint64: "length bs = 8 \<Longrightarrow> encodeUint64 (decodeUint64 bs) = bs"
proof -
  assume l: "length bs = 8"
  then have "be_val bs < 2 ^ 64" using be_val_less [of bs] by simp
  then have "unat (word_of_nat (be_val bs) :: 64 word) = be_val bs"
    by (simp add: unat_of_nat)
  then show ?thesis
    using l be_bytes_be_val [of bs] by (simp add: encodeUint64_def decodeUint64_def)
qed

lemma CreateBucket_lookup:
  assumes "bolt_ok B" "CreateBucketIfNotExists B raw name = Inr raw'"
  shows "raw_lookup B raw' = raw_lookup B raw" "dom raw' = insert name (dom raw)"
proof -
  show "raw_lookup B raw' = raw_lookup B raw"
    using assms(2) bGet_bCreate [OF assms(1)]
    by (intro ext)
      (auto simp: CreateBucketIfNotExists_def raw_lookup_def split: option.splits sum.splits if_splits)
  show "dom raw' = insert name (dom raw)"
    using assms(2) by (auto simp: CreateBucketIfNotExists_def split: option.splits sum.splits)
qed

lemma ensure_each_lookup:
  assumes "bolt_ok B"
  shows "ensure_each B ns raw = Inr raw' \<Longrightarrow>
    raw_lookup B raw' = raw_lookup B raw \<and> dom raw' = set ns \<union> dom raw"
proof (induction ns arbitrary: raw)
  case (Cons n ns)
  then obtain raw1 where "CreateBucketIfNotExists B raw n = Inr raw1" "ensure_each B ns raw1 = Inr raw'"
    by (auto split: sum.splits)
  with Cons.IH [of raw1] CreateBucket_lookup [OF assms] show ?case by auto
qed simp

lemma store_of_complete: "set bucketNames \<subseteq> dom raw \<Longrightarrow> \<exists>st. store_of raw = Some st"
  by (auto simp: bucketNames_def store_of_def)

lemma store_of_Some:
  assumes "store_of raw = Some st"
  shows "raw payloadBucketName = Some (payloads_b st)" "raw configBucketName = Some (config_b st)"
    "raw metadataBucketName = Some (metadata_b st)" "raw rootKeysBucketName = Some (root_keys_b st)"
    "raw usedTicketsBucketName = Some (used_tickets_b st)"
  using assms unfolding store_of_def by (simp_all split: option.splits, safe, simp_all)

lemma store_of_raw_of: "store_of (raw_of st) = Some st"
  by (simp add: store_of_def raw_of_simps)

lemma raw_of_store_of: "store_of raw = Some st \<Longrightarrow> name \<in> set bucketNames \<Longrightarrow> raw_of st name = raw name"
  by (auto simp: bucketNames_def store_of_Some raw_of_simps)

lemma decodeUint64_Nil [simp]: "decodeUint64 [] = 0"
  by (simp add: decodeUint64_def)

lemma word_le_one: "w \<noteq> 0 \<Longrightarrow> w \<le> 1 \<Longrightarrow> w = 1" for w :: "64 word"
proof -
  assume "w \<noteq> 0" "w \<le> 1"
  then have "unat w \<noteq> 0" "unat w \<le> 1"
    by (simp_all add: unat_eq_zero word_le_nat_alt)
  then have "unat w = unat (1 :: 64 word)" by simp
  then show "w = 1" by (rule unsigned_word_eqI)
qed

lemma ensureSchemaVersion_Inr:
  assumes "bolt_ok B" "ensureSchemaVersion B raw = Inr raw'"
  shows "raw_version B raw' = 1" "raw_version B raw = 0 \<or> raw_version B raw = 1"
    "dom raw' = dom raw"
    "(name, k) \<noteq> (configBucketName, schemaVersionKey) \<Longrightarrow> raw_lookup B raw' name k = raw_lookup B raw name k"
  using assms(2) bGet_bPut [OF assms(1)]
  by (auto simp: ensureSchemaVersion_def raw_version_def raw_lookup_def currentSchemaVersion_def
      decode_encode_Uint64 Let_def nil_slice_def not_less word_le_one split: option.splits sum.splits if_splits)

lemma openDB_Inr:
  assumes "openDB B os n path mx = (Inr raw', lg)"
  obtains raw raw1 where "bolt_Open os path mx = Inr raw" "ensureBuckets B raw = Inr raw1"
    "ensureSchemaVersion B raw1 = Inr raw'"
  using assms
  by (auto simp: openDB_def raw_Update_def init_tx_def split: sum.splits option.splits prod.splits if_splits)

section \<open>Properties\<close>

text \<open>\<open>encodeUint64\<close> and \<open>decodeUint64\<close> are inverse bijections between 64-bit
  words and byte strings of length 8.\<close>

lemma Uint64_roundtrip:
  "decodeUint64 (encodeUint64 v) = v \<and> length (encodeUint64 v) = 8 \<and>
   encodeUint64 (decodeUint64 [a, b, c, d, e, f, g, h]) = [a, b, c, d, e, f, g, h]"
  using decode_encode_Uint64 [of v] encode_decode_Uint64 [of "[a, b, c, d, e, f, g, h]"]
  by (simp add: encodeUint64_def)

lemma openDB_facts:
  assumes "bolt_ok B" "openDB B os n path mx = (Inr raw', lg)"
  shows "\<exists>raw st. bolt_Open os path mx = Inr raw \<and> store_of raw' = Some st \<and>
    raw_version B raw' = 1 \<and> raw_version B raw \<in> {0, 1} \<and>
    (\<forall>name k. (name, k) \<noteq> (configBucketName, schemaVersionKey) \<longrightarrow>
       raw_lookup B raw' name k = raw_lookup B raw name k)"
proof -
  from openDB_Inr [OF assms(2)] obtain raw raw1 where
    o: "bolt_Open os path mx = Inr raw" and e: "ensureBuckets B raw = Inr raw1"
    and v: "ensureSchemaVersion B raw1 = Inr raw'" .
  have l: "raw_lookup B raw1 = raw_lookup B raw" "set bucketNames \<subseteq> dom raw1"
    using ensure_each_lookup [OF assms(1) e [unfolded ensureBuckets_def]] by auto
  note sv = ensureSchemaVersion_Inr [OF assms(1) v]
  obtain st where "store_of raw' = Some st"
    using l(2) sv(3) store_of_complete [of raw'] by auto
  with o l(1) sv show ?thesis
    by (auto simp: raw_version_def)
qed

text \<open>C11: a database that \<open>openDB\<close> returns has the five buckets and schema version 1,
  the file held no version or version 1 before (any other version is refused), and every
  stored entry except the version itself is the one the file held.\<close>

theorem openDB_establishes:
  assumes "bolt_ok B" "openDB B os n path mx = (Inr raw', lg)"
  shows "\<exists>raw st. bolt_Open os path mx = Inr raw \<and> store_of raw' = Some st \<and>
    raw_version B raw' = 1 \<and> raw_version B raw \<in> {0, 1} \<and>
    (\<forall>name k. (name, k) \<noteq> (configBucketName, schemaVersionKey) \<longrightarrow>
       raw_lookup B raw' name k = raw_lookup B raw name k)"
  using assms by (rule openDB_facts)

definition example_os :: "((bytes \<times> bytes) list) osenv" where
  "example_os =
     \<lparr>os_Stat = (\<lambda>p. Inr \<lparr>fi_IsDir = True, fi_Perm = 0x1C0, fi_Sticky = False\<rparr>),
      filepath_Dir = (\<lambda>p. ''.''),
      bolt_Open = (\<lambda>p m. Inr Map.empty)\<rparr>"

theorem openDB_establishes_witness:
  "\<exists>raw' st. openDB (mem_bolt None) example_os 0 ''data.db'' 1048576 = (Inr raw', []) \<and>
     store_of raw' = Some st \<and> raw_version (mem_bolt None) raw' = 1"
proof -
  have "\<exists>raw'. openDB (mem_bolt None) example_os 0 ''data.db'' 1048576 = (Inr raw', [])"
    by (simp add: openDB_def example_os_def validateDBParent_def validateDBFile_def maxInt64_def
        raw_Update_def mem_bolt_def init_tx_def ensureBuckets_def bucketNames_def bucket_name_defs
        CreateBucketIfNotExists_def ensureSchemaVersion_def nil_slice_def schemaVersionKey_def
        mem_entries_def)
  then obtain raw' where r: "openDB (mem_bolt None) example_os 0 ''data.db'' 1048576 = (Inr raw', [])" ..
  from openDB_establishes [OF mem_bolt_ok r] r show ?thesis by blast
qed

end
