(* ===== verification/Base64.thy ===== *)
theory Base64
  imports GoPrelude
begin

text \<open>
  \<open>common.go\<close>: \<open>b64Encode\<close> and \<open>b64Decode\<close>, over the parts of
  \<open>base64.RawURLEncoding\<close> they call (unpadded URL alphabet; decoding skips CR and LF and,
  not being strict, ignores the unused trailing bits). The main result is that
  \<open>b64Decode\<close> accepts exactly the canonical encodings of non-empty byte strings.
\<close>

section \<open>base64.RawURLEncoding\<close>

definition url_alphabet :: string where
  "url_alphabet = ''ABCDEFGHIJKLMNOPQRSTUVWXYZabcdefghijklmnopqrstuvwxyz0123456789-_''"

definition sextet_char :: "nat \<Rightarrow> char" where
  "sextet_char n = url_alphabet ! n"

definition decodeMap :: "char \<Rightarrow> nat option" where
  "decodeMap c =
     (let n = length (takeWhile (\<lambda>x. x \<noteq> c) url_alphabet)
      in if n < length url_alphabet then Some n else None)"

definition EncodedLen :: "nat \<Rightarrow> nat" where
  "EncodedLen n = n div 3 * 4 + (n mod 3 * 8 + 5) div 6"

definition DecodedLen :: "nat \<Rightarrow> nat" where
  "DecodedLen n = n div 4 * 3 + n mod 4 * 6 div 8"

definition quantum_val :: "nat \<Rightarrow> nat \<Rightarrow> nat \<Rightarrow> nat" where
  "quantum_val a b c = a * 65536 + b * 256 + c"

definition sextets_val :: "nat \<Rightarrow> nat \<Rightarrow> nat \<Rightarrow> nat \<Rightarrow> nat" where
  "sextets_val p q r s = p * 262144 + q * 4096 + r * 64 + s"

fun encode_sextets :: "bytes \<Rightarrow> nat list" where
  "encode_sextets [] = []"
| "encode_sextets [a] =
     (let v = quantum_val (of_char a) 0 0 in [v div 262144 mod 64, v div 4096 mod 64])"
| "encode_sextets [a, b] =
     (let v = quantum_val (of_char a) (of_char b) 0
      in [v div 262144 mod 64, v div 4096 mod 64, v div 64 mod 64])"
| "encode_sextets (a # b # c # r) =
     (let v = quantum_val (of_char a) (of_char b) (of_char c)
      in [v div 262144 mod 64, v div 4096 mod 64, v div 64 mod 64, v mod 64] @ encode_sextets r)"

definition EncodeToString :: "bytes \<Rightarrow> string" where
  "EncodeToString src = map sextet_char (encode_sextets src)"

fun decode_sextets :: "nat list \<Rightarrow> bytes result" where
  "decode_sextets [] = Inr []"
| "decode_sextets [p] = Inl (Msg ''illegal base64 data at input byte %d'')"
| "decode_sextets [p, q] =
     (let v = sextets_val p q 0 0 in Inr [char_of (v div 65536)])"
| "decode_sextets [p, q, r] =
     (let v = sextets_val p q r 0 in Inr [char_of (v div 65536), char_of (v div 256)])"
| "decode_sextets (p # q # r # s # t) =
     (let v = sextets_val p q r s
      in case decode_sextets t of Inl e \<Rightarrow> Inl e
         | Inr d \<Rightarrow> Inr ([char_of (v div 65536), char_of (v div 256), char_of v] @ d))"

fun map_sextets :: "string \<Rightarrow> nat list option" where
  "map_sextets [] = Some []"
| "map_sextets (c # cs) =
     (if c = CHR 0x0A \<or> c = CHR 0x0D then map_sextets cs
      else case decodeMap c of None \<Rightarrow> None
      | Some n \<Rightarrow> (case map_sextets cs of None \<Rightarrow> None | Some ns \<Rightarrow> Some (n # ns)))"

definition DecodeString :: "string \<Rightarrow> bytes result" where
  "DecodeString s = (case map_sextets s of
      None \<Rightarrow> Inl (Msg ''illegal base64 data at input byte %d'')
    | Some ns \<Rightarrow> decode_sextets ns)"

section \<open>The program's wrappers\<close>

definition b64Encode :: "bytes \<Rightarrow> string" where
  "b64Encode data = EncodeToString data"

definition b64Decode :: "string \<Rightarrow> bytes result" where
  "b64Decode value =
     (if value = [] then Inl (Msg ''empty base64url value'')
      else if EncodedLen (DecodedLen (length value)) \<noteq> length value
      then Inl (Msg ''non-canonical base64url length'')
      else case DecodeString value of
        Inl e \<Rightarrow> Inl e
      | Inr decoded \<Rightarrow>
          if b64Encode decoded \<noteq> value
          then Inl (Msg ''non-canonical base64url encoding'')
          else Inr decoded)"

section \<open>The alphabet\<close>

lemma distinct_url_alphabet: "distinct url_alphabet"
  by (simp add: url_alphabet_def)

lemma length_url_alphabet [simp]: "length url_alphabet = 64"
  by (simp add: url_alphabet_def)

lemma takeWhile_neq_nth:
  "distinct xs \<Longrightarrow> n < length xs \<Longrightarrow> length (takeWhile (\<lambda>x. x \<noteq> xs ! n) xs) = n"
  by (induction xs arbitrary: n) (auto simp: nth_Cons split: nat.splits)

lemma decodeMap_sextet_char [simp]: "n < 64 \<Longrightarrow> decodeMap (sextet_char n) = Some n"
  by (simp add: decodeMap_def sextet_char_def takeWhile_neq_nth distinct_url_alphabet)

lemma sextet_char_in: "n < 64 \<Longrightarrow> sextet_char n \<in> set url_alphabet"
  by (simp add: sextet_char_def)

lemma sextet_char_not_newline [simp]:
  "n < 64 \<Longrightarrow> sextet_char n \<noteq> CHR 0x0A \<and> sextet_char n \<noteq> CHR 0x0D"
  using sextet_char_in [of n] by (auto simp: url_alphabet_def)

lemma sextet_char_not_dot [simp]: "n < 64 \<Longrightarrow> sextet_char n \<noteq> CHR ''.''"
  using sextet_char_in [of n] by (auto simp: url_alphabet_def)

section \<open>Round trip\<close>

lemma quantum_sextets:
  assumes "v < 16777216"
  shows "sextets_val (v div 262144 mod 64) (v div 4096 mod 64) (v div 64 mod 64) (v mod 64) = v"
proof -
  define A where "A = v div 64"
  define B where "B = A div 64"
  define C where "C = B div 64"
  have B: "v div 4096 = B" and C: "v div 262144 = C"
    by (simp_all add: A_def B_def C_def flip: div_mult2_eq)
  have "C < 64" using assms by (simp add: C [symmetric] div_less_iff_less_mult)
  then have "C mod 64 = C" by simp
  moreover have "64 * A + v mod 64 = v" "64 * B + A mod 64 = A" "64 * C + B mod 64 = B"
    unfolding A_def B_def C_def by (rule mult_div_mod_eq)+
  ultimately show ?thesis
    unfolding sextets_val_def B C A_def [symmetric] by linarith
qed

lemma quantum_bytes:
  assumes "a < 256" "b < 256" "c < 256"
  shows "quantum_val a b c < 16777216"
    "quantum_val a b c div 65536 = a"
    "quantum_val a b c div 256 mod 256 = b"
    "quantum_val a b c mod 256 = c"
proof -
  show "quantum_val a b c < 16777216"
    using assms by (simp add: quantum_val_def)
  show "quantum_val a b c div 65536 = a"
    unfolding quantum_val_def by (rule div_nat_eqI) (use assms in simp_all)
  have "quantum_val a b c div 256 = a * 256 + b"
    unfolding quantum_val_def by (rule div_nat_eqI) (use assms in simp_all)
  then show "quantum_val a b c div 256 mod 256 = b"
    using assms by simp
  have "quantum_val a b c = (a * 256 + b) * 256 + c"
    by (simp add: quantum_val_def)
  then show "quantum_val a b c mod 256 = c"
    using assms by (simp only: mod_mult_self3) simp
qed

lemma quantum_tail:
  "quantum_val a b 0 mod 64 = 0" "quantum_val a 0 0 div 64 mod 64 = 0"
proof -
  have "quantum_val a b 0 = (a * 1024 + b * 4) * 64" "quantum_val a 0 0 = a * 1024 * 64"
    by (simp_all add: quantum_val_def)
  moreover have "a * 1024 mod 64 = 0" using mod_mult_self2_is_0 [of "a * 16" 64] by simp
  ultimately show "quantum_val a b 0 mod 64 = 0" "quantum_val a 0 0 div 64 mod 64 = 0"
    by simp_all
qed

lemma sextets_range: "\<forall>n \<in> set (encode_sextets d). n < 64"
  by (induction d rule: encode_sextets.induct) (auto simp: Let_def)

lemma decode_encode_sextets: "decode_sextets (encode_sextets d) = Inr d"
proof (induction d rule: encode_sextets.induct)
  case 1
  then show ?case by simp
next
  case (2 a)
  have "char_of (quantum_val (of_char a) 0 0 div 65536) = a"
    using quantum_bytes [of "of_char a" 0 0] by simp
  then show ?case
    using quantum_sextets [of "quantum_val (of_char a) 0 0"] quantum_bytes(1) [of "of_char a" 0 0]
    by (simp add: Let_def quantum_tail)
next
  case (3 a b)
  let ?v = "quantum_val (of_char a) (of_char b) 0"
  have "char_of (?v div 65536) = a" "char_of (?v div 256) = b"
    using quantum_bytes [of "of_char a" "of_char b" 0]
    by (simp_all add: char_of_mod [symmetric, of "?v div 256"])
  then show ?case
    using quantum_sextets [of ?v] quantum_bytes(1) [of "of_char a" "of_char b" 0]
    by (simp add: Let_def quantum_tail)
next
  case (4 a b c r)
  let ?v = "quantum_val (of_char a) (of_char b) (of_char c)"
  have "char_of (?v div 65536) = a" "char_of (?v div 256) = b" "char_of ?v = c"
    using quantum_bytes [of "of_char a" "of_char b" "of_char c"]
    by (simp_all add: char_of_mod [symmetric, of "?v div 256"] char_of_mod [symmetric, of ?v])
  then show ?case
    using 4 quantum_sextets [of ?v] quantum_bytes(1) [of "of_char a" "of_char b" "of_char c"]
    by (simp add: Let_def)
qed

lemma map_sextets_chars: "\<forall>n \<in> set ns. n < 64 \<Longrightarrow> map_sextets (map sextet_char ns) = Some ns"
  by (induction ns) auto

lemma DecodeString_EncodeToString: "DecodeString (EncodeToString d) = Inr d"
  by (simp add: DecodeString_def EncodeToString_def map_sextets_chars sextets_range
      decode_encode_sextets)

lemma EncodedLen_step: "EncodedLen (Suc (Suc (Suc n))) = 4 + EncodedLen n"
proof -
  have "Suc (Suc (Suc n)) = 3 + n" by simp
  moreover have "(3 + n) div 3 = Suc (n div 3)" "(3 + n) mod 3 = n mod 3"
    by (subst div_add_self1) simp_all
  ultimately show ?thesis by (simp only: EncodedLen_def) simp
qed

lemma length_encode_sextets: "length (encode_sextets d) = EncodedLen (length d)"
  by (induction d rule: encode_sextets.induct) (simp_all add: Let_def EncodedLen_step, simp_all add: EncodedLen_def)

lemma length_b64Encode: "length (b64Encode d) = EncodedLen (length d)"
  by (simp add: b64Encode_def EncodeToString_def length_encode_sextets)

lemma DecodedLen_EncodedLen: "DecodedLen (EncodedLen n) = n"
proof -
  define q where "q = n div 3"
  have n: "n = 3 * q + n mod 3" by (simp add: q_def)
  have "n mod 3 = 0 \<or> n mod 3 = 1 \<or> n mod 3 = 2" by linarith
  then show ?thesis
    using n by (auto simp: EncodedLen_def DecodedLen_def q_def [symmetric] div_mult_self3)
qed

lemma EncodedLen_le: "3 * EncodedLen n \<le> 4 * n + 2"
proof -
  define q where "q = n div 3"
  have n: "n = 3 * q + n mod 3" by (simp add: q_def)
  have "n mod 3 = 0 \<or> n mod 3 = 1 \<or> n mod 3 = 2" by linarith
  then show ?thesis using n by (auto simp: EncodedLen_def q_def [symmetric])
qed

lemma b64Encode_eq_Nil [simp]: "b64Encode d = [] \<longleftrightarrow> d = []"
  by (cases d rule: encode_sextets.cases) (auto simp: b64Encode_def EncodeToString_def Let_def)

lemma b64Decode_b64Encode: "d \<noteq> [] \<Longrightarrow> b64Decode (b64Encode d) = Inr d"
  by (simp add: b64Decode_def length_b64Encode DecodedLen_EncodedLen)
    (simp add: b64Encode_def DecodeString_EncodeToString)

lemma b64Decode_b64Encode_length: "length d = numeral n \<Longrightarrow> b64Decode (b64Encode d) = Inr d"
  by (rule b64Decode_b64Encode) auto

lemma b64Decode_sound: "b64Decode s = Inr d \<Longrightarrow> d \<noteq> [] \<and> s = b64Encode d"
  by (auto simp: b64Decode_def split: if_splits sum.splits)

lemma b64Encode_inject: "b64Encode d = b64Encode e \<longleftrightarrow> d = e"
  by (metis DecodeString_EncodeToString b64Encode_def sum.inject(2))

lemma b64Encode_not_dot: "CHR ''.'' \<notin> set (b64Encode d)"
proof
  assume "CHR ''.'' \<in> set (b64Encode d)"
  then obtain n where "n \<in> set (encode_sextets d)" "CHR ''.'' = sextet_char n"
    by (auto simp: b64Encode_def EncodeToString_def)
  with sextets_range [of d] sextet_char_not_dot [of n] show False by metis
qed

text \<open>C12: \<open>b64Decode\<close> accepts exactly the canonical unpadded URL encodings of
  non-empty byte strings, and returns the bytes they encode: no two texts decode to the
  same bytes, whatever newlines, padding or trailing bits a lenient decoder would take.\<close>

theorem b64Decode_iff: "b64Decode s = Inr d \<longleftrightarrow> d \<noteq> [] \<and> s = b64Encode d"
  by (metis b64Decode_b64Encode b64Decode_sound)

end
