(* ===== verification/GoCrypto.thy ===== *)
theory GoCrypto
  imports Base64 "HOL-Library.Word"
begin

text \<open>
  \<open>crypto/sha256\<close>, \<open>crypto/hmac\<close> and \<open>crypto/hkdf\<close>, as the program uses them: SHA-256 of a
  message, HMAC-SHA256 (\<open>hmac.New\<close>, one or more \<open>Write\<close>, \<open>Sum\<close>), and \<open>hkdf.Key\<close> over SHA-256.
\<close>

unbundle bit_operations_syntax

section \<open>SHA-256\<close>

type_synonym w32 = "32 word"

definition sha256_K :: "w32 list" where
  "sha256_K =
    [1116352408, 1899447441, 3049323471, 3921009573, 961987163, 1508970993, 2453635748, 2870763221,
     3624381080, 310598401, 607225278, 1426881987, 1925078388, 2162078206, 2614888103, 3248222580,
     3835390401, 4022224774, 264347078, 604807628, 770255983, 1249150122, 1555081692, 1996064986,
     2554220882, 2821834349, 2952996808, 3210313671, 3336571891, 3584528711, 113926993, 338241895,
     666307205, 773529912, 1294757372, 1396182291, 1695183700, 1986661051, 2177026350, 2456956037,
     2730485921, 2820302411, 3259730800, 3345764771, 3516065817, 3600352804, 4094571909, 275423344,
     430227734, 506948616, 659060556, 883997877, 958139571, 1322822218, 1537002063, 1747873779,
     1955562222, 2024104815, 2227730452, 2361852424, 2428436474, 2756734187, 3204031479, 3329325298]"

definition sha256_init :: "w32 list" where
  "sha256_init =
    [1779033703, 3144134277, 1013904242, 2773480762, 1359893119, 2600822924, 528734635, 1541459225]"

definition byte_word :: "char \<Rightarrow> w32" where
  "byte_word c = word_of_nat (of_char c)"

definition word_byte :: "w32 \<Rightarrow> char" where
  "word_byte w = char_of (unat w mod 256)"

fun words_of :: "bytes \<Rightarrow> w32 list" where
  "words_of (a # b # c # d # r) =
     (push_bit 24 (byte_word a) OR push_bit 16 (byte_word b) OR push_bit 8 (byte_word c) OR byte_word d) # words_of r"
| "words_of _ = []"

definition bytes_of :: "w32 \<Rightarrow> bytes" where
  "bytes_of w = [word_byte (drop_bit 24 w), word_byte (drop_bit 16 w), word_byte (drop_bit 8 w), word_byte w]"

text \<open>The message schedule: 16 words of the block, 48 computed ones.\<close>

definition schedule_word :: "w32 list \<Rightarrow> nat \<Rightarrow> w32" where
  "schedule_word w i =
     (let v1 = w ! (i - 2);
          t1 = word_rotr 17 v1 XOR word_rotr 19 v1 XOR drop_bit 10 v1;
          v2 = w ! (i - 15);
          t2 = word_rotr 7 v2 XOR word_rotr 18 v2 XOR drop_bit 3 v2
      in t1 + w ! (i - 7) + t2 + w ! (i - 16))"

definition schedule :: "bytes \<Rightarrow> w32 list" where
  "schedule block = fold (\<lambda>i w. w @ [schedule_word w i]) [16..<64] (words_of block)"

fun sha256_round :: "w32 \<times> w32 \<Rightarrow> w32 list \<Rightarrow> w32 list" where
  "sha256_round (k, wi) [a, b, c, d, e, f, g, h] =
     (let t1 = h + (word_rotr 6 e XOR word_rotr 11 e XOR word_rotr 25 e) + ((e AND f) XOR (NOT e AND g)) + k + wi;
          t2 = (word_rotr 2 a XOR word_rotr 13 a XOR word_rotr 22 a) + ((a AND b) XOR (a AND c) XOR (b AND c))
      in [t1 + t2, a, b, c, d + t1, e, f, g])"
| "sha256_round _ s = s"

definition sha256_block :: "bytes \<Rightarrow> w32 list \<Rightarrow> w32 list" where
  "sha256_block block h = map2 (+) h (fold sha256_round (zip sha256_K (schedule block)) h)"

fun blocks :: "bytes \<Rightarrow> bytes list" where
  "blocks s = (if s = [] then [] else take 64 s # blocks (drop 64 s))"

declare blocks.simps [simp del]

text \<open>The padding: a bit 1, zeros, and the length of the message in bits as a 64-bit number.\<close>

definition pad :: "bytes \<Rightarrow> bytes" where
  "pad s =
     (let n = length s; zeros = (if n mod 64 < 56 then 55 - n mod 64 else 119 - n mod 64)
      in s @ CHR 0x80 # replicate zeros CHR 0x00 @
         map (\<lambda>i. char_of (8 * n div 2 ^ (8 * i) mod 256)) [7, 6, 5, 4, 3, 2, 1, 0])"

definition sha256 :: "bytes \<Rightarrow> bytes" where
  "sha256 s = concat (map bytes_of (fold sha256_block (blocks (pad s)) sha256_init))"

section \<open>HMAC and HKDF\<close>

definition xor_byte :: "nat \<Rightarrow> char \<Rightarrow> char" where
  "xor_byte n c = char_of (n XOR of_char c)"

definition hmac_key :: "bytes \<Rightarrow> bytes" where
  "hmac_key key = (let k = (if 64 < length key then sha256 key else key) in k @ replicate (64 - length k) CHR 0x00)"

definition hmacSum :: "bytes \<Rightarrow> bytes \<Rightarrow> bytes" where
  "hmacSum key msg =
     (let k = hmac_key key
      in sha256 (map (xor_byte 0x5c) k @ sha256 (map (xor_byte 0x36) k @ msg)))"

definition hkdf_Extract :: "bytes \<Rightarrow> bytes option \<Rightarrow> bytes" where
  "hkdf_Extract secret salt =
     hmacSum (case salt of None \<Rightarrow> replicate 32 CHR 0x00 | Some s \<Rightarrow> s) secret"

text \<open>\<open>n\<close> more blocks of output after the block \<open>prev\<close>.\<close>

fun hkdf_blocks :: "bytes \<Rightarrow> string \<Rightarrow> nat \<Rightarrow> nat \<Rightarrow> bytes \<Rightarrow> bytes" where
  "hkdf_blocks prk info 0 counter prev = []"
| "hkdf_blocks prk info (Suc n) counter prev =
     (let t = hmacSum prk (prev @ info @ [char_of counter]) in t @ hkdf_blocks prk info n (counter + 1) t)"

definition hkdf_Expand :: "bytes \<Rightarrow> string \<Rightarrow> nat \<Rightarrow> bytes" where
  "hkdf_Expand prk info n = take n (hkdf_blocks prk info ((n + 31) div 32) 1 [])"

definition hkdf_Key :: "bytes \<Rightarrow> bytes option \<Rightarrow> string \<Rightarrow> nat \<Rightarrow> bytes result" where
  "hkdf_Key secret salt info keyLength =
     (if keyLength > 32 * 255 then Inl (Msg ''hkdf: requested key length too large'')
      else Inr (hkdf_Expand (hkdf_Extract secret salt) info keyLength))"

section \<open>Lengths\<close>

lemma length_sha256_round [simp]: "length (sha256_round kw h) = length h"
  by (cases "(kw, h)" rule: sha256_round.cases) (simp_all add: Let_def)

lemma length_sha256_rounds [simp]: "length (fold sha256_round kws h) = length h"
  by (induction kws arbitrary: h) simp_all

lemma length_sha256_blocks [simp]: "length (fold sha256_block bs h) = length h"
  by (induction bs arbitrary: h) (simp_all add: sha256_block_def)

lemma length_sha256 [simp]: "length (sha256 s) = 32"
proof -
  have "length (fold sha256_block bs sha256_init) = 8" for bs by (simp add: sha256_init_def)
  then show ?thesis by (simp add: sha256_def length_concat bytes_of_def comp_def sum_list_triv)
qed

lemma length_hmacSum [simp]: "length (hmacSum key msg) = 32"
  by (simp add: hmacSum_def Let_def)

lemma length_hkdf_blocks: "length (hkdf_blocks prk info n counter prev) = 32 * n"
  by (induction n arbitrary: counter prev) (simp_all add: Let_def)

lemma hkdf_Key_Inr:
  "n \<le> 32 * 255 \<Longrightarrow> \<exists>key. hkdf_Key secret salt info n = Inr key \<and> length key = n"
  by (simp add: hkdf_Key_def hkdf_Expand_def length_hkdf_blocks)

end
