(* ===== verification/Secrets.thy ===== *)
theory Secrets
  imports GoCrypto
begin

text \<open>
  \<open>note_id.go\<close>, \<open>burn_token.go\<close> and the rest of \<open>common.go\<close>: the two 32-byte secrets,
  their text form, and the verifier derived from a burn token.

  The bytes of one \<open>fillRandom\<close> call come from a random source, which is a parameter. A
  \<open>[32]byte\<close> array is a byte list of length 32.
\<close>

definition deriveSubkey :: "bytes \<Rightarrow> string \<Rightarrow> bytes result" where
  "deriveSubkey rootSecret label = hkdf_Key rootSecret None label 32"

definition fillRandom :: "(nat \<Rightarrow> char) \<Rightarrow> nat \<Rightarrow> bytes" where
  "fillRandom rnd n = map rnd [0..<n]"

lemma length_fillRandom [simp]: "length (fillRandom rnd n) = n"
  by (simp add: fillRandom_def)

section \<open>Note identifiers\<close>

definition noteIDLen :: nat where "noteIDLen = 32"

type_synonym NoteID = bytes

definition NewNoteID :: "(nat \<Rightarrow> char) \<Rightarrow> NoteID" where
  "NewNoteID rnd = fillRandom rnd noteIDLen"

definition NoteID_UnmarshalText :: "bytes \<Rightarrow> NoteID result" where
  "NoteID_UnmarshalText txt =
     (case b64Decode txt of
        Inl e \<Rightarrow> Inl (Wrap ''invalid note ID: %w'' e)
      | Inr decoded \<Rightarrow>
          if length decoded \<noteq> noteIDLen then Inl (Msg ''invalid note ID length: %d'')
          else Inr decoded)"

definition ParseNoteID :: "string \<Rightarrow> NoteID result" where
  "ParseNoteID s = NoteID_UnmarshalText s"

definition NoteID_String :: "NoteID \<Rightarrow> string" where
  "NoteID_String nid = b64Encode nid"

definition NoteID_MarshalText :: "NoteID \<Rightarrow> bytes" where
  "NoteID_MarshalText nid = NoteID_String nid"

section \<open>Burn tokens\<close>

definition burnTokenLen :: nat where "burnTokenLen = 32"
definition burnVerifierLen :: nat where "burnVerifierLen = 32"

type_synonym BurnToken = bytes

definition NewBurnToken :: "(nat \<Rightarrow> char) \<Rightarrow> BurnToken" where
  "NewBurnToken rnd = fillRandom rnd burnTokenLen"

definition BurnToken_UnmarshalText :: "bytes \<Rightarrow> BurnToken result" where
  "BurnToken_UnmarshalText txt =
     (case b64Decode txt of
        Inl e \<Rightarrow> Inl (Wrap ''%w: %v'' (Sentinel ErrInvalidBurnToken))
      | Inr decoded \<Rightarrow>
          if length decoded \<noteq> burnTokenLen
          then Inl (Wrap ''%w length: %d'' (Sentinel ErrInvalidBurnToken))
          else Inr decoded)"

definition ParseBurnToken :: "string \<Rightarrow> BurnToken result" where
  "ParseBurnToken value = BurnToken_UnmarshalText value"

definition BurnToken_String :: "BurnToken \<Rightarrow> string" where
  "BurnToken_String token = b64Encode token"

definition BurnToken_MarshalText :: "BurnToken \<Rightarrow> bytes" where
  "BurnToken_MarshalText token = BurnToken_String token"

definition burnTokenVerifier :: "bytes \<Rightarrow> BurnToken \<Rightarrow> bytes result" where
  "burnTokenVerifier rootSecret burnToken =
     (case deriveSubkey rootSecret ''burn verifier v1'' of
        Inl e \<Rightarrow> Inl (Wrap ''error deriving burn verifier key: %w'' e)
      | Inr key \<Rightarrow> Inr (hmacSum key burnToken))"

lemma length_NewNoteID [simp]: "length (NewNoteID rnd) = 32"
  by (simp add: NewNoteID_def noteIDLen_def)

lemma length_NewBurnToken [simp]: "length (NewBurnToken rnd) = 32"
  by (simp add: NewBurnToken_def burnTokenLen_def)

lemma deriveSubkey_Inr: "\<exists>key. deriveSubkey root label = Inr key"
  using hkdf_Key_Inr [of 32 root None label] by (auto simp: deriveSubkey_def)

lemma burnTokenVerifier_Inr: "\<exists>v. burnTokenVerifier root tok = Inr v"
  using deriveSubkey_Inr [of root "''burn verifier v1''"] by (auto simp: burnTokenVerifier_def)

lemma length_burnTokenVerifier: "burnTokenVerifier root tok = Inr v \<Longrightarrow> length v = burnVerifierLen"
  by (auto simp: burnTokenVerifier_def burnVerifierLen_def split: sum.splits)

section \<open>The text form as an interface\<close>

text \<open>
  What the handlers rely on for either secret: a fixed-length binary value whose text
  form is unique, so that comparing identifiers as text or as bytes is the same.
\<close>

locale fixed_text =
  fixes parse :: "string \<Rightarrow> bytes result"
    and render :: "bytes \<Rightarrow> string"
    and size :: nat
  assumes parse_iff: "parse s = Inr v \<longleftrightarrow> length v = size \<and> s = render v"
    and render_length: "length v = size \<Longrightarrow> length (render v) = EncodedLen size"
begin

lemma parse_render: "length v = size \<Longrightarrow> parse (render v) = Inr v"
  by (simp add: parse_iff)

lemma parse_inject: "parse s = Inr v \<Longrightarrow> parse t = Inr v \<Longrightarrow> s = t"
  by (simp add: parse_iff)

lemma render_inject: "length v = size \<Longrightarrow> length w = size \<Longrightarrow> render v = render w \<longleftrightarrow> v = w"
  by (metis parse_render sum.inject(2))

lemma parse_length: "parse s = Inr v \<Longrightarrow> length s = EncodedLen size \<and> length v = size"
  by (simp add: parse_iff render_length)

lemma parse_fails_iff: "(\<exists>e. parse s = Inl e) \<longleftrightarrow> (\<forall>v. length v = size \<longrightarrow> s \<noteq> render v)"
  using parse_iff [of s] by (cases "parse s") auto

end

interpretation note_id: fixed_text ParseNoteID NoteID_String noteIDLen
  by unfold_locales
    (auto simp: ParseNoteID_def NoteID_UnmarshalText_def NoteID_String_def noteIDLen_def
      length_b64Encode b64Decode_b64Encode_length dest: b64Decode_sound split: sum.splits if_splits)

interpretation burn_token: fixed_text ParseBurnToken BurnToken_String burnTokenLen
  by unfold_locales
    (auto simp: ParseBurnToken_def BurnToken_UnmarshalText_def BurnToken_String_def burnTokenLen_def
      length_b64Encode b64Decode_b64Encode_length dest: b64Decode_sound split: sum.splits if_splits)

lemma EncodedLen_32 [simp]: "EncodedLen 32 = 43"
  by (simp add: EncodedLen_def)

section \<open>Properties\<close>

text \<open>\<open>ParseNoteID\<close> and \<open>String\<close> are inverse: a text parses exactly when it is the
  43-character form of a 32-byte identifier, and it parses to that identifier.\<close>

lemma ParseNoteID_iff:
  "ParseNoteID s = Inr nid \<longleftrightarrow> length nid = 32 \<and> length s = 43 \<and> s = NoteID_String nid"
  using note_id.parse_iff [of s nid] note_id.parse_length [of s nid] by (auto simp: noteIDLen_def)

text \<open>Parsing a burn token either yields the unique 32-byte token with that text, or
  fails with an error that \<open>errors.Is\<close> recognises as \<open>errInvalidBurnToken\<close> (the open
  handler answers 404 instead of 400 on it), and then no token has that text.\<close>

lemma ParseBurnToken_spec:
  "case ParseBurnToken s of
     Inr tok \<Rightarrow> length tok = 32 \<and> s = BurnToken_String tok
   | Inl e \<Rightarrow> errors_Is e ErrInvalidBurnToken \<and>
       (\<nexists>tok. length tok = 32 \<and> s = BurnToken_String tok)"
proof (cases "ParseBurnToken s")
  case (Inl e)
  then have "errors_Is e ErrInvalidBurnToken"
    by (auto simp: ParseBurnToken_def BurnToken_UnmarshalText_def split: sum.splits if_splits)
  with Inl burn_token.parse_fails_iff [of s] show ?thesis
    by (auto simp: burnTokenLen_def)
next
  case (Inr tok)
  then show ?thesis
    using burn_token.parse_iff [of s tok] by (simp add: burnTokenLen_def)
qed

end
