(* ===== verification/GoText.thy ===== *)
theory GoText
  imports GoPrelude
begin

text \<open>
  The functions of packages \<open>strings\<close> and \<open>strconv\<close> that the configuration, the proxy and
  the routes use, on byte strings. White space is Unicode's, in its UTF-8 encodings. Case
  conversion covers ASCII and the few other letters Unicode maps to ASCII ones; a letter
  that is not ASCII on either side is left as it is, which no comparison with an ASCII
  constant can tell.
\<close>

section \<open>Trimming\<close>

definition byte :: "nat \<Rightarrow> char" where "byte n = char_of n"

definition spaceSeqs :: "bytes list" where
  "spaceSeqs =
     map (\<lambda>n. [byte n]) [0x09, 0x0A, 0x0B, 0x0C, 0x0D, 0x20] @
     [[byte 0xC2, byte 0x85], [byte 0xC2, byte 0xA0], [byte 0xE1, byte 0x9A, byte 0x80]] @
     map (\<lambda>n. [byte 0xE2, byte 0x80, byte n])
       [0x80, 0x81, 0x82, 0x83, 0x84, 0x85, 0x86, 0x87, 0x88, 0x89, 0x8A, 0xA8, 0xA9, 0xAF] @
     [[byte 0xE2, byte 0x81, byte 0x9F], [byte 0xE3, byte 0x80, byte 0x80]]"

function trimSeqs :: "bytes list \<Rightarrow> bytes \<Rightarrow> bytes" where
  "trimSeqs seqs s =
     (case find (\<lambda>p. p \<noteq> [] \<and> HasPrefix s p) seqs of
        None \<Rightarrow> s | Some p \<Rightarrow> trimSeqs seqs (drop (length p) s))"
  by pat_completeness auto

termination
proof (relation "measure (\<lambda>(seqs, s). length s)")
  fix seqs :: "bytes list" and s p
  assume "find (\<lambda>p. p \<noteq> [] \<and> HasPrefix s p) seqs = Some p"
  then have "p \<noteq> [] \<and> HasPrefix s p" by (auto simp: find_Some_iff)
  then show "((seqs, drop (length p) s), (seqs, s)) \<in> measure (\<lambda>(seqs, s). length s)"
    by (cases s) (auto simp: HasPrefix_def)
qed simp

declare trimSeqs.simps [simp del]

definition TrimSpace :: "string \<Rightarrow> string" where
  "TrimSpace s = rev (trimSeqs (map rev spaceSeqs) (rev (trimSeqs spaceSeqs s)))"

definition visible :: "char \<Rightarrow> bool" where
  "visible c \<longleftrightarrow> 33 \<le> (of_char c :: nat) \<and> (of_char c :: nat) \<le> 126"

lemma trimSeqs_stop:
  "s = [] \<or> (\<forall>p \<in> set seqs. p \<noteq> [] \<longrightarrow> hd p \<noteq> hd s) \<Longrightarrow> trimSeqs seqs s = s"
proof -
  assume a: "s = [] \<or> (\<forall>p \<in> set seqs. p \<noteq> [] \<longrightarrow> hd p \<noteq> hd s)"
  then have "find (\<lambda>p. p \<noteq> [] \<and> HasPrefix s p) seqs = None"
    by (auto simp: find_None_iff HasPrefix_iff)
  then show ?thesis by (subst trimSeqs.simps) simp
qed

lemma of_char_byte: "n < 256 \<Longrightarrow> of_char (byte n) = (n::nat)"
  by (simp add: byte_def)

lemma eq_byte: "n < 256 \<Longrightarrow> c = byte n \<longleftrightarrow> of_char c = n"
  by (metis byte_def char_of_char of_char_byte)

lemma spaceSeqs_hd:
  "visible c \<Longrightarrow> p \<in> set spaceSeqs \<Longrightarrow> hd p \<noteq> c \<and> hd (rev p) \<noteq> c"
  by (auto simp: spaceSeqs_def visible_def of_char_byte)

lemma TrimSpace_Nil [simp]: "TrimSpace [] = []"
  by (simp add: TrimSpace_def trimSeqs_stop)

lemma TrimSpace_id: "visible (hd s) \<Longrightarrow> visible (last s) \<Longrightarrow> TrimSpace s = s"
proof (cases "s = []")
  case False
  assume v: "visible (hd s)" "visible (last s)"
  have "trimSeqs spaceSeqs s = s"
    by (rule trimSeqs_stop) (use spaceSeqs_hd [OF v(1)] in auto)
  moreover have "trimSeqs (map rev spaceSeqs) (rev s) = rev s"
    by (rule trimSeqs_stop) (use spaceSeqs_hd [OF v(2)] False in \<open>auto simp: hd_rev\<close>)
  ultimately show ?thesis by (simp add: TrimSpace_def)
qed simp

lemma trimSeqs_suffix: "\<exists>p. s = p @ trimSeqs seqs s"
proof (induction seqs s rule: trimSeqs.induct)
  case (1 seqs s)
  show ?case
  proof (cases "find (\<lambda>p. p \<noteq> [] \<and> HasPrefix s p) seqs")
    case (Some p)
    then have "s = p @ drop (length p) s" by (auto simp: find_Some_iff HasPrefix_def) (metis append_take_drop_id)
    moreover from 1 [OF Some] obtain q where "drop (length p) s = q @ trimSeqs seqs (drop (length p) s)" ..
    ultimately have "s = (p @ q) @ trimSeqs seqs (drop (length p) s)" by (metis append_assoc)
    moreover have "trimSeqs seqs s = trimSeqs seqs (drop (length p) s)"
      by (subst trimSeqs.simps) (simp add: Some)
    ultimately show ?thesis by metis
  qed (subst trimSeqs.simps, simp)
qed

lemma TrimSpace_infix: "\<exists>p q. s = p @ TrimSpace s @ q"
proof -
  obtain p where "s = p @ trimSeqs spaceSeqs s" using trimSeqs_suffix by blast
  moreover obtain q where "rev (trimSeqs spaceSeqs s) = q @ trimSeqs (map rev spaceSeqs) (rev (trimSeqs spaceSeqs s))"
    using trimSeqs_suffix by blast
  then have "trimSeqs spaceSeqs s = TrimSpace s @ rev q"
    unfolding TrimSpace_def by (metis rev_append rev_rev_ident)
  ultimately show ?thesis by metis
qed

section \<open>Case\<close>

definition asciiLower :: "char \<Rightarrow> char" where
  "asciiLower c = (if 65 \<le> (of_char c :: nat) \<and> (of_char c :: nat) \<le> 90 then char_of (of_char c + 32 :: nat) else c)"

text \<open>Outside ASCII, only the Kelvin sign and the dotted capital I have ASCII lower-case
  letters, and only the Kelvin sign and the long s fold to ASCII letters.\<close>

definition kelvinSign :: bytes where "kelvinSign = [byte 0xE2, byte 0x84, byte 0xAA]"
definition dottedI :: bytes where "dottedI = [byte 0xC4, byte 0xB0]"
definition longS :: bytes where "longS = [byte 0xC5, byte 0xBF]"

fun ToLower :: "string \<Rightarrow> string" where
  "ToLower [] = []"
| "ToLower (c # cs) =
     (if HasPrefix (c # cs) kelvinSign then CHR ''k'' # ToLower (drop 2 cs)
      else if HasPrefix (c # cs) dottedI then CHR ''i'' # ToLower (drop 1 cs)
      else asciiLower c # ToLower cs)"

fun foldKey :: "string \<Rightarrow> string" where
  "foldKey [] = []"
| "foldKey (c # cs) =
     (if HasPrefix (c # cs) kelvinSign then CHR ''k'' # foldKey (drop 2 cs)
      else if HasPrefix (c # cs) longS then CHR ''s'' # foldKey (drop 1 cs)
      else asciiLower c # foldKey cs)"

definition EqualFold :: "string \<Rightarrow> string \<Rightarrow> bool" where
  "EqualFold a b \<longleftrightarrow> foldKey a = foldKey b"

definition ascii :: "char \<Rightarrow> bool" where
  "ascii c \<longleftrightarrow> (of_char c :: nat) < 128"

lemma ascii_not_seq: "ascii c \<Longrightarrow> \<not> HasPrefix (c # cs) kelvinSign \<and> \<not> HasPrefix (c # cs) dottedI \<and> \<not> HasPrefix (c # cs) longS"
  by (auto simp: HasPrefix_def kelvinSign_def dottedI_def longS_def ascii_def of_char_byte)

lemma ToLower_ascii: "\<forall>c \<in> set s. ascii c \<Longrightarrow> ToLower s = map asciiLower s"
  by (induction s rule: ToLower.induct) (simp_all add: ascii_not_seq)

lemma foldKey_ascii: "\<forall>c \<in> set s. ascii c \<Longrightarrow> foldKey s = map asciiLower s"
  by (induction s rule: foldKey.induct) (simp_all add: ascii_not_seq)

section \<open>Splitting\<close>

fun Split :: "string \<Rightarrow> char \<Rightarrow> string list" where
  "Split [] sep = [[]]"
| "Split (c # cs) sep =
     (if c = sep then [] # Split cs sep
      else case Split cs sep of [] \<Rightarrow> [[c]] | x # xs \<Rightarrow> (c # x) # xs)"

lemma Split_ne [simp]: "Split s sep \<noteq> []"
  by (cases s) (auto split: list.splits)

lemma Split_no_sep: "x \<in> set (Split s sep) \<Longrightarrow> sep \<notin> set x"
  by (induction s arbitrary: x) (auto split: if_splits list.splits)

lemma Split_single: "sep \<notin> set s \<Longrightarrow> Split s sep = [s]"
  by (induction s) auto

lemma Split_append: "sep \<notin> set a \<Longrightarrow> Split (a @ sep # b) sep = a # Split b sep"
  by (induction a) auto

text \<open>\<open>strings.Index\<close> of a one-byte string.\<close>

fun Index :: "string \<Rightarrow> char \<Rightarrow> nat option" where
  "Index [] c = None"
| "Index (x # xs) c = (if x = c then Some 0 else map_option Suc (Index xs c))"

definition ContainsAny :: "string \<Rightarrow> string \<Rightarrow> bool" where
  "ContainsAny s chars \<longleftrightarrow> (\<exists>c \<in> set s. c \<in> set chars)"

section \<open>Decimal numbers\<close>

definition digit :: "char \<Rightarrow> int option" where
  "digit c = (let n = of_char c :: nat in if 48 \<le> n \<and> n \<le> 57 then Some (int (n - 48)) else None)"

fun digitsVal :: "int \<Rightarrow> string \<Rightarrow> int option" where
  "digitsVal acc [] = Some acc"
| "digitsVal acc (c # cs) = (case digit c of None \<Rightarrow> None | Some d \<Rightarrow> digitsVal (acc * 10 + d) cs)"

text \<open>\<open>strconv.ParseInt(s, 10, 64)\<close>, which \<open>strconv.Atoi\<close> equals on a 64-bit platform.\<close>

definition parseUnsigned :: "bool \<Rightarrow> string \<Rightarrow> int result" where
  "parseUnsigned neg ds =
     (if ds = [] then Inl (Msg ''invalid syntax'')
      else case digitsVal 0 ds of
        None \<Rightarrow> Inl (Msg ''invalid syntax'')
      | Some un \<Rightarrow>
          if \<not> neg \<and> un \<ge> 2 ^ 63 then Inl (Msg ''value out of range'')
          else if neg \<and> un > 2 ^ 63 then Inl (Msg ''value out of range'')
          else Inr (if neg then - un else un))"

definition ParseInt :: "string \<Rightarrow> int result" where
  "ParseInt s =
     (case s of
        [] \<Rightarrow> Inl (Msg ''invalid syntax'')
      | c # r \<Rightarrow> if c = CHR ''+'' then parseUnsigned False r
          else if c = CHR ''-'' then parseUnsigned True r else parseUnsigned False s)"

fun Itoa :: "nat \<Rightarrow> string" where
  "Itoa n = (if n < 10 then [char_of (48 + n)] else Itoa (n div 10) @ [char_of (48 + n mod 10)])"

declare Itoa.simps [simp del]

lemma digitsVal_append: "digitsVal acc (a @ b) = (case digitsVal acc a of None \<Rightarrow> None | Some v \<Rightarrow> digitsVal v b)"
  by (induction a arbitrary: acc) (auto split: option.split)

lemma digitsVal_nonneg: "0 \<le> acc \<Longrightarrow> digitsVal acc s = Some v \<Longrightarrow> 0 \<le> v"
proof (induction s arbitrary: acc)
  case (Cons c cs)
  then obtain d where "digit c = Some d" "digitsVal (acc * 10 + d) cs = Some v"
    by (auto split: option.splits)
  moreover from this have "0 \<le> d" by (auto simp: digit_def Let_def split: if_splits)
  ultimately show ?case using Cons.IH [of "acc * 10 + d"] Cons.prems by simp
qed simp

lemma digit_char: "n < 10 \<Longrightarrow> digit (char_of (48 + n :: nat)) = Some (int n)"
  by (simp add: digit_def)

lemma parseUnsigned_Inr:
  assumes "parseUnsigned neg ds = Inr v"
  shows "\<exists>un. digitsVal 0 ds = Some un \<and> v = (if neg then - un else un) \<and> (if neg then un \<le> 2 ^ 63 else un < 2 ^ 63)"
proof (cases "digitsVal 0 ds")
  case None
  with assms show ?thesis by (simp add: parseUnsigned_def split: if_split_asm)
next
  case (Some un)
  with assms show ?thesis
    by (cases neg) (simp_all add: parseUnsigned_def split: if_split_asm)
qed

lemma parseUnsigned_bounds:
  assumes "parseUnsigned neg ds = Inr v"
  shows "minInt64 \<le> v" "v \<le> maxInt64"
proof -
  obtain un where un: "digitsVal 0 ds = Some un" "v = (if neg then - un else un)"
    "if neg then un \<le> 2 ^ 63 else un < 2 ^ 63"
    using parseUnsigned_Inr [OF assms] by blast
  from un(1) have "0 \<le> un" by (rule digitsVal_nonneg [rotated]) simp
  with un(2,3) show "minInt64 \<le> v" "v \<le> maxInt64"
    by (cases neg; simp add: minInt64_def maxInt64_def)+
qed

lemma ParseInt_bounds:
  assumes "ParseInt s = Inr v"
  shows "minInt64 \<le> v" "v \<le> maxInt64"
proof -
  have "\<exists>neg ds. parseUnsigned neg ds = Inr v"
  proof (cases s)
    case Nil
    with assms show ?thesis by (simp add: ParseInt_def)
  next
    case (Cons c r)
    show ?thesis
    proof (cases "c = CHR ''+'' \<or> c = CHR ''-''")
      case True
      with assms Cons have "parseUnsigned (c = CHR ''-'') r = Inr v" by (auto simp: ParseInt_def)
      then show ?thesis by blast
    next
      case False
      with assms Cons have "parseUnsigned False s = Inr v" by (simp add: ParseInt_def)
      then show ?thesis by blast
    qed
  qed
  then show "minInt64 \<le> v" "v \<le> maxInt64" using parseUnsigned_bounds by blast+
qed

lemma Itoa_digits: "digitsVal 0 (Itoa n) = Some (int n)" "Itoa n \<noteq> []" "\<forall>c \<in> set (Itoa n). digit c \<noteq> None"
proof -
  have "digitsVal 0 (Itoa n) = Some (int n) \<and> Itoa n \<noteq> [] \<and> (\<forall>c \<in> set (Itoa n). digit c \<noteq> None)"
  proof (induction n rule: Itoa.induct)
    case (1 n)
    show ?case
    proof (cases "n < 10")
      case True
      then show ?thesis by (subst (1 2 3) Itoa.simps) (simp add: digit_char)
    next
      case False
      with 1 have IH: "digitsVal 0 (Itoa (n div 10)) = Some (int (n div 10))" "\<forall>c \<in> set (Itoa (n div 10)). digit c \<noteq> None"
        by simp_all
      have "digit (char_of (48 + n mod 10)) = Some (int (n mod 10))" by (rule digit_char) simp
      moreover have "int (n div 10) * 10 + int (n mod 10) = int n" by (simp add: zdiv_int zmod_int)
      ultimately show ?thesis
        using False IH by (subst (1 2 3) Itoa.simps) (simp add: digitsVal_append)
    qed
  qed
  then show "digitsVal 0 (Itoa n) = Some (int n)" "Itoa n \<noteq> []" "\<forall>c \<in> set (Itoa n). digit c \<noteq> None" by simp_all
qed

lemma digit_range: "digit c \<noteq> None \<longleftrightarrow> 48 \<le> (of_char c :: nat) \<and> (of_char c :: nat) \<le> 57"
  by (simp add: digit_def Let_def)

lemma digit_facts:
  assumes "digit c \<noteq> None"
  shows "visible c" "ascii c" "asciiLower c = c" "c \<notin> {CHR ''b'', CHR ''k'', CHR ''m'', CHR ''g'', CHR ''i'', CHR ''+'', CHR ''-''}"
  using assms unfolding digit_range by (auto simp: visible_def ascii_def asciiLower_def)

lemma ParseInt_Itoa: "int n \<le> maxInt64 \<Longrightarrow> ParseInt (Itoa n) = Inr (int n)"
proof -
  assume n: "int n \<le> maxInt64"
  obtain c cs where c: "Itoa n = c # cs" using Itoa_digits(2) by (cases "Itoa n") auto
  then have "c \<noteq> CHR ''+''" "c \<noteq> CHR ''-''" using Itoa_digits(3) [of n] digit_facts(4) [of c] by auto
  then have "ParseInt (Itoa n) = parseUnsigned False (Itoa n)" by (simp add: ParseInt_def c)
  also have "\<dots> = Inr (int n)"
    using n unfolding parseUnsigned_def Itoa_digits(1) by (simp add: Itoa_digits(2) maxInt64_def)
  finally show ?thesis .
qed

lemma HasSuffix_rev: "HasSuffix s p \<longleftrightarrow> HasPrefix (rev s) (rev p)"
  unfolding HasSuffix_iff HasPrefix_iff by (metis rev_append rev_rev_ident)

lemma HasPrefix_Cons:
  "HasPrefix s []" "\<not> HasPrefix [] (b # p)" "HasPrefix (a # s) (b # p) \<longleftrightarrow> a = b \<and> HasPrefix s p"
  by (auto simp: HasPrefix_def)

lemma Itoa_nonempty [simp]: "Itoa n \<noteq> []"
  by (rule Itoa_digits)

lemma Itoa_chars: "c \<in> set (Itoa n) \<Longrightarrow> digit c \<noteq> None"
  using Itoa_digits(3) by simp

lemma digit_special [simp]: "digit CHR ''.'' = None" "digit CHR '':'' = None" "digit CHR ''%'' = None" "digit CHR ''/'' = None"
  by (simp_all add: digit_def)

section \<open>Scanning\<close>

text \<open>The parts around the last occurrence of a byte.\<close>

definition CutLast :: "string \<Rightarrow> char \<Rightarrow> (string \<times> string) option" where
  "CutLast s c = (case Cut (rev s) c of None \<Rightarrow> None | Some (b, a) \<Rightarrow> Some (rev a, rev b))"

fun Join :: "string list \<Rightarrow> char \<Rightarrow> string" where
  "Join [] sep = []"
| "Join [x] sep = x"
| "Join (x # y # xs) sep = x @ sep # Join (y # xs) sep"

lemma CutLast_append: "c \<notin> set b \<Longrightarrow> CutLast (a @ c # b) c = Some (a, b)"
  using Cut_append [of c "rev b" "rev a"] by (simp add: CutLast_def)

lemma CutLast_Some: "CutLast s c = Some (a, b) \<Longrightarrow> s = a @ c # b \<and> c \<notin> set b"
  by (auto simp: CutLast_def rev_swap dest!: Cut_Some split: option.splits)

lemma Cut_None: "Cut s c = None \<longleftrightarrow> c \<notin> set s"
  by (induction s) (auto split: option.splits)

lemma Cut_absent [simp]: "c \<notin> set s \<Longrightarrow> Cut s c = None"
  by (simp add: Cut_None)

lemma CutLast_absent [simp]: "c \<notin> set s \<Longrightarrow> CutLast s c = None"
  by (simp add: CutLast_def)

lemma Join_Cons: "xs \<noteq> [] \<Longrightarrow> Join (x # xs) sep = x @ sep # Join xs sep"
  by (cases xs) simp_all

lemma set_Join: "set (Join xs sep) \<subseteq> insert sep (\<Union> (set ` set xs))"
  by (induction xs sep rule: Join.induct) auto

lemma find_first: "\<forall>x \<in> set xs. \<not> P x \<Longrightarrow> P c \<Longrightarrow> find P (xs @ c # ys) = Some c"
  by (induction xs) auto

lemma takeWhile_first: "\<forall>x \<in> set xs. P x \<Longrightarrow> ys = [] \<or> \<not> P (hd ys) \<Longrightarrow> takeWhile P (xs @ ys) = xs \<and> dropWhile P (xs @ ys) = ys"
  by (cases ys) simp_all

lemma Itoa_no_zero: "length (Itoa n) > 1 \<Longrightarrow> hd (Itoa n) \<noteq> CHR ''0''"
proof (induction n rule: Itoa.induct)
  case (1 n)
  show ?case
  proof (cases "n < 100")
    case True
    from 1(2) have "\<not> n < 10" by (subst (asm) Itoa.simps) (auto split: if_splits)
    with True have d: "n div 10 < 10" "n div 10 \<noteq> 0" by (auto simp: div_eq_0_iff)
    with \<open>\<not> n < 10\<close> have "hd (Itoa n) = char_of (48 + n div 10)"
      by (subst Itoa.simps) (simp add: Itoa.simps [of "n div 10"])
    moreover have "char_of (48 + n div 10) \<noteq> CHR ''0''" using d by (auto simp: char_of_eq_iff take_bit_eq_mod)
    ultimately show ?thesis by simp
  next
    case False
    then have "\<not> n div 10 < 10" by simp
    then have "length (Itoa (n div 10)) > 1" by (subst Itoa.simps) (cases "Itoa (n div 10 div 10)"; simp)
    with 1(1) False have "hd (Itoa (n div 10)) \<noteq> CHR ''0''" by simp
    with False show ?thesis by (subst Itoa.simps) (simp add: hd_append)
  qed
qed

section \<open>Digits in a base\<close>

definition baseVal :: "nat \<Rightarrow> nat list \<Rightarrow> nat" where
  "baseVal b ds = foldl (\<lambda>acc d. acc * b + d) 0 ds"

lemma baseVal_snoc [simp]: "baseVal b (ds @ [d]) = baseVal b ds * b + d"
  by (simp add: baseVal_def)

lemma baseVal_Nil [simp]: "baseVal b [] = 0"
  by (simp add: baseVal_def)

definition hexDigit :: "char \<Rightarrow> nat option" where
  "hexDigit c = (let n = of_char c :: nat
     in if 48 \<le> n \<and> n \<le> 57 then Some (n - 48) else if 97 \<le> n \<and> n \<le> 102 then Some (n - 87)
        else if 65 \<le> n \<and> n \<le> 70 then Some (n - 55) else None)"

definition hexLower :: "nat \<Rightarrow> char" where "hexLower n = ''0123456789abcdef'' ! n"

definition isHex :: "char \<Rightarrow> bool" where "isHex c \<longleftrightarrow> hexDigit c \<noteq> None"

definition hexVal :: "string \<Rightarrow> nat" where
  "hexVal ds = baseVal 16 (map (\<lambda>c. the (hexDigit c)) ds)"

end
