(* ===== verification/GoTime.thy ===== *)
theory GoTime
  imports GoText
begin

text \<open>
  Package \<open>time\<close> as \<open>encoding/json\<close> uses it: the civil date of an instant, and the text of RFC 3339
  with nanoseconds, written in the zone of the host and read back in any zone.
\<close>

section \<open>Civil dates\<close>

definition isLeap :: "int \<Rightarrow> bool" where
  "isLeap y \<longleftrightarrow> y mod 4 = 0 \<and> (y mod 100 \<noteq> 0 \<or> y mod 400 = 0)"

definition monthLengths :: "int \<Rightarrow> int list" where
  "monthLengths y = [31, if isLeap y then 29 else 28, 31, 30, 31, 30, 31, 31, 30, 31, 30, 31]"

text \<open>Days are counted from January 1 of year 1.\<close>

definition daysBefore :: "int \<Rightarrow> int" where
  "daysBefore y = (let p = y - 1 in 365 * p + p div 4 - p div 100 + p div 400)"

fun splitMonth :: "nat \<Rightarrow> int list \<Rightarrow> int \<Rightarrow> nat \<times> int" where
  "splitMonth m [] d = (m, d + 1)"
| "splitMonth m (l # ls) d = (if d < l then (m, d + 1) else splitMonth (m + 1) ls (d - l))"

text \<open>The year and the day in it, by cycles of 400, 100, 4 and single years.\<close>

definition yearDay :: "int \<Rightarrow> int \<times> int" where
  "yearDay n =
     (let a = n div 146097; r = n mod 146097;
          b = min 3 (r div 36524); r = r - 36524 * b;
          c = r div 1461; r = r mod 1461;
          d = min 3 (r div 365)
      in (400 * a + 100 * b + 4 * c + d + 1, r - 365 * d))"

definition date :: "int \<Rightarrow> int \<times> nat \<times> int" where
  "date n = (let (y, yd) = yearDay n; (m, d) = splitMonth 1 (monthLengths y) yd in (y, m, d))"

definition daysIn :: "nat \<Rightarrow> int \<Rightarrow> int" where
  "daysIn month year = monthLengths year ! (month - 1)"

definition dateDays :: "int \<Rightarrow> nat \<Rightarrow> int \<Rightarrow> int" where
  "dateDays y m d = daysBefore y + sum_list (take (m - 1) (monthLengths y)) + d - 1"

section \<open>Numbers of fixed width\<close>

primrec digits :: "nat \<Rightarrow> nat \<Rightarrow> string" where
  "digits 0 n = []"
| "digits (Suc w) n = digits w (n div 10) @ [char_of (48 + n mod 10)]"

primrec takeDigits :: "nat \<Rightarrow> int \<Rightarrow> string \<Rightarrow> (int \<times> string) option" where
  "takeDigits 0 acc s = Some (acc, s)"
| "takeDigits (Suc w) acc s =
     (case s of [] \<Rightarrow> None
      | c # cs \<Rightarrow> (case digit c of None \<Rightarrow> None | Some d \<Rightarrow> takeDigits w (acc * 10 + d) cs))"

section \<open>Writing\<close>

text \<open>The fraction has nine digits without its trailing zeros.\<close>

definition fraction :: "nat \<Rightarrow> string" where
  "fraction nsec =
     (if nsec = 0 then []
      else CHR ''.'' # rev (dropWhile (\<lambda>c. c = CHR ''0'') (rev (digits 9 nsec))))"

definition zoneText :: "int \<Rightarrow> string" where
  "zoneText offset =
     (if offset = 0 then ''Z''
      else let zone = abs offset div 60
           in (if offset \<le> -60 then CHR ''-'' else CHR ''+'') # digits 2 (nat (zone div 60)) @ CHR '':'' # digits 2 (nat (zone mod 60)))"

text \<open>\<open>Time.appendStrictRFC3339\<close> of the instant \<open>t\<close> in a zone \<open>offset\<close> seconds east of UTC. Years and
  hours that do not fit their digits are errors.\<close>

definition appendRFC3339 :: "int \<Rightarrow> time \<Rightarrow> string result" where
  "appendRFC3339 offset t =
     (let local = t + offset * Second; sec = local div Second; nsec = local mod Second;
          (y, m, d) = date (sec div 86400); s = sec mod 86400
      in if y < 0 \<or> 9999 < y then Inl (Msg ''year outside of range [0,9999]'')
         else if 24 \<le> abs offset div 3600 then Inl (Msg ''timezone hour outside of range [0,23]'')
         else Inr (digits 4 (nat y) @ CHR ''-'' # digits 2 m @ CHR ''-'' # digits 2 (nat d) @
           CHR ''T'' # digits 2 (nat (s div 3600)) @ CHR '':'' # digits 2 (nat (s div 60 mod 60)) @
           CHR '':'' # digits 2 (nat (s mod 60)) @ fraction (nat nsec) @ zoneText offset))"

section \<open>Reading\<close>

definition skip :: "char \<Rightarrow> string \<Rightarrow> string option" where
  "skip c s = (case s of [] \<Rightarrow> None | x # xs \<Rightarrow> if x = c then Some xs else None)"

definition inRange :: "int \<Rightarrow> int \<Rightarrow> (int \<times> string) option \<Rightarrow> (int \<times> string) option" where
  "inRange lo hi r = (case r of None \<Rightarrow> None | Some (n, s) \<Rightarrow> if lo \<le> n \<and> n \<le> hi then Some (n, s) else None)"

text \<open>The hour may have one digit.\<close>

definition takeHour :: "string \<Rightarrow> (int \<times> string) option" where
  "takeHour s =
     (case s of [] \<Rightarrow> None
      | c # cs \<Rightarrow> (case digit c of None \<Rightarrow> None
          | Some d \<Rightarrow> (case cs of [] \<Rightarrow> Some (d, [])
              | e # r \<Rightarrow> (case digit e of None \<Rightarrow> Some (d, cs) | Some f \<Rightarrow> Some (d * 10 + f, r)))))"

text \<open>A fraction after a point or a comma, of which nine digits count.\<close>

definition takeFraction :: "string \<Rightarrow> int \<times> string" where
  "takeFraction s =
     (case s of
        p # c # cs \<Rightarrow>
          if p \<in> {CHR ''.'', CHR '',''} \<and> digit c \<noteq> None then
            (let ds = takeWhile (\<lambda>x. digit x \<noteq> None) (c # cs); k = min 9 (length ds)
             in (the (digitsVal 0 (take k ds)) * 10 ^ (9 - k), dropWhile (\<lambda>x. digit x \<noteq> None) (c # cs)))
          else (0, s)
      | _ \<Rightarrow> (0, s))"

definition takeZone :: "string \<Rightarrow> int option" where
  "takeZone s =
     (if s = ''Z'' then Some 0
      else case s of [] \<Rightarrow> None
      | sign # r \<Rightarrow>
          if sign \<notin> {CHR ''+'', CHR ''-''} then None
          else Option.bind (inRange 0 24 (takeDigits 2 0 r)) (\<lambda>(hh, r).
            Option.bind (skip CHR '':'' r) (\<lambda>r.
            Option.bind (inRange 0 60 (takeDigits 2 0 r)) (\<lambda>(mm, r).
              if r = [] then Some ((if sign = CHR ''-'' then -1 else 1) * (hh * 60 + mm) * 60) else None))))"

text \<open>\<open>time.Parse\<close> with the layout \<open>RFC3339\<close>, which is also what \<open>Time.UnmarshalJSON\<close> falls back on. It
  accepts what the strict parser accepts, and with the same instant.\<close>

definition parseRFC3339 :: "string \<Rightarrow> time option" where
  "parseRFC3339 s =
     Option.bind (takeDigits 4 0 s) (\<lambda>(year, s). Option.bind (skip CHR ''-'' s) (\<lambda>s.
     Option.bind (inRange 1 12 (takeDigits 2 0 s)) (\<lambda>(month, s). Option.bind (skip CHR ''-'' s) (\<lambda>s.
     Option.bind (takeDigits 2 0 s) (\<lambda>(day, s). Option.bind (skip CHR ''T'' s) (\<lambda>s.
     Option.bind (inRange 0 23 (takeHour s)) (\<lambda>(hour, s). Option.bind (skip CHR '':'' s) (\<lambda>s.
     Option.bind (inRange 0 59 (takeDigits 2 0 s)) (\<lambda>(minute, s). Option.bind (skip CHR '':'' s) (\<lambda>s.
     Option.bind (inRange 0 59 (takeDigits 2 0 s)) (\<lambda>(sec, s).
       let (nsec, s) = takeFraction s
       in Option.bind (takeZone s) (\<lambda>offset.
         if day < 1 \<or> daysIn (nat month) year < day then None
         else Some (((dateDays year (nat month) day * 24 + hour) * 60 + minute) * 60 * Second + sec * Second + nsec
                - offset * Second)))))))))))))"

section \<open>Dates: round trip\<close>

lemma yearDay_facts:
  assumes "yearDay n = (y, yd)"
  shows "daysBefore y + yd = n" "0 \<le> yd" "yd < (if isLeap y then 366 else 365)"
proof -
  define a r where "a = n div 146097" and "r = n mod 146097"
  define b r1 where "b = min 3 (r div 36524)" and "r1 = r - 36524 * b"
  define c r2 where "c = r1 div 1461" and "r2 = r1 mod 1461"
  define d where "d = min 3 (r2 div 365)"
  have "yearDay n = (400 * a + 100 * b + 4 * c + d + 1, r2 - 365 * d)"
    unfolding yearDay_def Let_def a_def r_def b_def r1_def c_def r2_def d_def by (rule refl)
  with assms have y: "y = 400 * a + 100 * b + 4 * c + d + 1" and yd: "yd = r2 - 365 * d" by auto
  have n: "n = 146097 * a + r" "0 \<le> r" "r < 146097" unfolding a_def r_def by simp_all
  have rb: "0 \<le> r div 36524" "36524 * (r div 36524) \<le> r" "r < 36524 * (r div 36524) + 36524"
    using n(2) by (simp_all add: pos_imp_zdiv_nonneg_iff)
  have b: "0 \<le> b" "b \<le> 3" "0 \<le> r1" "r1 < 36525" "b < 3 \<Longrightarrow> r1 < 36524"
    using rb n(3) unfolding r1_def b_def by linarith+
  have c: "r1 = 1461 * c + r2" "0 \<le> r2" "r2 < 1461" "0 \<le> c" "c \<le> 24"
    using b by (simp_all add: c_def r2_def)
  have rd: "0 \<le> r2 div 365" "365 * (r2 div 365) \<le> r2" "r2 < 365 * (r2 div 365) + 365"
    using c(2) by (simp_all add: pos_imp_zdiv_nonneg_iff)
  have d: "0 \<le> d" "d \<le> 3" "365 * d \<le> r2" "r2 < 365 * d + 366" "d < 3 \<Longrightarrow> r2 < 365 * d + 365"
    using rd c(3) unfolding d_def by linarith+
  have q: "(y - 1) div 4 = 100 * a + 25 * b + c" "(y - 1) div 100 = 4 * a + b" "(y - 1) div 400 = a"
    using int_div_pos_eq [of "y - 1" 4 "100 * a + 25 * b + c" d] int_div_pos_eq [of "y - 1" 100 "4 * a + b" "4 * c + d"]
      int_div_pos_eq [of "y - 1" 400 a "100 * b + 4 * c + d"] b(1,2) c(4,5) d(1,2)
    by (simp_all add: y)
  show "daysBefore y + yd = n" using n(1) c(1) unfolding daysBefore_def Let_def q unfolding yd y r1_def by simp
  show "0 \<le> yd" using d(3) yd by simp
  show "yd < (if isLeap y then 366 else 365)"
  proof (cases "isLeap y")
    case False
    show ?thesis
    proof (cases "d < 3")
      case True
      with d(5) yd False show ?thesis by simp
    next
      case 3: False
      then have d3: "d = 3" using d(2) by simp
      then have "y mod 4 = 0" unfolding y by presburger
      with False have "y mod 100 = 0" "y mod 400 \<noteq> 0" by (simp_all add: isLeap_def)
      have c24: "c = 24"
      proof (rule ccontr)
        assume "c \<noteq> 24"
        with c(4,5) have "(4 * (c + 1)) mod 100 = 4 * (c + 1)" by simp
        moreover have "y = 4 * (c + 1) + 100 * (4 * a + b)" unfolding y d3 by simp
        ultimately have "y mod 100 = 4 * (c + 1)" by (simp only: mod_mult_self2)
        with \<open>y mod 100 = 0\<close> c(4) show False by simp
      qed
      have "b < 3"
      proof (rule ccontr)
        assume "\<not> b < 3"
        with b(2) have "y = 400 * (a + 1)" unfolding y d3 c24 by simp
        with \<open>y mod 400 \<noteq> 0\<close> show False by simp
      qed
      with b(5) c(1) c24 d3 yd False show ?thesis by simp
    qed
  qed (use d(4) yd in simp)
qed

lemma splitMonth_facts:
  assumes "splitMonth m ls d = (m', d')" "0 \<le> d" "d < sum_list ls"
  shows "m \<le> m' \<and> m' < m + length ls \<and> 1 \<le> d' \<and> d' \<le> ls ! (m' - m) \<and> sum_list (take (m' - m) ls) + d' - 1 = d"
  using assms
proof (induction m ls d rule: splitMonth.induct)
  case (2 m l ls d)
  show ?case
  proof (cases "d < l")
    case False
    with 2 have s: "m + 1 \<le> m' \<and> m' < m + 1 + length ls \<and> 1 \<le> d' \<and> d' \<le> ls ! (m' - (m + 1)) \<and>
        sum_list (take (m' - (m + 1)) ls) + d' - 1 = d - l" by simp
    then have "m' - m = Suc (m' - (m + 1))" by linarith
    with s show ?thesis by simp
  qed (use 2 in auto)
qed simp

lemma date_facts:
  assumes "date n = (y, m, d)"
  shows "1 \<le> m" "m \<le> 12" "1 \<le> d" "d \<le> daysIn m y" "dateDays y m d = n" "d \<le> 31"
proof -
  obtain yd where yd: "yearDay n = (y, yd)" "splitMonth 1 (monthLengths y) yd = (m, d)"
    using assms by (auto simp: date_def split: prod.splits)
  have "sum_list (monthLengths y) = (if isLeap y then 366 else 365)" "length (monthLengths y) = 12"
    by (simp_all add: monthLengths_def)
  with splitMonth_facts [OF yd(2)] yearDay_facts [OF yd(1)]
  have s: "1 \<le> m \<and> m < 13 \<and> 1 \<le> d \<and> d \<le> monthLengths y ! (m - 1) \<and>
      sum_list (take (m - 1) (monthLengths y)) + d - 1 = yd" by simp
  then show "1 \<le> m" "m \<le> 12" "1 \<le> d" "d \<le> daysIn m y" by (simp_all add: daysIn_def)
  show "dateDays y m d = n" using s yearDay_facts(1) [OF yd(1)] by (simp add: dateDays_def)
  have "\<forall>x \<in> set (monthLengths y). x \<le> 31" by (simp add: monthLengths_def)
  moreover have "length (monthLengths y) = 12" by (simp add: monthLengths_def)
  then have "m - 1 < length (monthLengths y)" using s by linarith
  then have "monthLengths y ! (m - 1) \<in> set (monthLengths y)" by (rule nth_mem)
  ultimately have "monthLengths y ! (m - 1) \<le> 31" by blast
  with s show "d \<le> 31" by linarith
qed

section \<open>Texts: round trip\<close>

lemma length_digits [simp]: "length (digits w n) = w"
  by (induction w arbitrary: n) simp_all

lemma digits_digit: "c \<in> set (digits w n) \<Longrightarrow> digit c \<noteq> None"
proof (induction w arbitrary: n)
  case (Suc w)
  then show ?case using digit_char [of "n mod 10"] by auto
qed simp

lemma digitsVal_digits: "n < 10 ^ w \<Longrightarrow> digitsVal 0 (digits w n) = Some (int n)"
proof (induction w arbitrary: n)
  case (Suc w)
  then have "n div 10 < 10 ^ w" by (simp add: less_mult_imp_div_less mult.commute)
  then have "digitsVal 0 (digits w (n div 10)) = Some (int (n div 10))" by (rule Suc.IH)
  moreover have "int (n div 10) * 10 + int (n mod 10) = int n" by (simp add: zdiv_int zmod_int)
  ultimately show ?case using digit_char [of "n mod 10"] by (simp add: digitsVal_append)
qed simp

lemma takeDigits_val: "digitsVal acc ds = Some v \<Longrightarrow> takeDigits (length ds) acc (ds @ r) = Some (v, r)"
  by (induction ds arbitrary: acc) (auto split: option.splits)

lemma takeDigits_digits: "n < 10 ^ w \<Longrightarrow> takeDigits w 0 (digits w n @ r) = Some (int n, r)"
  using takeDigits_val [OF digitsVal_digits, of n w r] by simp

lemma takeDigits_nat:
  assumes "0 \<le> v" "v < 10 ^ w"
  shows "takeDigits w 0 (digits w (nat v) @ r) = Some (v, r)"
proof -
  have "nat v < 10 ^ w" using assms by (simp add: nat_less_iff)
  from takeDigits_digits [OF this, of r] assms(1) show ?thesis by simp
qed

lemma takeHour_digits: "n < 100 \<Longrightarrow> takeHour (digits 2 n @ r) = Some (int n, r)"
  using digit_char [of "n div 10 mod 10"] digit_char [of "n mod 10"]
  by (simp add: takeHour_def numeral_2_eq_2 zdiv_int zmod_int)

lemma skip_Cons [simp]: "skip c (c # r) = Some r"
  by (simp add: skip_def)

lemma digitsVal_zeros: "digitsVal v (replicate k CHR ''0'') = Some (v * 10 ^ k)"
proof (induction k arbitrary: v)
  case (Suc k)
  have "digit CHR ''0'' = Some 0" by (simp add: digit_def)
  with Suc show ?case by simp
qed simp

lemma takeFraction_point:
  assumes "s = c # cs" "digit c \<noteq> None"
  shows "takeFraction (CHR ''.'' # s) =
    (let ds = takeWhile (\<lambda>x. digit x \<noteq> None) s; k = min 9 (length ds)
     in (the (digitsVal 0 (take k ds)) * 10 ^ (9 - k), dropWhile (\<lambda>x. digit x \<noteq> None) s))"
  unfolding takeFraction_def using assms by (simp only: list.case) simp

lemma takeFraction_fraction:
  assumes "nsec < 10 ^ 9" "r \<noteq> []" "digit (hd r) = None" "hd r \<noteq> CHR ''.''" "hd r \<noteq> CHR '',''"
  shows "takeFraction (fraction nsec @ r) = (int nsec, r)"
proof (cases "nsec = 0")
  case True
  have "hd r \<notin> {CHR ''.'', CHR '',''}" using assms(4,5) by simp
  then show ?thesis using True assms(2) by (cases r; cases "tl r") (simp_all add: takeFraction_def fraction_def)
next
  case False
  define ds where "ds = rev (dropWhile (\<lambda>c. c = CHR ''0'') (rev (digits 9 nsec)))"
  define k where "k = length (takeWhile (\<lambda>c. c = CHR ''0'') (rev (digits 9 nsec)))"
  have "takeWhile (\<lambda>c. c = CHR ''0'') (rev (digits 9 nsec)) = replicate k CHR ''0''"
    by (auto simp: k_def intro!: replicate_eqI dest: set_takeWhileD)
  then have "rev (digits 9 nsec) = replicate k CHR ''0'' @ rev ds"
    by (metis ds_def rev_rev_ident takeWhile_dropWhile_id)
  then have all: "digits 9 nsec = ds @ replicate k CHR ''0''" by (metis rev_append rev_replicate rev_rev_ident)
  have val: "digitsVal 0 (digits 9 nsec) = Some (int nsec)" by (rule digitsVal_digits [OF assms(1)])
  then obtain v where v: "digitsVal 0 ds = Some v" "v * 10 ^ k = int nsec"
    unfolding all digitsVal_append by (auto simp: digitsVal_zeros split: option.splits)
  with False have ne: "ds \<noteq> []" by auto
  have len: "length ds + k = 9" using length_digits [of 9 nsec] unfolding all by simp
  have dig: "\<forall>c \<in> set ds. digit c \<noteq> None" using digits_digit [of _ 9 nsec] unfolding all by auto
  then have tw: "takeWhile (\<lambda>x. digit x \<noteq> None) (ds @ r) = ds" "dropWhile (\<lambda>x. digit x \<noteq> None) (ds @ r) = r"
    using takeWhile_first [of ds "\<lambda>x. digit x \<noteq> None" r] assms(3) by auto
  obtain c cs where c: "ds @ r = c # cs" "digit c \<noteq> None" using ne dig by (cases ds) auto
  have "min 9 (length ds) = length ds" "9 - length ds = k" using len by simp_all
  moreover have "fraction nsec @ r = CHR ''.'' # ds @ r" using False by (simp add: fraction_def ds_def)
  ultimately show ?thesis
    using v unfolding takeFraction_point [OF c] \<open>fraction nsec @ r = CHR ''.'' # ds @ r\<close> tw Let_def by simp
qed

lemma takeZone_zoneText:
  assumes "offset mod 60 = 0" "abs offset div 3600 < 24"
  shows "takeZone (zoneText offset) = Some offset"
proof (cases "offset = 0")
  case False
  define q where "q = abs offset div 60"
  have "abs offset mod 60 = 0" using assms(1) by (cases "offset < 0") (simp_all add: zmod_zminus1_eq_if)
  then have q: "abs offset = 60 * q" "0 \<le> q" using mult_div_mod_eq [of 60 "abs offset"] by (simp_all add: q_def)
  have "abs offset div 3600 = q div 60" unfolding q_def by (subst zdiv_zmult2_eq [symmetric]) simp_all
  with assms(2) have q3: "q div 60 < 24" by simp
  have n: "nat (q div 60) < 10 ^ 2" "nat (q mod 60) < 10 ^ 2" "int (nat (q div 60)) = q div 60" "int (nat (q mod 60)) = q mod 60"
    using q(2) q3 by (simp_all add: nat_less_iff)
  have t: "takeDigits 2 0 (digits 2 (nat (q div 60)) @ CHR '':'' # u) = Some (q div 60, CHR '':'' # u)"
    "takeDigits 2 0 (digits 2 (nat (q mod 60))) = Some (q mod 60, [])" for u
    using takeDigits_digits [OF n(1)] takeDigits_digits [OF n(2), of "[]"] n(3,4) by simp_all
  have "0 \<le> q div 60" "q mod 60 \<le> 60" "q div 60 \<le> 24" using q(2) q3 by simp_all
  moreover have "q div 60 * 60 + q mod 60 = q" by simp
  moreover have "offset \<le> -60 \<longleftrightarrow> offset < 0" using assms(1) False by presburger
  ultimately show ?thesis
    using False q(1) by (cases "offset < 0") (simp_all add: takeZone_def zoneText_def t inRange_def flip: q_def)
qed (simp add: takeZone_def zoneText_def)

lemma zoneText_hd: "zoneText offset \<noteq> [] \<and> hd (zoneText offset) \<in> {CHR ''Z'', CHR ''+'', CHR ''-''}"
  by (simp add: zoneText_def Let_def)

lemma parse_appendRFC3339:
  assumes "appendRFC3339 offset t = Inr s" "offset mod 60 = 0"
  shows "parseRFC3339 s = Some t"
proof -
  define local where "local = t + offset * Second"
  define sec where "sec = local div Second"
  define nsec where "nsec = nat (local mod Second)"
  define x where "x = sec mod 86400"
  obtain y m d where date: "date (sec div 86400) = (y, m, d)" by (cases "date (sec div 86400)") auto
  have y: "0 \<le> y" "y \<le> 9999" "abs offset div 3600 < 24" and s: "s = digits 4 (nat y) @ CHR ''-'' # digits 2 m @ CHR ''-'' #
      digits 2 (nat d) @ CHR ''T'' # digits 2 (nat (x div 3600)) @ CHR '':'' # digits 2 (nat (x div 60 mod 60)) @
      CHR '':'' # digits 2 (nat (x mod 60)) @ fraction nsec @ zoneText offset"
    using assms(1) date
    by (auto simp: appendRFC3339_def Let_def local_def [symmetric] sec_def [symmetric] nsec_def [symmetric] x_def [symmetric]
        split: if_splits)
  note D = date_facts [OF date]
  have x: "0 \<le> x" "x < 86400" by (simp_all add: x_def)
  have h: "0 \<le> x div 3600" "x div 3600 \<le> 23" "0 \<le> x div 60 mod 60" "x div 60 mod 60 \<le> 59" "0 \<le> x mod 60" "x mod 60 \<le> 59"
    using x by simp_all
  have dg: "takeDigits 4 0 (digits 4 (nat y) @ r) = Some (y, r)" "takeDigits 2 0 (digits 2 m @ r) = Some (int m, r)"
    "takeDigits 2 0 (digits 2 (nat d) @ r) = Some (d, r)" "takeHour (digits 2 (nat (x div 3600)) @ r) = Some (x div 3600, r)"
    "takeDigits 2 0 (digits 2 (nat (x div 60 mod 60)) @ r) = Some (x div 60 mod 60, r)"
    "takeDigits 2 0 (digits 2 (nat (x mod 60)) @ r) = Some (x mod 60, r)" for r
  proof -
    show "takeDigits 4 0 (digits 4 (nat y) @ r) = Some (y, r)" by (rule takeDigits_nat) (use y in simp_all)
    show "takeDigits 2 0 (digits 2 m @ r) = Some (int m, r)" by (rule takeDigits_digits) (use D(2) in simp)
    show "takeDigits 2 0 (digits 2 (nat d) @ r) = Some (d, r)" by (rule takeDigits_nat) (use D(3,6) in simp_all)
    have "nat (x div 3600) < 100" using h(2) by linarith
    from takeHour_digits [OF this, of r] h(1) show "takeHour (digits 2 (nat (x div 3600)) @ r) = Some (x div 3600, r)" by simp
    show "takeDigits 2 0 (digits 2 (nat (x div 60 mod 60)) @ r) = Some (x div 60 mod 60, r)"
      by (rule takeDigits_nat) (use h(3,4) in simp_all)
    show "takeDigits 2 0 (digits 2 (nat (x mod 60)) @ r) = Some (x mod 60, r)"
      by (rule takeDigits_nat) (use h(5,6) in simp_all)
  qed
  have fr: "takeFraction (fraction nsec @ zoneText offset) = (int nsec, zoneText offset)"
    using zoneText_hd [of offset]
    by (intro takeFraction_fraction) (auto simp: nsec_def nat_less_iff duration_values digit_def)
  have rng: "inRange 1 12 (Some (int m, r)) = Some (int m, r)" "inRange 0 23 (Some (x div 3600, r)) = Some (x div 3600, r)"
    "inRange 0 59 (Some (x div 60 mod 60, r)) = Some (x div 60 mod 60, r)" "inRange 0 59 (Some (x mod 60, r)) = Some (x mod 60, r)" for r
    using D(1,2) h by (simp_all only: inRange_def option.case prod.case) simp_all
  have "\<not> (d < 1 \<or> daysIn m y < d)" using D(3,4) by simp
  then have "parseRFC3339 s = Some (((dateDays y m d * 24 + x div 3600) * 60 + x div 60 mod 60) * 60 * Second + x mod 60 * Second +
      int nsec - offset * Second)"
    unfolding parseRFC3339_def s
    by (simp only: dg rng fr takeZone_zoneText [OF assms(2) y(3)] skip_Cons bind.bind_lunit prod.case Let_def nat_int if_False)
  also have "((dateDays y m d * 24 + x div 3600) * 60 + x div 60 mod 60) * 60 * Second + x mod 60 * Second = sec * Second"
  proof -
    have "x div 3600 = x div 60 div 60" by (simp flip: zdiv_zmult2_eq)
    then have "(x div 3600 * 60 + x div 60 mod 60) * 60 + x mod 60 = x" by simp
    moreover have "dateDays y m d * 86400 + x = sec" unfolding D(5) x_def by simp
    ultimately have "((dateDays y m d * 24 + x div 3600) * 60 + x div 60 mod 60) * 60 + x mod 60 = sec"
      by (simp only: distrib_right mult.assoc add.assoc)
    then show ?thesis by (metis distrib_right)
  qed
  also have "int nsec = local mod Second" by (simp add: nsec_def duration_values)
  also have "sec * Second + local mod Second - offset * Second = t"
    by (simp add: sec_def) (simp add: local_def)
  finally show ?thesis .
qed

end
