(* ===== verification/StdBase64.thy ===== *)
theory StdBase64
  imports Base64
begin

text \<open>
  \<open>base64.StdEncoding\<close>, in which \<open>encoding/json\<close> writes a \<open>[]byte\<close>: the alphabet with \<open>+\<close> and \<open>/\<close>, and
  padding to whole quanta. Decoding skips CR and LF and ignores the unused trailing bits.
\<close>

definition std_alphabet :: string where
  "std_alphabet = ''ABCDEFGHIJKLMNOPQRSTUVWXYZabcdefghijklmnopqrstuvwxyz0123456789+/''"

definition std_char :: "nat \<Rightarrow> char" where "std_char n = std_alphabet ! n"

definition std_sextet :: "char \<Rightarrow> nat option" where
  "std_sextet c =
     (let n = length (takeWhile (\<lambda>x. x \<noteq> c) std_alphabet) in if n < length std_alphabet then Some n else None)"

fun stdEncode :: "bytes \<Rightarrow> string" where
  "stdEncode [] = []"
| "stdEncode [a] = map std_char (encode_sextets [a]) @ ''==''"
| "stdEncode [a, b] = map std_char (encode_sextets [a, b]) @ ''=''"
| "stdEncode (a # b # c # r) = map std_char (encode_sextets [a, b, c]) @ stdEncode r"

definition std_sextets :: "string \<Rightarrow> nat list option" where
  "std_sextets s = (if list_all (\<lambda>c. std_sextet c \<noteq> None) s then Some (map (\<lambda>c. the (std_sextet c)) s) else None)"

definition std_quantum :: "string \<Rightarrow> bytes result" where
  "std_quantum s =
     (case std_sextets s of None \<Rightarrow> Inl (Msg ''illegal base64 data at input byte %d'') | Some ns \<Rightarrow> decode_sextets ns)"

text \<open>The quanta of a text without line breaks; only the last may be padded.\<close>

fun std_quanta :: "string \<Rightarrow> bytes result" where
  "std_quanta [] = Inr []"
| "std_quanta (p # q # r # s # t) =
     (case std_quantum (if t = [] \<and> s = CHR ''='' then (if r = CHR ''='' then [p, q] else [p, q, r]) else [p, q, r, s]) of
        Inl e \<Rightarrow> Inl e
      | Inr d \<Rightarrow> (case std_quanta t of Inl e \<Rightarrow> Inl e | Inr d' \<Rightarrow> Inr (d @ d')))"
| "std_quanta _ = Inl (Msg ''illegal base64 data at input byte %d'')"

definition stdDecode :: "string \<Rightarrow> bytes result" where
  "stdDecode s = std_quanta (filter (\<lambda>c. c \<noteq> CHR 0x0A \<and> c \<noteq> CHR 0x0D) s)"

section \<open>Round trip\<close>

lemma length_std_alphabet [simp]: "length std_alphabet = 64"
  by (simp add: std_alphabet_def)

lemma distinct_std_alphabet: "distinct std_alphabet"
  by (simp add: std_alphabet_def)

lemma std_sextet_char [simp]: "n < 64 \<Longrightarrow> std_sextet (std_char n) = Some n"
  by (simp add: std_sextet_def std_char_def takeWhile_neq_nth distinct_std_alphabet)

lemma std_char_in: "n < 64 \<Longrightarrow> std_char n \<in> set std_alphabet"
  by (simp add: std_char_def)

lemma std_char_not [simp]: "n < 64 \<Longrightarrow> std_char n \<noteq> CHR ''='' \<and> std_char n \<noteq> CHR 0x0A \<and> std_char n \<noteq> CHR 0x0D"
  using std_char_in [of n] by (auto simp: std_alphabet_def)

lemma std_sextets_chars: "\<forall>n \<in> set ns. n < 64 \<Longrightarrow> std_sextets (map std_char ns) = Some ns"
  by (simp add: std_sextets_def list_all_iff comp_def map_idI)

lemma std_quantum_chars: "std_quantum (map std_char (encode_sextets d)) = Inr d"
  by (simp add: std_quantum_def std_sextets_chars [OF sextets_range] decode_encode_sextets)

lemma sextets_shape:
  "\<exists>p q. encode_sextets [a] = [p, q]" "\<exists>p q r. encode_sextets [a, b] = [p, q, r]"
  "\<exists>p q r s. encode_sextets [a, b, c] = [p, q, r, s]"
  by (simp_all add: Let_def)

declare encode_sextets.simps [simp del]

lemma std_chars: "c \<in> set (map std_char (encode_sextets d)) \<Longrightarrow> c \<in> set std_alphabet"
  using sextets_range [of d] std_char_in by auto

lemma stdEncode_chars: "c \<in> set (stdEncode d) \<Longrightarrow> c \<in> set std_alphabet \<or> c = CHR ''=''"
proof (induction d rule: stdEncode.induct)
  case (4 a b c' r)
  then show ?case using std_chars [of c "[a, b, c']"] unfolding stdEncode.simps set_append by blast
next
  case (2 a)
  then show ?case using std_chars [of c "[a]"] unfolding stdEncode.simps set_append by auto
next
  case (3 a b)
  then show ?case using std_chars [of c "[a, b]"] unfolding stdEncode.simps set_append by auto
qed simp

lemma std_quanta_stdEncode: "std_quanta (stdEncode d) = Inr d"
proof (induction d rule: stdEncode.induct)
  case (2 a)
  obtain p q where "encode_sextets [a] = [p, q]" using sextets_shape(1) by blast
  with std_quantum_chars [of "[a]"] show ?case by simp
next
  case (3 a b)
  obtain p q r where e: "encode_sextets [a, b] = [p, q, r]" using sextets_shape(2) by blast
  with sextets_range [of "[a, b]"] have "std_char r \<noteq> CHR ''=''" by simp
  with e std_quantum_chars [of "[a, b]"] show ?case by simp
next
  case (4 a b c r)
  obtain p q t s where e: "encode_sextets [a, b, c] = [p, q, t, s]" using sextets_shape(3) by blast
  with sextets_range [of "[a, b, c]"] have "std_char s \<noteq> CHR ''=''" by simp
  with e 4 std_quantum_chars [of "[a, b, c]"] show ?case by simp
qed simp

lemma length_stdEncode: "length (stdEncode d) = 4 * ((length d + 2) div 3)"
proof (induction d rule: stdEncode.induct)
  case (2 a)
  obtain p q where "encode_sextets [a] = [p, q]" using sextets_shape(1) by blast
  then show ?case by simp
next
  case (3 a b)
  obtain p q r where "encode_sextets [a, b] = [p, q, r]" using sextets_shape(2) by blast
  then show ?case by simp
next
  case (4 a b c r)
  obtain p q t s where "encode_sextets [a, b, c] = [p, q, t, s]" using sextets_shape(3) by blast
  moreover have "(Suc (Suc (Suc n)) + 2) div 3 = Suc ((n + 2) div 3)" for n :: nat by simp
  ultimately show ?case using 4 by (simp del: Suc_eq_plus1 add_2_eq_Suc add_2_eq_Suc')
qed simp

lemma stdDecode_stdEncode: "stdDecode (stdEncode d) = Inr d"
proof -
  have "c \<noteq> CHR 0x0A \<and> c \<noteq> CHR 0x0D" if "c \<in> set (stdEncode d)" for c
    using stdEncode_chars [OF that] by (auto simp: std_alphabet_def)
  then have "filter (\<lambda>c. c \<noteq> CHR 0x0A \<and> c \<noteq> CHR 0x0D) (stdEncode d) = stdEncode d" by (simp add: filter_id_conv)
  then show ?thesis by (simp add: stdDecode_def std_quanta_stdEncode)
qed

end
