(* ===== verification/GoJSON.thy ===== *)
theory GoJSON
  imports GoTime StdBase64
begin

text \<open>
  \<open>encoding/json\<close> as the request bodies and the stored records need it: the scanner with its
  nesting limit, string literals with their escapes and UTF-8 repair, decoding into a struct of
  strings, integers, bytes, times and text values with the rules of the package for unknown,
  repeated and null members, and the text \<open>Marshal\<close> writes.
\<close>

section \<open>UTF-8\<close>

definition ord :: "char \<Rightarrow> nat" where "ord c = of_char c"

definition isCont :: "char \<Rightarrow> bool" where "isCont c \<longleftrightarrow> 0x80 \<le> ord c \<and> ord c \<le> 0xBF"

text \<open>Whether the second byte can follow the first, and the number of bytes of a valid sequence at the
  start of a text, 1 for a byte that starts none.\<close>

definition secondOK :: "char \<Rightarrow> char \<Rightarrow> bool" where
  "secondOK a b \<longleftrightarrow>
     (if ord a = 0xE0 then 0xA0 \<le> ord b \<and> ord b \<le> 0xBF
      else if ord a = 0xED then 0x80 \<le> ord b \<and> ord b \<le> 0x9F
      else if ord a = 0xF0 then 0x90 \<le> ord b \<and> ord b \<le> 0xBF
      else if ord a = 0xF4 then 0x80 \<le> ord b \<and> ord b \<le> 0x8F
      else isCont b)"

definition runeLen :: "bytes \<Rightarrow> nat" where
  "runeLen s =
     (case s of
        a # b # c # d # _ \<Rightarrow>
          if 0xC2 \<le> ord a \<and> ord a \<le> 0xDF \<and> isCont b then 2
          else if 0xE0 \<le> ord a \<and> ord a \<le> 0xEF \<and> secondOK a b \<and> isCont c then 3
          else if 0xF0 \<le> ord a \<and> ord a \<le> 0xF4 \<and> secondOK a b \<and> isCont c \<and> isCont d then 4 else 1
      | [a, b, c] \<Rightarrow>
          if 0xC2 \<le> ord a \<and> ord a \<le> 0xDF \<and> isCont b then 2
          else if 0xE0 \<le> ord a \<and> ord a \<le> 0xEF \<and> secondOK a b \<and> isCont c then 3 else 1
      | [a, b] \<Rightarrow> if 0xC2 \<le> ord a \<and> ord a \<le> 0xDF \<and> isCont b then 2 else 1
      | _ \<Rightarrow> 1)"

definition replacementChar :: bytes where "replacementChar = [byte 0xEF, byte 0xBF, byte 0xBD]"

definition encodeRune :: "nat \<Rightarrow> bytes" where
  "encodeRune r =
     (if r < 0x80 then [byte r]
      else if r < 0x800 then [byte (0xC0 + r div 64), byte (0x80 + r mod 64)]
      else if 0xD800 \<le> r \<and> r < 0xE000 \<or> r > 0x10FFFF then replacementChar
      else if r < 0x10000 then [byte (0xE0 + r div 4096), byte (0x80 + r div 64 mod 64), byte (0x80 + r mod 64)]
      else [byte (0xF0 + r div 262144), byte (0x80 + r div 4096 mod 64), byte (0x80 + r div 64 mod 64), byte (0x80 + r mod 64)])"

section \<open>Scanning\<close>

text \<open>The scanner finds a value, an error, or wants more input.\<close>

datatype 'a scan = Done 'a | Bad | More

primrec bind_scan :: "'a scan \<Rightarrow> ('a \<Rightarrow> 'b scan) \<Rightarrow> 'b scan" where
  "bind_scan (Done a) f = f a"
| "bind_scan Bad f = Bad"
| "bind_scan More f = More"

lemma bind_scan_cong [fundef_cong]:
  "x = y \<Longrightarrow> (\<And>a. y = Done a \<Longrightarrow> f a = g a) \<Longrightarrow> bind_scan x f = bind_scan y g"
  by (cases y) simp_all

lemma bind_scan_Done: "bind_scan x f = Done b \<longleftrightarrow> (\<exists>a. x = Done a \<and> f a = Done b)"
  by (cases x) simp_all

text \<open>String literals and numbers are kept as they are written.\<close>

datatype jvalue =
    JNull | JBool bool | JNumber string | JString bytes | JArray "jvalue list" | JObject "(bytes \<times> jvalue) list"

definition isJSpace :: "char \<Rightarrow> bool" where
  "isJSpace c \<longleftrightarrow> c \<in> {CHR '' '', CHR 0x09, CHR 0x0D, CHR 0x0A}"

definition skipSpace :: "bytes \<Rightarrow> bytes" where "skipSpace s = dropWhile isJSpace s"

text \<open>The next byte that is not white space.\<close>

definition next_byte :: "bytes \<Rightarrow> (char \<times> bytes) scan" where
  "next_byte s = (case skipSpace s of [] \<Rightarrow> More | c # r \<Rightarrow> Done (c, r))"

definition simpleEscape :: "char \<Rightarrow> char option" where
  "simpleEscape e =
     (if e \<in> {CHR 0x22, CHR 0x5C, CHR ''/''} then Some e
      else if e = CHR ''b'' then Some CHR 0x08 else if e = CHR ''f'' then Some CHR 0x0C
      else if e = CHR ''n'' then Some CHR 0x0A else if e = CHR ''r'' then Some CHR 0x0D
      else if e = CHR ''t'' then Some CHR 0x09 else None)"

fun scanHex4 :: "nat \<Rightarrow> bytes \<Rightarrow> (bytes \<times> bytes) scan" where
  "scanHex4 0 s = Done ([], s)"
| "scanHex4 (Suc n) [] = More"
| "scanHex4 (Suc n) (c # cs) =
     (if isHex c then bind_scan (scanHex4 n cs) (\<lambda>(h, r). Done (c # h, r)) else Bad)"

lemma scanHex4_length: "scanHex4 n s = Done (h, r) \<Longrightarrow> length s = n + length r"
  by (induction n s arbitrary: h rule: scanHex4.induct) (auto simp: bind_scan_Done split: if_splits)

text \<open>A string literal after its opening quote, up to its closing quote.\<close>

function scanString :: "bytes \<Rightarrow> bytes \<Rightarrow> (bytes \<times> bytes) scan" where
  "scanString acc [] = More"
| "scanString acc (c # cs) =
     (if c = CHR 0x22 then Done (acc, cs)
      else if c = CHR 0x5C then
        (case cs of
           [] \<Rightarrow> More
         | e # r \<Rightarrow>
             if e = CHR ''u'' then bind_scan (scanHex4 4 r) (\<lambda>(h, r). scanString (acc @ c # e # h) r)
             else if simpleEscape e \<noteq> None then scanString (acc @ [c, e]) r
             else Bad)
      else if ord c < 0x20 then Bad
      else scanString (acc @ [c]) cs)"
  by pat_completeness auto

termination by (relation "measure (\<lambda>(acc, s). length s)") (auto dest: scanHex4_length)

declare scanString.simps [simp del]

definition isDigit :: "char \<Rightarrow> bool" where "isDigit c \<longleftrightarrow> digit c \<noteq> None"

text \<open>At least one digit.\<close>

definition scanDigits :: "bytes \<Rightarrow> (bytes \<times> bytes) scan" where
  "scanDigits s =
     (case s of [] \<Rightarrow> More | c # _ \<Rightarrow> if isDigit c then Done (takeWhile isDigit s, dropWhile isDigit s) else Bad)"

definition scanInteger :: "bytes \<Rightarrow> (bytes \<times> bytes) scan" where
  "scanInteger s = (if HasPrefix s ''0'' then Done (''0'', drop 1 s) else scanDigits s)"

definition scanFraction :: "bytes \<Rightarrow> (bytes \<times> bytes) scan" where
  "scanFraction s =
     (if HasPrefix s ''.'' then bind_scan (scanDigits (drop 1 s)) (\<lambda>(ds, r). Done (CHR ''.'' # ds, r)) else Done ([], s))"

definition scanExponent :: "bytes \<Rightarrow> (bytes \<times> bytes) scan" where
  "scanExponent s =
     (case s of
        [] \<Rightarrow> Done ([], [])
      | e # r \<Rightarrow>
          if e \<noteq> CHR ''e'' \<and> e \<noteq> CHR ''E'' then Done ([], s)
          else if HasPrefix r ''+'' \<or> HasPrefix r ''-''
          then bind_scan (scanDigits (drop 1 r)) (\<lambda>(ds, r'). Done (e # hd r # ds, r'))
          else bind_scan (scanDigits r) (\<lambda>(ds, r'). Done (e # ds, r')))"

definition scanNumber :: "bytes \<Rightarrow> (bytes \<times> bytes) scan" where
  "scanNumber s =
     (let (sign, s) = (if HasPrefix s ''-'' then (''-'', drop 1 s) else ([], s))
      in bind_scan (scanInteger s) (\<lambda>(i, r1). bind_scan (scanFraction r1) (\<lambda>(f, r2).
           bind_scan (scanExponent r2) (\<lambda>(e, r3). Done (sign @ i @ f @ e, r3)))))"

fun scanLiteral :: "bytes \<Rightarrow> bytes \<Rightarrow> bytes scan" where
  "scanLiteral [] s = Done s"
| "scanLiteral (l # ls) [] = More"
| "scanLiteral (l # ls) (c # cs) = (if c = l then scanLiteral ls cs else Bad)"

definition scanScalar :: "char \<Rightarrow> bytes \<Rightarrow> (jvalue \<times> bytes) scan" where
  "scanScalar c r =
     (if c = CHR 0x22 then bind_scan (scanString [] r) (\<lambda>(str, r). Done (JString str, r))
      else if c = CHR ''-'' \<or> isDigit c then bind_scan (scanNumber (c # r)) (\<lambda>(num, r). Done (JNumber num, r))
      else if c = CHR ''t'' then bind_scan (scanLiteral ''rue'' r) (\<lambda>r. Done (JBool True, r))
      else if c = CHR ''f'' then bind_scan (scanLiteral ''alse'' r) (\<lambda>r. Done (JBool False, r))
      else if c = CHR ''n'' then bind_scan (scanLiteral ''ull'' r) (\<lambda>r. Done (JNull, r))
      else Bad)"

text \<open>The values; the first argument is the nesting still allowed. Every value consumes a byte, so
  that the comparison of lengths always holds; it lets the recursion be seen to end.\<close>

function (sequential) scanValue :: "nat \<Rightarrow> bytes \<Rightarrow> (jvalue \<times> bytes) scan"
  and scanMembers :: "nat \<Rightarrow> (bytes \<times> jvalue) list \<Rightarrow> bytes \<Rightarrow> (jvalue \<times> bytes) scan"
  and scanElements :: "nat \<Rightarrow> jvalue list \<Rightarrow> bytes \<Rightarrow> (jvalue \<times> bytes) scan" where
  "scanValue depth s =
     bind_scan (next_byte s) (\<lambda>(c, r).
       if c = CHR ''{'' then
         (case depth of
            0 \<Rightarrow> Bad
          | Suc d \<Rightarrow> bind_scan (next_byte r) (\<lambda>(c1, r1).
              if c1 = CHR ''}'' then Done (JObject [], r1) else scanMembers d [] r))
       else if c = CHR ''['' then
         (case depth of
            0 \<Rightarrow> Bad
          | Suc d \<Rightarrow> bind_scan (next_byte r) (\<lambda>(c1, r1).
              if c1 = CHR '']'' then Done (JArray [], r1) else scanElements d [] r))
       else scanScalar c r)"
| "scanMembers d acc s =
     bind_scan (next_byte s) (\<lambda>(c, r).
       if c \<noteq> CHR 0x22 then Bad
       else bind_scan (scanString [] r) (\<lambda>(key, r1). bind_scan (next_byte r1) (\<lambda>(c2, r2).
         if c2 \<noteq> CHR '':'' then Bad
         else bind_scan (scanValue d r2) (\<lambda>(v, r3). bind_scan (next_byte r3) (\<lambda>(c4, r4).
           if c4 = CHR '','' then (if length r4 < length s then scanMembers d (acc @ [(key, v)]) r4 else Bad)
           else if c4 = CHR ''}'' then Done (JObject (acc @ [(key, v)]), r4)
           else Bad)))))"
| "scanElements d acc s =
     bind_scan (scanValue d s) (\<lambda>(v, r3). bind_scan (next_byte r3) (\<lambda>(c4, r4).
       if c4 = CHR '','' then (if length r4 < length s then scanElements d (acc @ [v]) r4 else Bad)
       else if c4 = CHR '']'' then Done (JArray (acc @ [v]), r4)
       else Bad))"
  by pat_completeness auto

termination
  by (relation "measures [\<lambda>x. case x of Inl (d, s) \<Rightarrow> d | Inr (Inl (d, a, s)) \<Rightarrow> d | Inr (Inr (d, a, s)) \<Rightarrow> d,
      \<lambda>x. case x of Inl (d, s) \<Rightarrow> 0 | Inr (Inl (d, a, s)) \<Rightarrow> 1 | Inr (Inr (d, a, s)) \<Rightarrow> 1,
      \<lambda>x. case x of Inl (d, s) \<Rightarrow> 0 | Inr (Inl (d, a, s)) \<Rightarrow> length s | Inr (Inr (d, a, s)) \<Rightarrow> length s]") auto

declare scanValue.simps [simp del] scanMembers.simps [simp del] scanElements.simps [simp del]

section \<open>String values\<close>

definition hex4 :: "bytes \<Rightarrow> nat" where "hex4 s = hexVal (take 4 s)"

text \<open>An escape \<open>\\uXXXX\<close> of half a surrogate pair takes the other half with it, or becomes the replacement
  character; so does a byte that is not UTF-8.\<close>

function unquote :: "bytes \<Rightarrow> bytes" where
  "unquote [] = []"
| "unquote (c # cs) =
     (if c = CHR 0x5C then
        (case cs of
           [] \<Rightarrow> []
         | e # r \<Rightarrow>
             if e = CHR ''u'' then
               (let r1 = hex4 r; rest = drop 4 r; r2 = hex4 (drop 2 rest)
                in if 0xD800 \<le> r1 \<and> r1 < 0xE000 then
                     (if HasPrefix rest [CHR 0x5C, CHR ''u''] \<and> r1 < 0xDC00 \<and> 0xDC00 \<le> r2 \<and> r2 < 0xE000
                      then encodeRune ((r1 - 0xD800) * 1024 + (r2 - 0xDC00) + 0x10000) @ unquote (drop 6 rest)
                      else replacementChar @ unquote rest)
                   else encodeRune r1 @ unquote rest)
             else (case simpleEscape e of None \<Rightarrow> [] | Some b \<Rightarrow> b # unquote r))
      else if ord c < 0x80 then c # unquote cs
      else if runeLen (c # cs) = 1 then replacementChar @ unquote cs
      else take (runeLen (c # cs)) (c # cs) @ unquote (drop (runeLen (c # cs) - 1) cs))"
  by pat_completeness auto

termination by (relation "measure length") auto

declare unquote.simps [simp del]

section \<open>Decoding into a struct\<close>

definition typeError :: goerr where
  "typeError = Msg ''json: cannot unmarshal %s into Go struct field %s of type %s''"

text \<open>Storing a value into a field either stops with the error of \<open>UnmarshalText\<close>, or goes on, perhaps with
  an error that is kept for the end. A \<open>null\<close> leaves strings and numbers alone and empties a pointer.\<close>

type_synonym 'a storing = "jvalue \<Rightarrow> 'a \<Rightarrow> goerr + ('a \<times> goerr option)"

definition storeString :: "string storing" where
  "storeString v old =
     (case v of JString raw \<Rightarrow> Inr (unquote raw, None) | JNull \<Rightarrow> Inr (old, None) | _ \<Rightarrow> Inr (old, Some typeError))"

definition storeInt :: "int storing" where
  "storeInt v old =
     (case v of
        JNumber txt \<Rightarrow> (case ParseInt txt of Inl _ \<Rightarrow> Inr (old, Some typeError) | Inr n \<Rightarrow> Inr (n, None))
      | JNull \<Rightarrow> Inr (old, None)
      | _ \<Rightarrow> Inr (old, Some typeError))"

definition storeText :: "(bytes \<Rightarrow> 'a result) \<Rightarrow> 'a option storing" where
  "storeText unmarshal v old =
     (case v of
        JString raw \<Rightarrow> (case unmarshal (unquote raw) of Inl e \<Rightarrow> Inl e | Inr a \<Rightarrow> Inr (Some a, None))
      | JNull \<Rightarrow> Inr (None, None)
      | _ \<Rightarrow> Inr (old, Some typeError))"

text \<open>A value that is no pointer keeps what it holds on \<open>null\<close>. A time is parsed from the text between the
  quotes as it stands, and refuses every other value at once.\<close>

definition storeTextValue :: "(bytes \<Rightarrow> 'a result) \<Rightarrow> 'a storing" where
  "storeTextValue unmarshal v old =
     (case v of
        JString raw \<Rightarrow> (case unmarshal (unquote raw) of Inl e \<Rightarrow> Inl e | Inr a \<Rightarrow> Inr (a, None))
      | JNull \<Rightarrow> Inr (old, None)
      | _ \<Rightarrow> Inr (old, Some typeError))"

definition storeTime :: "time storing" where
  "storeTime v old =
     (case v of
        JString raw \<Rightarrow> (case parseRFC3339 raw of
            None \<Rightarrow> Inl (Msg ''parsing time %q as %q: cannot parse %q as %q'') | Some t \<Rightarrow> Inr (t, None))
      | JNull \<Rightarrow> Inr (old, None)
      | _ \<Rightarrow> Inl (Msg ''Time.UnmarshalJSON: input is not a JSON string''))"

text \<open>A \<open>[]byte\<close> is a string in base64, or an array of bytes, in which \<open>null\<close> leaves the byte that was there.\<close>

fun storeElements :: "jvalue list \<Rightarrow> bytes \<Rightarrow> bytes \<times> goerr option" where
  "storeElements [] old = ([], None)"
| "storeElements (v # vs) old =
     (let (b, err) = (case v of
            JNumber txt \<Rightarrow> (case parseUnsigned False txt of
                Inr n \<Rightarrow> if n < 256 then (byte (nat n), None) else (hd (old @ [CHR 0x00]), Some typeError)
              | Inl _ \<Rightarrow> (hd (old @ [CHR 0x00]), Some typeError))
          | JNull \<Rightarrow> (hd (old @ [CHR 0x00]), None)
          | _ \<Rightarrow> (hd (old @ [CHR 0x00]), Some typeError));
         (bs, err') = storeElements vs (drop 1 old)
      in (b # bs, if err = None then err' else err))"

definition storeBytes :: "bytes storing" where
  "storeBytes v old =
     (case v of
        JString raw \<Rightarrow> (case stdDecode (unquote raw) of Inl e \<Rightarrow> Inr (old, Some e) | Inr b \<Rightarrow> Inr (b, None))
      | JArray vs \<Rightarrow> Inr (storeElements vs old)
      | JNull \<Rightarrow> Inr ([], None)
      | _ \<Rightarrow> Inr (old, Some typeError))"

text \<open>A field of a struct, given how to read and how to write it.\<close>

definition inField :: "('s \<Rightarrow> 'a) \<Rightarrow> ('a \<Rightarrow> 's \<Rightarrow> 's) \<Rightarrow> 'a storing \<Rightarrow> 's storing" where
  "inField get put st v s = (case st v (get s) of Inl e \<Rightarrow> Inl e | Inr (a, err) \<Rightarrow> Inr (put a s, err))"

type_synonym 's fields = "(string \<times> 's storing) list"

text \<open>A member belongs to the field of its name, or else to one whose name differs in case only.\<close>

definition fieldFor :: "'s fields \<Rightarrow> string \<Rightarrow> 's storing option" where
  "fieldFor fs key =
     (case map_of fs key of
        Some st \<Rightarrow> Some st
      | None \<Rightarrow> map_option snd (find (\<lambda>(name, st). EqualFold name key) fs))"

text \<open>A member without a field is an error for a strict decoder, and otherwise skipped.\<close>

fun decodeMembers ::
  "bool \<Rightarrow> 's fields \<Rightarrow> (bytes \<times> jvalue) list \<Rightarrow> 's \<times> goerr option \<Rightarrow> goerr + ('s \<times> goerr option)" where
  "decodeMembers strict fs [] (t, saved) = Inr (t, saved)"
| "decodeMembers strict fs ((raw, v) # ms) (t, saved) =
     (case fieldFor fs (unquote raw) of
        None \<Rightarrow> decodeMembers strict fs ms
          (t, if strict \<and> saved = None then Some (Msg ''json: unknown field %q'') else saved)
      | Some st \<Rightarrow> (case st v t of
          Inl e \<Rightarrow> Inl e
        | Inr (t, err) \<Rightarrow> decodeMembers strict fs ms (t, if saved = None then err else saved)))"

definition decodeStruct :: "bool \<Rightarrow> 's fields \<Rightarrow> 's \<Rightarrow> jvalue \<Rightarrow> 's result" where
  "decodeStruct strict fs zero v =
     (case v of
        JObject ms \<Rightarrow> (case decodeMembers strict fs ms (zero, None) of
          Inl e \<Rightarrow> Inl e | Inr (t, None) \<Rightarrow> Inr t | Inr (t, Some e) \<Rightarrow> Inl e)
      | JNull \<Rightarrow> Inr zero
      | _ \<Rightarrow> Inl typeError)"

definition maxNestingDepth :: nat where "maxNestingDepth = 10000"

text \<open>\<open>json.Unmarshal\<close>: the whole text is checked first.\<close>

definition json_Unmarshal :: "'s fields \<Rightarrow> 's \<Rightarrow> bytes \<Rightarrow> 's result" where
  "json_Unmarshal fs zero data =
     (case scanValue maxNestingDepth data of
        Done (v, r) \<Rightarrow>
          if skipSpace r = [] then decodeStruct False fs zero v
          else Inl (Msg ''invalid character %q after top-level value'')
      | Bad \<Rightarrow> Inl (Msg ''invalid character %q %s'')
      | More \<Rightarrow> Inl (Msg ''unexpected end of JSON input''))"

section \<open>Reading from a limited body\<close>

text \<open>\<open>EOF\<close> is the error of a body that has nothing but white space left.\<close>

datatype decode_err = MaxBytesError | EOF | DecodeError goerr

fun composite :: "jvalue \<Rightarrow> bool" where
  "composite (JArray vs) \<longleftrightarrow> True"
| "composite (JObject ms) \<longleftrightarrow> True"
| "composite _ \<longleftrightarrow> False"

text \<open>\<open>readValue\<close> of the decoder on what is left of the bytes within the limit; \<open>whole\<close> tells that the body ends
  there. The end of a value other than an object or an array shows only at the byte after it.\<close>

definition readValue :: "bool \<Rightarrow> bytes \<Rightarrow> decode_err + (jvalue \<times> bytes)" where
  "readValue whole s =
     (case scanValue maxNestingDepth s of
        Bad \<Rightarrow> Inl (DecodeError (Msg ''invalid character %q %s''))
      | More \<Rightarrow>
          Inl (if \<not> whole then MaxBytesError else if skipSpace s = [] then EOF
               else DecodeError (Msg ''unexpected EOF''))
      | Done (v, r) \<Rightarrow> if r = [] \<and> \<not> whole \<and> \<not> composite v then Inl MaxBytesError else Inr (v, r))"

section \<open>Reading back what a client writes\<close>

text \<open>A string of printable ASCII as \<open>JSON.stringify\<close> writes it, between the quotes.\<close>

definition quoteByte :: "char \<Rightarrow> string" where
  "quoteByte c = (if c = CHR 0x22 \<or> c = CHR 0x5C then [CHR 0x5C, c] else [c])"

definition quoted :: "string \<Rightarrow> string" where "quoted s = concat (map quoteByte s)"

definition printable :: "string \<Rightarrow> bool" where
  "printable s \<longleftrightarrow> list_all (\<lambda>c. 0x20 \<le> ord c \<and> ord c < 0x80) s"

lemma quoted_simps [simp]: "quoted [] = []" "quoted (c # cs) = quoteByte c @ quoted cs"
  by (simp_all add: quoted_def)

lemma printable_simps [simp]:
  "printable []" "printable (c # cs) \<longleftrightarrow> 0x20 \<le> ord c \<and> ord c < 0x80 \<and> printable cs"
  "printable (a @ b) \<longleftrightarrow> printable a \<and> printable b"
  by (simp_all add: printable_def)

lemma simpleEscape_self: "simpleEscape CHR 0x22 = Some CHR 0x22" "simpleEscape CHR 0x5C = Some CHR 0x5C"
  by (simp_all add: simpleEscape_def)

lemma scanString_quoted:
  "printable s \<Longrightarrow> scanString acc (quoted s @ CHR 0x22 # r) = Done (acc @ quoted s, r)"
proof (induction s arbitrary: acc)
  case Nil
  show ?case by (simp add: scanString.simps)
next
  case (Cons c cs)
  show ?case
  proof (cases "c = CHR 0x22 \<or> c = CHR 0x5C")
    case True
    then have "simpleEscape c \<noteq> None" "c \<noteq> CHR ''u''" using simpleEscape_self by auto
    with True Cons show ?thesis by (simp add: quoteByte_def scanString.simps)
  next
    case False
    with Cons show ?thesis by (simp add: quoteByte_def scanString.simps)
  qed
qed

lemma unquote_quoted: "printable s \<Longrightarrow> unquote (quoted s) = s"
proof (induction s)
  case Nil
  show ?case by (simp add: unquote.simps)
next
  case (Cons c cs)
  show ?case
  proof (cases "c = CHR 0x22 \<or> c = CHR 0x5C")
    case True
    then have "simpleEscape c = Some c" "c \<noteq> CHR ''u''" using simpleEscape_self by auto
    with True Cons show ?thesis by (simp add: quoteByte_def unquote.simps)
  next
    case False
    with Cons show ?thesis by (simp add: quoteByte_def unquote.simps)
  qed
qed

lemma quoted_plain: "CHR 0x22 \<notin> set s \<Longrightarrow> CHR 0x5C \<notin> set s \<Longrightarrow> quoted s = s"
  by (induction s) (auto simp: quoteByte_def)

lemma length_quoted: "length (quoted s) = length s + length (filter (\<lambda>c. c = CHR 0x22 \<or> c = CHR 0x5C) s)"
  by (induction s) (auto simp: quoteByte_def)

lemma next_byte_Cons: "\<not> isJSpace c \<Longrightarrow> next_byte (c # r) = Done (c, r)"
  by (simp add: next_byte_def skipSpace_def)

lemma scanValue_string:
  assumes "printable s"
  shows "scanValue d (CHR 0x22 # quoted s @ CHR 0x22 # r) = Done (JString (quoted s), r)"
  using scanString_quoted [OF assms, of "[]"]
  by (simp add: scanValue.simps next_byte_Cons isJSpace_def scanScalar_def)

lemma scanNumber_Itoa:
  assumes "r = [] \<or> \<not> isDigit (hd r) \<and> hd r \<notin> {CHR ''.'', CHR ''e'', CHR ''E''}"
  shows "scanNumber (Itoa n @ r) = Done (Itoa n, r)"
proof -
  obtain c cs where c: "Itoa n = c # cs" "digit c \<noteq> None" using Itoa_chars [of _ n] by (cases "Itoa n") auto
  have "c \<noteq> CHR ''-''" using digit_facts(4) [OF c(2)] by auto
  then have s: "\<not> HasPrefix (Itoa n @ r) ''-''" using c by (simp add: HasPrefix_def)
  have d: "\<forall>x \<in> set (Itoa n). isDigit x" using Itoa_chars by (simp add: isDigit_def)
  have i: "scanInteger (Itoa n @ r) = Done (Itoa n, r)"
  proof (cases "c = CHR ''0''")
    case True
    have "length (Itoa n) = 1" using Itoa_no_zero [of n] c(1) True by (cases cs) auto
    then show ?thesis using c(1) True by (simp add: scanInteger_def HasPrefix_def)
  next
    case False
    have "takeWhile isDigit (Itoa n @ r) = Itoa n \<and> dropWhile isDigit (Itoa n @ r) = r"
      using takeWhile_first [OF d] assms by auto
    then show ?thesis using c False by (simp add: scanInteger_def scanDigits_def HasPrefix_def isDigit_def)
  qed
  have f: "scanFraction r = Done ([], r)" using assms by (cases r) (simp_all add: scanFraction_def HasPrefix_def)
  have e: "scanExponent r = Done ([], r)" using assms by (cases r) (simp_all add: scanExponent_def)
  show ?thesis using s i f e by (simp add: scanNumber_def)
qed

lemma scanValue_Itoa:
  assumes "r = [] \<or> \<not> isDigit (hd r) \<and> hd r \<notin> {CHR ''.'', CHR ''e'', CHR ''E''}"
  shows "scanValue d (Itoa n @ r) = Done (JNumber (Itoa n), r)"
proof -
  obtain c cs where c: "Itoa n = c # cs" "digit c \<noteq> None" using Itoa_chars [of _ n] by (cases "Itoa n") auto
  have "48 \<le> (of_char c :: nat) \<and> (of_char c :: nat) \<le> 57" using c(2) by (simp only: digit_range)
  then have "c \<notin> {CHR '' '', CHR 0x09, CHR 0x0D, CHR 0x0A, CHR ''{'', CHR ''['', CHR 0x22}" by auto
  then show ?thesis
    using scanNumber_Itoa [OF assms, of n] c
    by (simp add: scanValue.simps next_byte_Cons isJSpace_def scanScalar_def isDigit_def)
qed

text \<open>One member of an object that has no white space.\<close>

definition member :: "string \<Rightarrow> string \<Rightarrow> string" where
  "member key text = CHR 0x22 # key @ CHR 0x22 # CHR '':'' # text"

lemma scanMembers_member:
  assumes "printable key" "quoted key = key" "scanValue d (text @ c # r) = Done (v, c # r)" "c \<in> {CHR '','', CHR ''}''}"
  shows "scanMembers d acc (member key text @ c # r) =
    (if c = CHR '','' then scanMembers d (acc @ [(key, v)]) r else Done (JObject (acc @ [(key, v)]), r))"
proof -
  have k: "scanString [] (key @ CHR 0x22 # CHR '':'' # text @ c # r) = Done (key, CHR '':'' # text @ c # r)"
    using scanString_quoted [OF assms(1), of "[]" "CHR '':'' # text @ c # r"] assms(2) by simp
  have n: "next_byte (c # r) = Done (c, r)" "next_byte (CHR '':'' # t) = Done (CHR '':'', t)"
    "next_byte (CHR 0x22 # t) = Done (CHR 0x22, t)" for t
    using assms(4) by (auto simp: next_byte_Cons isJSpace_def)
  show ?thesis using assms(3,4) by (subst scanMembers.simps) (auto simp: member_def n k)
qed

end
