(* ===== verification/GoMarshal.thy ===== *)
theory GoMarshal
  imports GoJSON
begin

text \<open>
  \<open>json.Marshal\<close> on structs of times, bytes, numbers, strings and text values, and what the decoder
  of \<open>GoJSON\<close> makes of its output.
\<close>

section \<open>Writing\<close>

text \<open>A string literal without its quotes: control characters, the quote, the backslash, the characters
  that matter in HTML, U+2028, U+2029 and bytes that are not UTF-8 are escaped.\<close>

definition escapeByte :: "char \<Rightarrow> bytes" where
  "escapeByte c =
     (if c = CHR 0x22 \<or> c = CHR 0x5C then [CHR 0x5C, c]
      else if c = CHR 0x08 then [CHR 0x5C, CHR ''b''] else if c = CHR 0x0C then [CHR 0x5C, CHR ''f'']
      else if c = CHR 0x0A then [CHR 0x5C, CHR ''n''] else if c = CHR 0x0D then [CHR 0x5C, CHR ''r'']
      else if c = CHR 0x09 then [CHR 0x5C, CHR ''t'']
      else if ord c < 0x20 \<or> c \<in> {CHR ''<'', CHR ''>'', CHR ''&''}
      then CHR 0x5C # ''u00'' @ [hexLower (ord c div 16), hexLower (ord c mod 16)]
      else [c])"

function escapeString :: "bytes \<Rightarrow> bytes" where
  "escapeString [] = []"
| "escapeString (c # cs) =
     (if ord c < 0x80 then escapeByte c @ escapeString cs
      else if runeLen (c # cs) = 1 then CHR 0x5C # ''ufffd'' @ escapeString cs
      else (let r = take (runeLen (c # cs)) (c # cs)
            in (if r = [byte 0xE2, byte 0x80, byte 0xA8] then CHR 0x5C # ''u2028''
                else if r = [byte 0xE2, byte 0x80, byte 0xA9] then CHR 0x5C # ''u2029'' else r) @
               escapeString (drop (runeLen (c # cs) - 1) cs)))"
  by pat_completeness auto

termination by (relation "measure length") auto

declare escapeString.simps [simp del]

definition inQuotes :: "string \<Rightarrow> string" where "inQuotes s = CHR 0x22 # s @ [CHR 0x22]"

definition stringText :: "bytes \<Rightarrow> string" where "stringText s = inQuotes (escapeString s)"

definition bytesText :: "bytes \<Rightarrow> string" where "bytesText b = inQuotes (stdEncode b)"

definition intText :: "int \<Rightarrow> string" where
  "intText n = (if n < 0 then CHR ''-'' # Itoa (nat (- n)) else Itoa (nat n))"

definition timeText :: "int \<Rightarrow> time \<Rightarrow> string result" where
  "timeText offset t =
     (case appendRFC3339 offset t of
        Inl e \<Rightarrow> Inl (Wrap ''json: error calling MarshalJSON for type %s: %w'' (Wrap ''Time.MarshalJSON: %w'' e))
      | Inr s \<Rightarrow> Inr (inQuotes s))"

text \<open>The members of an object in the order of the fields.\<close>

fun membersText :: "(string \<times> string) list \<Rightarrow> string" where
  "membersText [] = ''}''"
| "membersText [(key, v)] = member key v @ ''}''"
| "membersText ((key, v) # m # ms) = member key v @ CHR '','' # membersText (m # ms)"

definition objectText :: "(string \<times> string) list \<Rightarrow> string" where
  "objectText ms = CHR ''{'' # membersText ms"

section \<open>Plain text\<close>

text \<open>ASCII that needs no escape on either side.\<close>

definition unescaped :: "string \<Rightarrow> bool" where
  "unescaped s \<longleftrightarrow> list_all (\<lambda>c. 0x20 \<le> ord c \<and> ord c < 0x80 \<and> c \<notin> {CHR 0x22, CHR 0x5C, CHR ''<'', CHR ''>'', CHR ''&''}) s"

lemma unescaped_simps [simp]:
  "unescaped []" "unescaped (a @ b) \<longleftrightarrow> unescaped a \<and> unescaped b"
  "unescaped (c # s) \<longleftrightarrow> 0x20 \<le> ord c \<and> ord c < 0x80 \<and> c \<notin> {CHR 0x22, CHR 0x5C, CHR ''<'', CHR ''>'', CHR ''&''} \<and> unescaped s"
  by (simp_all add: unescaped_def)

lemma unescaped_text:
  assumes "unescaped s"
  shows "printable s" "quoted s = s"
proof -
  show "printable s" using assms by (auto simp: unescaped_def printable_def list_all_iff)
  show "quoted s = s" by (rule quoted_plain) (use assms in \<open>auto simp: unescaped_def list_all_iff\<close>)
qed

lemma unquote_unescaped: "unescaped s \<Longrightarrow> unquote s = s"
  using unquote_quoted [of s] unescaped_text [of s] by simp

lemma escapeString_unescaped: "unescaped s \<Longrightarrow> escapeString s = s"
proof (induction s)
  case (Cons c cs)
  from Cons.prems have c: "0x20 \<le> ord c" "ord c < 0x80" "c \<notin> {CHR 0x22, CHR 0x5C, CHR ''<'', CHR ''>'', CHR ''&''}" by simp_all
  have "c \<notin> {CHR 0x08, CHR 0x0C, CHR 0x0A, CHR 0x0D, CHR 0x09}" using c(1) by (auto simp: ord_def)
  with c have "escapeByte c = [c]" by (simp add: escapeByte_def)
  with Cons show ?case by (simp add: escapeString.simps)
qed (simp add: escapeString.simps)

lemma url_alphabet_text: "c \<in> set url_alphabet \<Longrightarrow> 0x20 \<le> ord c \<and> ord c < 0x80 \<and> c \<noteq> CHR 0x22 \<and> c \<noteq> CHR 0x5C"
  by (auto simp: url_alphabet_def ord_def)

lemma b64Encode_text: "printable (b64Encode d)" "quoted (b64Encode d) = b64Encode d"
proof -
  have c: "c \<in> set url_alphabet" if "c \<in> set (b64Encode d)" for c
    using that sextets_range [of d] sextet_char_in by (auto simp: b64Encode_def EncodeToString_def)
  then show "printable (b64Encode d)" using url_alphabet_text by (simp add: printable_def list_all_iff)
  show "quoted (b64Encode d) = b64Encode d" by (rule quoted_plain) (use c url_alphabet_text in blast)+
qed

lemma unquote_key: "printable key \<Longrightarrow> quoted key = key \<Longrightarrow> unquote key = key"
  using unquote_quoted [of key] by simp

section \<open>Reading back an object\<close>

text \<open>A member, its text and the value that the scanner finds in it.\<close>

definition scannable :: "nat \<Rightarrow> string \<times> string \<times> jvalue \<Rightarrow> bool" where
  "scannable d = (\<lambda>(key, tx, v). unescaped key \<and>
     (\<forall>c r. c = CHR '','' \<or> c = CHR ''}'' \<longrightarrow> scanValue d (tx @ c # r) = Done (v, c # r)))"

lemma scannableD:
  assumes "scannable d (key, tx, v)"
  shows "unescaped key" "c = CHR '','' \<or> c = CHR ''}'' \<Longrightarrow> scanValue d (tx @ c # r) = Done (v, c # r)"
  using assms unfolding scannable_def by blast+

lemma scannable_string: "unescaped key \<Longrightarrow> unescaped s \<Longrightarrow> scannable d (key, inQuotes s, JString s)"
  using scanValue_string [of s d] unescaped_text [of s] by (simp add: scannable_def inQuotes_def)

lemma scannable_int:
  assumes "unescaped key" "0 \<le> n"
  shows "scannable d (key, intText n, JNumber (intText n))"
proof -
  have "\<not> isDigit c \<and> c \<notin> {CHR ''.'', CHR ''e'', CHR ''E''}" if "c = CHR '','' \<or> c = CHR ''}''" for c
    using that by (auto simp: isDigit_def digit_def)
  then show ?thesis using assms scanValue_Itoa [of "_ # _"] by (simp add: scannable_def intText_def)
qed

lemma scanMembers_text:
  assumes "ms \<noteq> []" "list_all (scannable d) ms"
  shows "scanMembers d acc (membersText (map (\<lambda>(key, tx, v). (key, tx)) ms)) =
    Done (JObject (acc @ map (\<lambda>(key, tx, v). (key, v)) ms), [])"
  using assms
proof (induction ms arbitrary: acc)
  case (Cons m ms)
  obtain key tx v where m: "m = (key, tx, v)" by (cases m) auto
  with Cons.prems have sc: "scannable d (key, tx, v)" by simp
  have step: "scanMembers d a (member key tx @ c # r) =
      (if c = CHR '','' then scanMembers d (a @ [(key, v)]) r else Done (JObject (a @ [(key, v)]), r))"
    if "c = CHR '','' \<or> c = CHR ''}''" for a c r
    by (rule scanMembers_member [OF unescaped_text [OF scannableD(1) [OF sc]] scannableD(2) [OF sc that]]) (use that in blast)
  show ?case
  proof (cases ms)
    case Nil
    with m step [of "CHR ''}''" acc "[]"] show ?thesis by simp
  next
    case (Cons m' ms')
    obtain key' tx' v' where "m' = (key', tx', v')" by (cases m') auto
    with m Cons step [of "CHR '',''" acc] Cons.IH [of "acc @ [(key, v)]"] Cons.prems show ?thesis by simp
  qed
qed simp

lemma scan_objectText:
  assumes "ms \<noteq> []" "list_all (scannable d) ms"
  shows "scanValue (Suc d) (objectText (map (\<lambda>(key, tx, v). (key, tx)) ms)) = Done (JObject (map (\<lambda>(key, tx, v). (key, v)) ms), [])"
proof -
  obtain key tx v ms' where "ms = (key, tx, v) # ms'" using assms(1) by (cases ms) auto
  then obtain t where t: "membersText (map (\<lambda>(key, tx, v). (key, tx)) ms) = CHR 0x22 # t"
    by (cases ms') (auto simp: member_def)
  show ?thesis
    using scanMembers_text [OF assms, of "[]"] unfolding objectText_def t
    by (simp add: scanValue.simps next_byte_Cons isJSpace_def)
qed

lemma Unmarshal_objectText:
  assumes "ms \<noteq> []" "\<And>d. list_all (scannable d) ms"
  shows "json_Unmarshal fs zero (objectText (map (\<lambda>(key, tx, v). (key, tx)) ms)) =
    decodeStruct False fs zero (JObject (map (\<lambda>(key, tx, v). (key, v)) ms))"
proof -
  have d: "maxNestingDepth = Suc 9999" by (simp add: maxNestingDepth_def)
  show ?thesis unfolding json_Unmarshal_def d using scan_objectText [OF assms, of 9999] by (simp add: skipSpace_def)
qed

section \<open>Times, bytes and numbers\<close>

lemma digit_unescaped: "digit c \<noteq> None \<Longrightarrow> unescaped [c]"
proof -
  assume "digit c \<noteq> None"
  then have c: "48 \<le> ord c" "ord c \<le> 57" unfolding ord_def by (simp_all only: digit_range)
  then have "c \<notin> {CHR 0x22, CHR 0x5C, CHR ''<'', CHR ''>'', CHR ''&''}" by (auto simp: ord_def)
  with c show ?thesis by simp
qed

lemma unescaped_set: "(\<And>c. c \<in> set s \<Longrightarrow> unescaped [c]) \<Longrightarrow> unescaped s"
  by (simp add: unescaped_def list_all_iff)

lemma unescaped_digits [simp]: "unescaped (digits w n)"
  by (rule unescaped_set) (rule digit_unescaped [OF digits_digit])

lemma unescaped_fraction [simp]: "unescaped (fraction n)"
proof -
  have "unescaped (rev (dropWhile (\<lambda>c. c = CHR ''0'') (rev (digits 9 n))))"
  proof (rule unescaped_set)
    fix c assume "c \<in> set (rev (dropWhile (\<lambda>c. c = CHR ''0'') (rev (digits 9 n))))"
    then have "c \<in> set (digits 9 n)" using set_dropWhileD [of c _ "rev (digits 9 n)"] by simp
    then show "unescaped [c]" by (rule digit_unescaped [OF digits_digit])
  qed
  then show ?thesis by (simp add: fraction_def ord_def)
qed

lemma unescaped_zoneText [simp]: "unescaped (zoneText z)"
  by (simp add: zoneText_def Let_def ord_def)

lemma unescaped_RFC3339: "appendRFC3339 z t = Inr s \<Longrightarrow> unescaped s"
  by (auto simp: appendRFC3339_def Let_def ord_def split: prod.splits if_splits)

lemma timeText_Inr:
  assumes "timeText z t = Inr tx" "z mod 60 = 0"
  obtains s where "tx = inQuotes s" "unescaped s" "parseRFC3339 s = Some t"
  using assms unescaped_RFC3339 parse_appendRFC3339 by (auto simp: timeText_def split: sum.splits)

lemma unescaped_stdEncode: "unescaped (stdEncode b)"
proof (rule unescaped_set)
  fix c assume "c \<in> set (stdEncode b)"
  from stdEncode_chars [OF this] show "unescaped [c]" by (auto simp: std_alphabet_def ord_def)
qed

lemma unescaped_b64Encode: "unescaped (b64Encode b)"
proof (rule unescaped_set)
  fix c assume "c \<in> set (b64Encode b)"
  then have "c \<in> set url_alphabet"
    using sextets_range [of b] sextet_char_in by (auto simp: b64Encode_def EncodeToString_def)
  then show "unescaped [c]" by (auto simp: url_alphabet_def ord_def)
qed

lemma length_RFC3339:
  assumes "appendRFC3339 z t = Inr s"
  shows "length s \<le> 35"
proof -
  have f: "length (fraction n) \<le> 10" for n
    using length_dropWhile_le [of "\<lambda>c. c = CHR ''0''" "rev (digits 9 n)"] by (simp add: fraction_def)
  have "length (zoneText z) \<le> 6" by (simp add: zoneText_def Let_def)
  with f [of "nat ((t + z * Second) mod Second)"] show ?thesis
    using assms by (auto simp: appendRFC3339_def Let_def split: prod.splits if_splits)
qed

lemma length_timeText: "timeText z t = Inr tx \<Longrightarrow> length tx \<le> 37"
  using length_RFC3339 by (auto simp: timeText_def inQuotes_def split: sum.splits)

end
