(* ===== verification/Records.thy ===== *)
theory Records
  imports Secrets Bolt GoMarshal
begin

text \<open>
  The records the service stores or signs, their JSON, and the environment the service runs
  in. Times are written in the zone of the host, given as the offset from UTC in seconds at an
  instant; read back, they are the same instant in every zone. (The expiry in a marker is written
  with the offset of the ticket it comes from, which is that of the host at the time of issue.)
\<close>

section \<open>The records\<close>

record rootKeyRecord =
  rk_CreatedAt :: time
  rk_Secret :: bytes

record TicketData =
  td_V :: int
  td_ID :: NoteID
  td_IssuedAt :: time
  td_Exp :: time
  td_BurnVerifier :: string

record Metadata =
  md_BurnVerifier :: bytes
  md_CreatedAt :: time
  md_ExpiresAt :: time

record UsedTicketMarker =
  um_ExpiresAt :: time

section \<open>Their JSON\<close>

text \<open>The fields with their tags, and what they hold before decoding.\<close>

definition rootKeyFields :: "rootKeyRecord fields" where
  "rootKeyFields =
     [(''createdAt'', inField rk_CreatedAt (\<lambda>a s. s\<lparr>rk_CreatedAt := a\<rparr>) storeTime),
      (''secret'', inField rk_Secret (\<lambda>a s. s\<lparr>rk_Secret := a\<rparr>) storeBytes)]"

definition ticketFields :: "TicketData fields" where
  "ticketFields =
     [(''v'', inField td_V (\<lambda>a s. s\<lparr>td_V := a\<rparr>) storeInt),
      (''id'', inField td_ID (\<lambda>a s. s\<lparr>td_ID := a\<rparr>) (storeTextValue NoteID_UnmarshalText)),
      (''iat'', inField td_IssuedAt (\<lambda>a s. s\<lparr>td_IssuedAt := a\<rparr>) storeTime),
      (''exp'', inField td_Exp (\<lambda>a s. s\<lparr>td_Exp := a\<rparr>) storeTime),
      (''burnVerifier'', inField td_BurnVerifier (\<lambda>a s. s\<lparr>td_BurnVerifier := a\<rparr>) storeString)]"

definition metadataFields :: "Metadata fields" where
  "metadataFields =
     [(''burnVerifier'', inField md_BurnVerifier (\<lambda>a s. s\<lparr>md_BurnVerifier := a\<rparr>) storeBytes),
      (''createdAt'', inField md_CreatedAt (\<lambda>a s. s\<lparr>md_CreatedAt := a\<rparr>) storeTime),
      (''expiresAt'', inField md_ExpiresAt (\<lambda>a s. s\<lparr>md_ExpiresAt := a\<rparr>) storeTime)]"

definition markerFields :: "UsedTicketMarker fields" where
  "markerFields = [(''expiresAt'', inField um_ExpiresAt (\<lambda>a s. s\<lparr>um_ExpiresAt := a\<rparr>) storeTime)]"

definition zeroTicketData :: TicketData where
  "zeroTicketData =
     \<lparr>td_V = 0, td_ID = replicate noteIDLen CHR 0x00, td_IssuedAt = 0, td_Exp = 0, td_BurnVerifier = []\<rparr>"

definition unmarshalRootKey :: "bytes \<Rightarrow> rootKeyRecord result" where
  "unmarshalRootKey = json_Unmarshal rootKeyFields \<lparr>rk_CreatedAt = 0, rk_Secret = []\<rparr>"

definition unmarshalTicket :: "bytes \<Rightarrow> TicketData result" where
  "unmarshalTicket = json_Unmarshal ticketFields zeroTicketData"

definition unmarshalMetadata :: "bytes \<Rightarrow> Metadata result" where
  "unmarshalMetadata = json_Unmarshal metadataFields \<lparr>md_BurnVerifier = [], md_CreatedAt = 0, md_ExpiresAt = 0\<rparr>"

definition unmarshalMarker :: "bytes \<Rightarrow> UsedTicketMarker result" where
  "unmarshalMarker = json_Unmarshal markerFields \<lparr>um_ExpiresAt = 0\<rparr>"

type_synonym zone = "time \<Rightarrow> int"

text \<open>The first field that cannot be written ends the marshalling.\<close>

definition timeIn :: "zone \<Rightarrow> time \<Rightarrow> string result" where
  "timeIn z t = timeText (z t) t"

definition marshalRootKey :: "zone \<Rightarrow> rootKeyRecord \<Rightarrow> bytes result" where
  "marshalRootKey z r =
     (case timeIn z (rk_CreatedAt r) of Inl e \<Rightarrow> Inl e
      | Inr created \<Rightarrow> Inr (objectText [(''createdAt'', created), (''secret'', bytesText (rk_Secret r))]))"

definition marshalTicket :: "zone \<Rightarrow> TicketData \<Rightarrow> bytes result" where
  "marshalTicket z d =
     (case timeIn z (td_IssuedAt d) of Inl e \<Rightarrow> Inl e
      | Inr issued \<Rightarrow> (case timeIn z (td_Exp d) of Inl e \<Rightarrow> Inl e
      | Inr expiry \<Rightarrow> Inr (objectText
          [(''v'', intText (td_V d)), (''id'', stringText (NoteID_MarshalText (td_ID d))), (''iat'', issued),
           (''exp'', expiry), (''burnVerifier'', stringText (td_BurnVerifier d))])))"

definition marshalMetadata :: "zone \<Rightarrow> Metadata \<Rightarrow> bytes result" where
  "marshalMetadata z m =
     (case timeIn z (md_CreatedAt m) of Inl e \<Rightarrow> Inl e
      | Inr created \<Rightarrow> (case timeIn z (md_ExpiresAt m) of Inl e \<Rightarrow> Inl e
      | Inr expires \<Rightarrow> Inr (objectText
          [(''burnVerifier'', bytesText (md_BurnVerifier m)), (''createdAt'', created), (''expiresAt'', expires)])))"

definition marshalMarker :: "zone \<Rightarrow> UsedTicketMarker \<Rightarrow> bytes result" where
  "marshalMarker z u =
     (case timeIn z (um_ExpiresAt u) of Inl e \<Rightarrow> Inl e
      | Inr expires \<Rightarrow> Inr (objectText [(''expiresAt'', expires)]))"

section \<open>Reading back what was written\<close>

text \<open>The offsets of the zone are whole minutes, as RFC 3339 can write them.\<close>

definition zone_ok :: "zone \<Rightarrow> bool" where
  "zone_ok z \<longleftrightarrow> (\<forall>t. z t mod 60 = 0)"

definition wf_ticket :: "TicketData \<Rightarrow> bool" where
  "wf_ticket d \<longleftrightarrow> td_V d = 1 \<and> length (td_ID d) = 32 \<and> (\<exists>v. length v = 32 \<and> td_BurnVerifier d = b64Encode v)"

lemma timeIn_Inr:
  assumes "zone_ok z" "timeIn z t = Inr tx"
  obtains s where "tx = inQuotes s" "unescaped s" "parseRFC3339 s = Some t"
  using assms timeText_Inr [of "z t" t tx] by (auto simp: timeIn_def zone_ok_def)

lemma fieldFor_head [simp]: "fieldFor ((name, st) # fs) name = Some st"
  by (simp add: fieldFor_def)

lemma fieldFor_tail: "map_of fs key = Some st \<Longrightarrow> name \<noteq> key \<Longrightarrow> fieldFor ((name, st') # fs) key = Some st"
  by (simp add: fieldFor_def)

definition record_names :: "string list" where
  "record_names = [''createdAt'', ''secret'', ''v'', ''id'', ''iat'', ''exp'', ''burnVerifier'', ''expiresAt'']"

lemma record_names_unescaped: "list_all unescaped record_names"
  by (simp add: record_names_def ord_def)

lemma record_keys [simp]: "list_all (\<lambda>k. unquote k = k) record_names"
  using record_names_unescaped unquote_unescaped by (auto simp: list_all_iff)

lemma unquote_names:
  "unquote ''createdAt'' = ''createdAt''" "unquote ''secret'' = ''secret''" "unquote ''v'' = ''v''" "unquote ''id'' = ''id''"
  "unquote ''iat'' = ''iat''" "unquote ''exp'' = ''exp''" "unquote ''burnVerifier'' = ''burnVerifier''"
  "unquote ''expiresAt'' = ''expiresAt''"
  using record_keys by (simp_all add: record_names_def)

lemmas store_defs = fieldFor_def inField_def storeTime_def storeBytes_def storeString_def storeInt_def storeTextValue_def

lemma unmarshal_marshalRootKey:
  assumes "zone_ok z" "marshalRootKey z r = Inr b"
  shows "unmarshalRootKey b = Inr r"
proof -
  from assms obtain s where s: "unescaped s" "parseRFC3339 s = Some (rk_CreatedAt r)"
    and b: "b = objectText [(''createdAt'', inQuotes s), (''secret'', bytesText (rk_Secret r))]"
    by (auto simp: marshalRootKey_def split: sum.splits elim!: timeIn_Inr)
  let ?ms = "[(''createdAt'', inQuotes s, JString s), (''secret'', bytesText (rk_Secret r), JString (stdEncode (rk_Secret r)))]"
  have "list_all (scannable d) ?ms" for d
    using s record_names_unescaped by (simp add: record_names_def bytesText_def scannable_string unescaped_stdEncode)
  then have j: "unmarshalRootKey b = decodeStruct False rootKeyFields \<lparr>rk_CreatedAt = 0, rk_Secret = []\<rparr> (JObject (map (\<lambda>(key, tx, v). (key, v)) ?ms))"
    using Unmarshal_objectText [of ?ms rootKeyFields "\<lparr>rk_CreatedAt = 0, rk_Secret = []\<rparr>"] by (simp add: unmarshalRootKey_def b)
  show ?thesis
    using s by (simp add: j decodeStruct_def unquote_names rootKeyFields_def store_defs
        unquote_unescaped unescaped_stdEncode stdDecode_stdEncode)
qed

lemma unmarshal_marshalMetadata:
  assumes "zone_ok z" "marshalMetadata z m = Inr b"
  shows "unmarshalMetadata b = Inr m"
proof -
  from assms(2) obtain t1 t2 where t: "timeIn z (md_CreatedAt m) = Inr t1" "timeIn z (md_ExpiresAt m) = Inr t2"
    and b0: "b = objectText [(''burnVerifier'', bytesText (md_BurnVerifier m)), (''createdAt'', t1), (''expiresAt'', t2)]"
    by (auto simp: marshalMetadata_def split: sum.splits)
  obtain s1 where s1: "t1 = inQuotes s1" "unescaped s1" "parseRFC3339 s1 = Some (md_CreatedAt m)"
    using assms(1) t(1) by (rule timeIn_Inr)
  obtain s2 where s2: "t2 = inQuotes s2" "unescaped s2" "parseRFC3339 s2 = Some (md_ExpiresAt m)"
    using assms(1) t(2) by (rule timeIn_Inr)
  note s = s1(2,3) s2(2,3) and b = b0 [unfolded s1(1) s2(1)]
  let ?ms = "[(''burnVerifier'', bytesText (md_BurnVerifier m), JString (stdEncode (md_BurnVerifier m))),
    (''createdAt'', inQuotes s1, JString s1), (''expiresAt'', inQuotes s2, JString s2)]"
  have "list_all (scannable d) ?ms" for d
    using s record_names_unescaped by (simp add: record_names_def bytesText_def scannable_string unescaped_stdEncode)
  then have j: "unmarshalMetadata b = decodeStruct False metadataFields \<lparr>md_BurnVerifier = [], md_CreatedAt = 0, md_ExpiresAt = 0\<rparr> (JObject (map (\<lambda>(key, tx, v). (key, v)) ?ms))"
    using Unmarshal_objectText [of ?ms metadataFields "\<lparr>md_BurnVerifier = [], md_CreatedAt = 0, md_ExpiresAt = 0\<rparr>"] by (simp add: unmarshalMetadata_def b)
  show ?thesis
    using s by (simp add: j decodeStruct_def unquote_names metadataFields_def store_defs
        unquote_unescaped unescaped_stdEncode stdDecode_stdEncode)
qed

lemma unmarshal_marshalMarker:
  assumes "zone_ok z" "marshalMarker z u = Inr b"
  shows "unmarshalMarker b = Inr u"
proof -
  from assms obtain s where s: "unescaped s" "parseRFC3339 s = Some (um_ExpiresAt u)"
    and b: "b = objectText [(''expiresAt'', inQuotes s)]"
    by (auto simp: marshalMarker_def split: sum.splits elim!: timeIn_Inr)
  let ?ms = "[(''expiresAt'', inQuotes s, JString s)]"
  have "list_all (scannable d) ?ms" for d
    using s record_names_unescaped by (simp add: record_names_def scannable_string)
  then have j: "unmarshalMarker b = decodeStruct False markerFields \<lparr>um_ExpiresAt = 0\<rparr> (JObject (map (\<lambda>(key, tx, v). (key, v)) ?ms))"
    using Unmarshal_objectText [of ?ms markerFields "\<lparr>um_ExpiresAt = 0\<rparr>"] by (simp add: unmarshalMarker_def b)
  show ?thesis
    using s by (simp add: j decodeStruct_def unquote_names markerFields_def store_defs)
qed

lemma unmarshal_marshalTicket:
  assumes "zone_ok z" "wf_ticket d" "marshalTicket z d = Inr b"
  shows "b \<noteq> []" "unmarshalTicket b = Inr d"
proof -
  from assms(3) obtain t1 t2 where t: "timeIn z (td_IssuedAt d) = Inr t1" "timeIn z (td_Exp d) = Inr t2"
    and b0: "b = objectText [(''v'', intText (td_V d)), (''id'', stringText (NoteID_MarshalText (td_ID d))), (''iat'', t1),
           (''exp'', t2), (''burnVerifier'', stringText (td_BurnVerifier d))]"
    by (auto simp: marshalTicket_def split: sum.splits)
  obtain s1 where s1: "t1 = inQuotes s1" "unescaped s1" "parseRFC3339 s1 = Some (td_IssuedAt d)"
    using assms(1) t(1) by (rule timeIn_Inr)
  obtain s2 where s2: "t2 = inQuotes s2" "unescaped s2" "parseRFC3339 s2 = Some (td_Exp d)"
    using assms(1) t(2) by (rule timeIn_Inr)
  note s = s1(2,3) s2(2,3) and b = b0 [unfolded s1(1) s2(1)]
  from assms(2) obtain v where w: "td_V d = 1" "length (td_ID d) = noteIDLen" "td_BurnVerifier d = b64Encode v"
    by (auto simp: wf_ticket_def noteIDLen_def)
  show "b \<noteq> []" by (simp add: b objectText_def)
  have t: "stringText (b64Encode x) = inQuotes (b64Encode x)" "unquote (b64Encode x) = b64Encode x" for x
    using unescaped_b64Encode [of x] by (simp_all add: stringText_def escapeString_unescaped unquote_unescaped)
  have i: "NoteID_UnmarshalText (b64Encode (td_ID d)) = Inr (td_ID d)"
    using note_id.parse_render [OF w(2)] by (simp add: ParseNoteID_def NoteID_String_def)
  have n: "ParseInt (intText 1) = Inr 1" using ParseInt_Itoa [of 1] by (simp add: intText_def maxInt64_def)
  let ?ms = "[(''v'', intText 1, JNumber (intText 1)), (''id'', inQuotes (b64Encode (td_ID d)), JString (b64Encode (td_ID d))),
    (''iat'', inQuotes s1, JString s1), (''exp'', inQuotes s2, JString s2),
    (''burnVerifier'', inQuotes (b64Encode v), JString (b64Encode v))]"
  have "list_all (scannable k) ?ms" for k
    using s record_names_unescaped by (simp add: record_names_def scannable_string scannable_int unescaped_b64Encode)
  then have j: "unmarshalTicket b = decodeStruct False ticketFields zeroTicketData (JObject (map (\<lambda>(key, tx, v). (key, v)) ?ms))"
    using Unmarshal_objectText [of ?ms ticketFields "zeroTicketData"] by (simp add: unmarshalTicket_def b w t NoteID_MarshalText_def NoteID_String_def)
  show "unmarshalTicket b = Inr d"
    using s w by (simp add: j decodeStruct_def unquote_names ticketFields_def store_defs t i n
        NoteID_MarshalText_def NoteID_String_def zeroTicketData_def)
qed

lemma length_marshalTicket:
  assumes "wf_ticket d" "marshalTicket z d = Inr b"
  shows "length b \<le> 207"
proof -
  from assms(2) obtain t1 t2 where t: "timeIn z (td_IssuedAt d) = Inr t1" "timeIn z (td_Exp d) = Inr t2"
    and b: "b = objectText [(''v'', intText (td_V d)), (''id'', stringText (NoteID_MarshalText (td_ID d))), (''iat'', t1),
           (''exp'', t2), (''burnVerifier'', stringText (td_BurnVerifier d))]"
    by (auto simp: marshalTicket_def split: sum.splits)
  from assms(1) obtain v where v: "td_V d = 1" "length (td_ID d) = 32" "length v = 32" "td_BurnVerifier d = b64Encode v"
    by (auto simp: wf_ticket_def)
  have "escapeString (b64Encode x) = b64Encode x" for x by (rule escapeString_unescaped [OF unescaped_b64Encode])
  moreover have "length t1 \<le> 37" "length t2 \<le> 37" using t length_timeText by (auto simp: timeIn_def)
  ultimately show ?thesis
    using v by (simp add: b objectText_def member_def stringText_def inQuotes_def intText_def Itoa.simps length_b64Encode
        NoteID_MarshalText_def NoteID_String_def)
qed

section \<open>The environment of the service\<close>

text \<open>
  The clock, the random source and bbolt's failures are read through the step counter of
  the world, so each call of \<open>s.now()\<close>, \<open>fillRandom\<close>, \<open>db.View\<close> or \<open>db.Update\<close> sees
  a value of its own and nothing ties one to the other unless a theorem says so.
\<close>

record 'b env =
  db :: "'b bolt"
  zone :: zone
  clock :: "nat \<Rightarrow> time"
  random :: "nat \<Rightarrow> nat \<Rightarrow> char"

definition env_ok :: "'b env \<Rightarrow> bool" where
  "env_ok E \<longleftrightarrow> bolt_ok (db E) \<and> zone_ok (zone E)"

lemma env_okD [simp]:
  assumes "env_ok E"
  shows "bolt_ok (db E)" "zone_ok (zone E)"
  using assms by (simp_all add: env_ok_def)

definition tick :: "'b world \<Rightarrow> 'b world" where
  "tick w = w\<lparr>steps := Suc (steps w)\<rparr>"

definition s_now :: "'b env \<Rightarrow> 'b world \<Rightarrow> time \<times> 'b world" where
  "s_now E w = (clock E (steps w), tick w)"

definition s_random :: "'b env \<Rightarrow> 'b world \<Rightarrow> (nat \<Rightarrow> char) \<times> 'b world" where
  "s_random E w = (random E (steps w), tick w)"

lemma tick_simps [simp]: "store (tick w) = store w" "steps (tick w) = Suc (steps w)"
  by (simp_all add: tick_def)

end
