(* ===== verification/ExampleEnv.thy ===== *)
theory ExampleEnv
  imports Records
begin

text \<open>
  A concrete environment on which the witnesses run: the in-memory store, the zone UTC, a random
  source that repeats one byte, and one record of each type with its text. It satisfies
  \<open>env_ok\<close>; nothing else uses it.
\<close>

definition ex_bytes :: bytes where "ex_bytes = replicate 32 CHR ''r''"
definition ex_time :: time where "ex_time = 63900000000000000000"

text \<open>The verifier of a token under the root key of the sample.\<close>

definition ex_verifier :: "BurnToken \<Rightarrow> bytes" where
  "ex_verifier tok = projr (burnTokenVerifier ex_bytes tok)"

definition ex_rk :: rootKeyRecord where
  "ex_rk = \<lparr>rk_CreatedAt = ex_time, rk_Secret = ex_bytes\<rparr>"

definition ex_td :: TicketData where
  "ex_td = \<lparr>td_V = 1, td_ID = ex_bytes, td_IssuedAt = ex_time, td_Exp = ex_time + 15 * Minute,
     td_BurnVerifier = b64Encode (ex_verifier ex_bytes)\<rparr>"

definition ex_md_of :: "bytes \<Rightarrow> Metadata" where
  "ex_md_of v = \<lparr>md_BurnVerifier = v, md_CreatedAt = ex_time, md_ExpiresAt = ex_time + 2 * Hour\<rparr>"

definition ex_um :: UsedTicketMarker where
  "ex_um = \<lparr>um_ExpiresAt = ex_time + 15 * Minute\<rparr>"

abbreviation ex_md :: Metadata where "ex_md \<equiv> ex_md_of (ex_verifier ex_bytes)"

text \<open>The verifier of no note of the sample.\<close>

definition ex_other_verifier :: bytes where
  "ex_other_verifier = (if hd (ex_verifier ex_bytes) = CHR ''x'' then CHR ''y'' else CHR ''x'') # replicate 31 CHR ''x''"

section \<open>The texts of the records\<close>

definition ex_root :: bytes where
  "ex_root = objectText [(''createdAt'', inQuotes ''2025-11-29T08:00:00Z''), (''secret'', bytesText ex_bytes)]"

definition ex_data :: bytes where
  "ex_data = objectText [(''v'', intText 1), (''id'', stringText (b64Encode ex_bytes)),
     (''iat'', inQuotes ''2025-11-29T08:00:00Z''), (''exp'', inQuotes ''2025-11-29T08:15:00Z''),
     (''burnVerifier'', stringText (b64Encode (ex_verifier ex_bytes)))]"

definition ex_meta_of :: "bytes \<Rightarrow> bytes" where
  "ex_meta_of v = objectText [(''burnVerifier'', bytesText v), (''createdAt'', inQuotes ''2025-11-29T08:00:00Z''),
     (''expiresAt'', inQuotes ''2025-11-29T10:00:00Z'')]"

abbreviation ex_meta :: bytes where "ex_meta \<equiv> ex_meta_of (ex_verifier ex_bytes)"

definition ex_marker :: bytes where
  "ex_marker = objectText [(''expiresAt'', inQuotes ''2025-11-29T08:15:00Z'')]"

section \<open>The environment\<close>

definition utc :: zone where "utc = (\<lambda>_. 0)"

definition ex_env :: "nat option \<Rightarrow> (nat \<Rightarrow> time) \<Rightarrow> ((bytes \<times> bytes) list) env" where
  "ex_env cap clk = \<lparr>db = mem_bolt cap, zone = utc, clock = clk, random = (\<lambda>n j. CHR ''r'')\<rparr>"

definition ex_store :: "((bytes \<times> bytes) list) store" where
  "ex_store = \<lparr>payloads_b = [], config_b = [], metadata_b = [],
     root_keys_b = [(''root_key'', ex_root)], used_tickets_b = []\<rparr>"

definition ex_world :: "((bytes \<times> bytes) list) world" where
  "ex_world = \<lparr>store = ex_store, steps = 0\<rparr>"

lemma length_ex_bytes [simp]: "length ex_bytes = 32"
  by (simp add: ex_bytes_def)

lemma ex_env_ok: "env_ok (ex_env cap clk)"
  by (simp add: env_ok_def ex_env_def mem_bolt_ok zone_ok_def utc_def)

lemma ex_fillRandom: "fillRandom (\<lambda>j. CHR ''r'') 32 = ex_bytes"
  by (simp add: fillRandom_def ex_bytes_def map_replicate_const)

lemma ex_env_simps [simp]:
  "db (ex_env cap clk) = mem_bolt cap" "zone (ex_env cap clk) = utc" "clock (ex_env cap clk) = clk"
  "random (ex_env cap clk) = (\<lambda>n j. CHR ''r'')"
  by (simp_all add: ex_env_def)

section \<open>Writing and reading the samples\<close>

lemma ex_burnTokenVerifier: "burnTokenVerifier ex_bytes tok = Inr (ex_verifier tok)"
  using burnTokenVerifier_Inr [of ex_bytes tok] by (auto simp: ex_verifier_def)

lemma length_ex_verifier [simp]: "length (ex_verifier tok) = 32"
  using length_burnTokenVerifier [OF ex_burnTokenVerifier] by (simp add: burnVerifierLen_def)

lemma ex_record_simps [simp]: "rk_Secret ex_rk = ex_bytes" "md_BurnVerifier (ex_md_of v) = v"
  by (simp_all add: ex_rk_def ex_md_of_def)

lemma ex_other_verifier: "ex_other_verifier \<noteq> ex_verifier ex_bytes" "length ex_other_verifier = 32"
  by (cases "ex_verifier ex_bytes"; simp add: ex_other_verifier_def)+

lemma ex_date: "date (63900000000 div 86400) = (2025, 11, 29)"
proof -
  have "yearDay 739583 = (2025, 332)" unfolding yearDay_def Let_def by simp
  moreover have "splitMonth 1 (monthLengths 2025) 332 = (11, 29)" by (simp add: monthLengths_def isLeap_def)
  moreover have "(63900000000 div 86400 :: int) = 739583" by simp
  ultimately show ?thesis by (simp only: date_def Let_def prod.case)
qed

lemma digits_numeral: "digits (numeral k) n = digits (pred_numeral k) (n div 10) @ [char_of (48 + n mod 10)]"
  using digits.simps(2) [of "pred_numeral k" n] by (simp only: numeral_eq_Suc [of k])

lemma ex_timeIn:
  assumes "0 \<le> s" "s < 57600"
  shows "timeIn utc (ex_time + s * Second) =
    Inr (inQuotes (''2025-11-29T'' @ digits 2 (nat ((28800 + s) div 3600)) @ CHR '':'' # digits 2 (nat ((28800 + s) div 60 mod 60)) @
      CHR '':'' # digits 2 (nat ((28800 + s) mod 60)) @ ''Z''))"
proof -
  have l: "(ex_time + s * Second + 0 * Second) div Second = 63900000000 + s" "(ex_time + s * Second + 0 * Second) mod Second = 0"
    by (simp_all add: ex_time_def duration_values)
  have d: "(63900000000 + s) div 86400 = 63900000000 div 86400" "(63900000000 + s) mod 86400 = 28800 + s"
    using assms int_div_pos_eq [of "63900000000 + s" 86400 739583 "28800 + s"] int_mod_pos_eq [of "63900000000 + s" 86400 739583 "28800 + s"]
    by simp_all
  have t: "digits 4 (nat 2025) = ''2025''" "digits 2 11 = ''11''" "digits 2 (nat 29) = ''29''" "fraction (nat 0) = []" "zoneText 0 = ''Z''"
    by (simp_all add: digits_numeral fraction_def zoneText_def char_of_eq_iff)
  have "appendRFC3339 0 (ex_time + s * Second) =
    Inr (''2025-11-29T'' @ digits 2 (nat ((28800 + s) div 3600)) @ CHR '':'' # digits 2 (nat ((28800 + s) div 60 mod 60)) @
      CHR '':'' # digits 2 (nat ((28800 + s) mod 60)) @ ''Z'')"
    unfolding appendRFC3339_def Let_def l d ex_date prod.case t by simp
  then show ?thesis by (simp add: timeIn_def utc_def timeText_def)
qed

lemma ex_times:
  "timeIn utc ex_time = Inr (inQuotes ''2025-11-29T08:00:00Z'')"
  "timeIn utc (ex_time + 15 * Minute) = Inr (inQuotes ''2025-11-29T08:15:00Z'')"
  "timeIn utc (ex_time + 2 * Hour) = Inr (inQuotes ''2025-11-29T10:00:00Z'')"
proof -
  have d: "digits 2 0 = ''00''" "digits 2 8 = ''08''" "digits 2 10 = ''10''" "digits 2 15 = ''15''"
    by (simp_all add: digits_numeral char_of_eq_iff)
  show "timeIn utc ex_time = Inr (inQuotes ''2025-11-29T08:00:00Z'')"
    using ex_timeIn [of 0] by (simp add: d)
  have m: "15 * Minute = 900 * Second" "2 * Hour = 7200 * Second" by (simp_all add: duration_values)
  show "timeIn utc (ex_time + 15 * Minute) = Inr (inQuotes ''2025-11-29T08:15:00Z'')"
    unfolding m using ex_timeIn [of 900] by (simp add: d)
  show "timeIn utc (ex_time + 2 * Hour) = Inr (inQuotes ''2025-11-29T10:00:00Z'')"
    unfolding m using ex_timeIn [of 7200] by (simp add: d)
qed

lemma ex_marshal [simp]:
  "marshalRootKey utc ex_rk = Inr ex_root" "marshalTicket utc ex_td = Inr ex_data"
  "marshalMetadata utc (ex_md_of v) = Inr (ex_meta_of v)" "marshalMarker utc ex_um = Inr ex_marker"
  by (simp_all add: marshalRootKey_def marshalTicket_def marshalMetadata_def marshalMarker_def ex_times
      ex_rk_def ex_td_def ex_md_of_def ex_um_def ex_root_def ex_data_def ex_meta_of_def ex_marker_def
      NoteID_MarshalText_def NoteID_String_def)

lemma ex_unmarshal [simp]:
  "unmarshalRootKey ex_root = Inr ex_rk" "unmarshalTicket ex_data = Inr ex_td"
  "unmarshalMetadata (ex_meta_of v) = Inr (ex_md_of v)" "unmarshalMarker ex_marker = Inr ex_um"
proof -
  have z: "zone_ok utc" by (simp add: zone_ok_def utc_def)
  have w: "wf_ticket ex_td" unfolding wf_ticket_def ex_td_def by (intro conjI exI [of _ "ex_verifier ex_bytes"]) simp_all
  show "unmarshalRootKey ex_root = Inr ex_rk" by (rule unmarshal_marshalRootKey [OF z]) simp
  show "unmarshalTicket ex_data = Inr ex_td" by (rule unmarshal_marshalTicket [OF z w]) simp
  show "unmarshalMetadata (ex_meta_of v) = Inr (ex_md_of v)" by (rule unmarshal_marshalMetadata [OF z]) simp
  show "unmarshalMarker ex_marker = Inr ex_um" by (rule unmarshal_marshalMarker [OF z]) simp
qed

lemma ex_texts_ne [simp]: "ex_root \<noteq> []" "ex_meta_of v \<noteq> []" "ex_marker \<noteq> []"
  by (simp_all add: ex_root_def ex_meta_of_def ex_marker_def objectText_def)

lemma length_ex_data: "length ex_data = 177"
proof -
  have "escapeString (b64Encode x) = b64Encode x" for x by (rule escapeString_unescaped [OF unescaped_b64Encode])
  then show ?thesis
    by (simp add: ex_data_def objectText_def member_def stringText_def inQuotes_def intText_def Itoa.simps length_b64Encode)
qed

end
