(* ===== verification/RootKey.thy ===== *)
theory RootKey
  imports ExampleEnv
begin

text \<open>
  \<open>root_key.go\<close>: the root secret all verifiers and signatures derive from, kept under one
  key of the \<open>root_keys\<close> bucket.
\<close>

definition rootKeyStorageKey :: bytes where "rootKeyStorageKey = ''root_key''"

definition putRootKey :: "'b env \<Rightarrow> 'b \<Rightarrow> rootKeyRecord \<Rightarrow> 'b result" where
  "putRootKey E bucket rkr =
     (if length (rk_Secret rkr) \<noteq> 32 \<or> IsZero (rk_CreatedAt rkr)
      then Inl (Msg ''invalid root key record'')
      else case marshalRootKey (zone E) rkr of
        Inl e \<Rightarrow> Inl (Wrap ''error marshaling root key record: %w'' e)
      | Inr data \<Rightarrow> wrap_err ''error saving root key record: %w''
                     (bPut (db E) bucket rootKeyStorageKey data))"

definition getRootKey :: "'b env \<Rightarrow> 'b \<Rightarrow> rootKeyRecord result" where
  "getRootKey E bucket =
     (case bGet (db E) bucket rootKeyStorageKey of
        None \<Rightarrow> Inl (Msg ''root key not found'')
      | Some data \<Rightarrow> (case unmarshalRootKey data of
          Inl e \<Rightarrow> Inl (Wrap ''error parsing root key: %w'' e)
        | Inr rkr \<Rightarrow>
            if length (rk_Secret rkr) \<noteq> 32 \<or> IsZero (rk_CreatedAt rkr)
            then Inl (Msg ''root key is invalid'')
            else Inr rkr))"

definition EnsureRootKeys_tx :: "'b env \<Rightarrow> time \<Rightarrow> (nat \<Rightarrow> char) \<Rightarrow> 'b store \<Rightarrow> (unit \<times> 'b store) result" where
  "EnsureRootKeys_tx E now rnd st =
     (let keys = root_keys_b st
      in if bGet (db E) keys rootKeyStorageKey \<noteq> None
         then (case getRootKey E keys of Inl e \<Rightarrow> Inl e | Inr _ \<Rightarrow> Inr ((), st))
         else (let secret = fillRandom rnd 32
               in case putRootKey E keys \<lparr>rk_CreatedAt = now, rk_Secret = secret\<rparr> of
                    Inl e \<Rightarrow> Inl e
                  | Inr keys' \<Rightarrow> Inr ((), st\<lparr>root_keys_b := keys'\<rparr>)))"

definition EnsureRootKeys :: "'b env \<Rightarrow> 'b world \<Rightarrow> unit result \<times> 'b world" where
  "EnsureRootKeys E w =
     (let (now, w1) = s_now E w
      in db_Update (db E) (EnsureRootKeys_tx E now (random E (steps w1))) w1)"

section \<open>Lemmas\<close>

lemma getRootKey_Inr:
  "getRootKey E b = Inr k \<Longrightarrow> length (rk_Secret k) = 32 \<and> rk_CreatedAt k \<noteq> 0"
  by (auto simp: getRootKey_def IsZero_def split: option.splits sum.splits if_splits)

lemma getRootKey_cong:
  "bGet (db E) b rootKeyStorageKey = bGet (db E) b' rootKeyStorageKey \<Longrightarrow> getRootKey E b = getRootKey E b'"
  by (simp add: getRootKey_def)

lemma get_putRootKey:
  assumes "env_ok E" "putRootKey E b r = Inr b'"
  shows "getRootKey E b' = Inr r"
  using assms(2) bGet_bPut [of "db E"] unmarshal_marshalRootKey [of "zone E"] env_okD [OF assms(1)]
  by (auto simp: putRootKey_def getRootKey_def split: if_splits sum.splits)

lemma EnsureRootKeys_tx_frame:
  "EnsureRootKeys_tx E now rnd st = Inr (u, st') \<Longrightarrow>
   payloads_b st' = payloads_b st \<and> config_b st' = config_b st \<and> metadata_b st' = metadata_b st \<and>
   used_tickets_b st' = used_tickets_b st"
  by (auto simp: EnsureRootKeys_tx_def Let_def split: if_splits sum.splits)

lemma EnsureRootKeys_tx_existing:
  "bGet (db E) (root_keys_b st) rootKeyStorageKey \<noteq> None \<Longrightarrow>
   EnsureRootKeys_tx E now rnd st = Inr (u, st') \<Longrightarrow> st' = st"
  by (auto simp: EnsureRootKeys_tx_def Let_def split: if_splits sum.splits)

lemma EnsureRootKeys_tx_getRootKey:
  assumes "env_ok E" "EnsureRootKeys_tx E now rnd st = Inr (u, st')"
  shows "\<exists>k. getRootKey E (root_keys_b st') = Inr k"
  using assms(2) get_putRootKey [OF assms(1)]
  by (auto simp: EnsureRootKeys_tx_def Let_def split: if_splits sum.splits)

section \<open>Properties\<close>

text \<open>C10: after \<open>EnsureRootKeys\<close> succeeds a valid 32-byte root key can be read; an entry
  that existed is never replaced, whether or not it is valid, so issued tickets and stored
  verifiers keep their meaning across restarts; no other bucket changes.\<close>

theorem EnsureRootKeys_spec:
  assumes "env_ok E" "EnsureRootKeys E w = (r, w')"
  shows "(r = Inr () \<longrightarrow> (\<exists>k. getRootKey E (root_keys_b (store w')) = Inr k \<and> length (rk_Secret k) = 32)) \<and>
    (bGet (db E) (root_keys_b (store w)) rootKeyStorageKey \<noteq> None \<or> r \<noteq> Inr () \<longrightarrow> store w' = store w) \<and>
    payloads_b (store w') = payloads_b (store w) \<and> config_b (store w') = config_b (store w) \<and>
    metadata_b (store w') = metadata_b (store w) \<and> used_tickets_b (store w') = used_tickets_b (store w)"
proof (cases r)
  case (Inl e)
  with assms(2) have "store w' = store w"
    by (auto simp: EnsureRootKeys_def s_now_def dest: db_Update_Inl)
  with Inl show ?thesis by simp
next
  case (Inr u)
  with assms(2) have tx: "EnsureRootKeys_tx E (clock E (steps w)) (random E (Suc (steps w))) (store w)
      = Inr (u, store w')"
    by (auto simp: EnsureRootKeys_def s_now_def dest: db_Update_Inr)
  from EnsureRootKeys_tx_getRootKey [OF assms(1) tx] EnsureRootKeys_tx_frame [OF tx]
    EnsureRootKeys_tx_existing [OF _ tx] Inr show ?thesis
    by (auto dest: getRootKey_Inr)
qed

theorem EnsureRootKeys_spec_witness:
  "\<exists>w'. EnsureRootKeys (ex_env None (\<lambda>_. ex_time)) (ex_world\<lparr>store := ex_store\<lparr>root_keys_b := []\<rparr>\<rparr>) = (Inr (), w') \<and>
     (\<exists>k. getRootKey (ex_env None (\<lambda>_. ex_time)) (root_keys_b (store w')) = Inr k \<and> length (rk_Secret k) = 32)"
proof -
  let ?E = "ex_env None (\<lambda>_. ex_time)" and ?w = "ex_world\<lparr>store := ex_store\<lparr>root_keys_b := []\<rparr>\<rparr>"
  have "fst (EnsureRootKeys ?E ?w) = Inr ()"
    by (simp add: EnsureRootKeys_def s_now_def tick_def ex_world_def ex_store_def db_Update_def
        EnsureRootKeys_tx_def mem_bolt_def putRootKey_def ex_fillRandom IsZero_def ex_time_def
        ex_rk_def [symmetric, unfolded ex_time_def] rootKeyStorageKey_def mem_entries_def
        bucketNames_def raw_of_simps)
  then obtain w' where r: "EnsureRootKeys ?E ?w = (Inr (), w')" by (cases "EnsureRootKeys ?E ?w") simp
  with EnsureRootKeys_spec [OF ex_env_ok r] show ?thesis by auto
qed

end
