(* ===== verification/Ticket.thy ===== *)
theory Ticket
  imports RootKey
begin

text \<open>
  \<open>ticket.go\<close>: issuing a creation ticket, its signed text form, and the checks a ticket
  passes before a note may be stored under its identifier.
\<close>

section \<open>Constants of note_service.go\<close>

definition maxTicketLen :: nat where "maxTicketLen = 512"
definition minNoteLifetime :: duration where "minNoteLifetime = Hour"
definition maxNoteLifetime :: duration where "maxNoteLifetime = 14 * 24 * Hour"
definition ticketClockSkew :: duration where "ticketClockSkew = Minute"
definition ticketTimeout :: duration where "ticketTimeout = 15 * Minute"

section \<open>Signing\<close>

record Ticket =
  tk_Value :: string
  tk_Data :: TicketData
  tk_BurnToken :: BurnToken

definition ticketSignature :: "bytes \<Rightarrow> bytes \<Rightarrow> bytes result" where
  "ticketSignature rootSecret signedPayload =
     (case deriveSubkey rootSecret ''ticket signing v1'' of
        Inl e \<Rightarrow> Inl (Wrap ''error deriving ticket signing key: %w'' e)
      | Inr key \<Rightarrow> Inr (hmacSum key signedPayload))"

definition signTicket :: "'b env \<Rightarrow> bytes \<Rightarrow> TicketData \<Rightarrow> string result" where
  "signTicket E rootSecret data =
     (case marshalTicket (zone E) data of
        Inl e \<Rightarrow> Inl (Wrap ''error marshaling ticket: %w'' e)
      | Inr payloadBytes \<Rightarrow>
          (let payload = b64Encode payloadBytes;
               signedPayload = ''v1.'' @ payload
           in case ticketSignature rootSecret signedPayload of
                Inl e \<Rightarrow> Inl (Wrap ''error signing ticket: %w'' e)
              | Inr signature \<Rightarrow> Inr (signedPayload @ ''.'' @ b64Encode signature)))"

definition CreateTicket_tx ::
  "'b env \<Rightarrow> BurnToken \<Rightarrow> time \<Rightarrow> (nat \<Rightarrow> char) \<Rightarrow> 'b store \<Rightarrow> Ticket result" where
  "CreateTicket_tx E burnToken now rnd st =
     (case getRootKey E (root_keys_b st) of
        Inl e \<Rightarrow> Inl e
      | Inr rootKey \<Rightarrow> (case burnTokenVerifier (rk_Secret rootKey) burnToken of
          Inl e \<Rightarrow> Inl e
        | Inr burnVerifier \<Rightarrow>
            (let data = \<lparr>td_V = 1, td_ID = NewNoteID rnd, td_IssuedAt = now,
                   td_Exp = time_Add now ticketTimeout, td_BurnVerifier = b64Encode burnVerifier\<rparr>
             in case signTicket E (rk_Secret rootKey) data of
                  Inl e \<Rightarrow> Inl e
                | Inr value \<Rightarrow> Inr \<lparr>tk_Value = value, tk_Data = data, tk_BurnToken = burnToken\<rparr>)))"

definition CreateTicket :: "'b env \<Rightarrow> 'b world \<Rightarrow> Ticket result \<times> 'b world" where
  "CreateTicket E w =
     (let (rnd, w1) = s_random E w;
          burnToken = NewBurnToken rnd;
          (now, w2) = s_now E w1;
          (r, w3) = db_View (db E) (CreateTicket_tx E burnToken now (random E (steps w2))) w2
      in (wrap_err ''error creating ticket: %w'' r, w3))"

section \<open>Verification\<close>

definition validateTicketPayload :: "TicketData \<Rightarrow> NoteID \<Rightarrow> time \<Rightarrow> bytes result" where
  "validateTicketPayload data pathID now =
     (if td_V data \<noteq> 1 \<or> td_ID data \<noteq> pathID \<or> IsZero (td_IssuedAt data) \<or> IsZero (td_Exp data)
      then Inl (Sentinel ErrTicketInvalid)
      else if After (td_IssuedAt data) (time_Add now ticketClockSkew)
      then Inl (Sentinel ErrTicketInvalid)
      else if Before (td_Exp data) now
      then Inl (Sentinel ErrTicketExpired)
      else if time_Sub (td_Exp data) (td_IssuedAt data) > ticketTimeout
      then Inl (Sentinel ErrTicketInvalid)
      else case b64Decode (td_BurnVerifier data) of
        Inl e \<Rightarrow> Inl (Sentinel ErrTicketInvalid)
      | Inr verifier \<Rightarrow>
          if length verifier \<noteq> burnVerifierLen then Inl (Sentinel ErrTicketInvalid)
          else Inr verifier)"

text \<open>The textual part of \<open>verifyTicket\<close>: from the ticket to its payload and signature
  fields and the decoded data.\<close>

definition decodeTicket :: "'b env \<Rightarrow> string \<Rightarrow> (bytes \<times> bytes \<times> TicketData) result" where
  "decodeTicket E ticket =
     (if length ticket > maxTicketLen then Inl (Sentinel ErrTicketInvalid)
      else if \<not> HasPrefix ticket ''v1.'' then Inl (Sentinel ErrTicketInvalid)
      else case Cut ticket (CHR ''.'') of
        None \<Rightarrow> Inl (Sentinel ErrTicketInvalid)
      | Some (signedValue, rest) \<Rightarrow> (case Cut rest (CHR ''.'') of
          None \<Rightarrow> Inl (Sentinel ErrTicketInvalid)
        | Some (payloadValue, signatureValue) \<Rightarrow>
            if signatureValue = [] then Inl (Sentinel ErrTicketInvalid)
            else if signedValue \<noteq> ''v1'' then Inl (Sentinel ErrTicketInvalid)
            else case b64Decode payloadValue of
              Inl e \<Rightarrow> Inl (Sentinel ErrTicketInvalid)
            | Inr payload \<Rightarrow> (case unmarshalTicket payload of
                Inl e \<Rightarrow> Inl (Sentinel ErrTicketInvalid)
              | Inr data \<Rightarrow> Inr (payloadValue, signatureValue, data))))"

definition checkSignature ::
  "'b env \<Rightarrow> bytes \<Rightarrow> bytes \<Rightarrow> bytes \<Rightarrow> bytes \<Rightarrow> BurnToken \<Rightarrow> unit result" where
  "checkSignature E rootSecret payloadValue signatureValue burnVerifier burnToken =
     (case ticketSignature rootSecret (''v1.'' @ payloadValue) of
        Inl e \<Rightarrow> Inl e
      | Inr expectedSignature \<Rightarrow> (case b64Decode signatureValue of
          Inl e \<Rightarrow> Inl (Sentinel ErrTicketInvalid)
        | Inr signature \<Rightarrow>
            if signature \<noteq> expectedSignature then Inl (Sentinel ErrTicketInvalid)
            else case burnTokenVerifier rootSecret burnToken of
              Inl e \<Rightarrow> Inl e
            | Inr expectedVerifier \<Rightarrow>
                if burnVerifier \<noteq> expectedVerifier then Inl (Sentinel ErrTicketInvalid)
                else Inr ()))"

definition verifyTicket ::
  "'b env \<Rightarrow> string \<Rightarrow> NoteID \<Rightarrow> BurnToken \<Rightarrow> 'b world \<Rightarrow> (TicketData \<times> bytes) result \<times> 'b world" where
  "verifyTicket E ticket pathID burnToken w =
     (case decodeTicket E ticket of
        Inl e \<Rightarrow> (Inl e, w)
      | Inr (payloadValue, signatureValue, data) \<Rightarrow>
          (let (now, w1) = s_now E w
           in case validateTicketPayload data pathID now of
                Inl e \<Rightarrow> (Inl e, w1)
              | Inr burnVerifier \<Rightarrow>
                  (case db_View (db E) (\<lambda>st. getRootKey E (root_keys_b st)) w1 of
                     (Inl e, w2) \<Rightarrow> (Inl e, w2)
                   | (Inr rootKey, w2) \<Rightarrow>
                       (case checkSignature E (rk_Secret rootKey) payloadValue signatureValue
                               burnVerifier burnToken of
                          Inl e \<Rightarrow> (Inl e, w2)
                        | Inr _ \<Rightarrow> (Inr (data, burnVerifier), w2)))))"

section \<open>Lemmas\<close>

lemma ticket_constants [go_simps]:
  "maxTicketLen = 512" "minNoteLifetime = 3600000000000" "maxNoteLifetime = 1209600000000000"
  "ticketClockSkew = 60000000000" "ticketTimeout = 900000000000"
  by (simp_all add: maxTicketLen_def minNoteLifetime_def maxNoteLifetime_def ticketClockSkew_def
      ticketTimeout_def duration_values)

lemma validateTicketPayload_Inr:
  assumes "validateTicketPayload d pid now = Inr v"
  shows "td_V d = 1" "td_ID d = pid" "td_Exp d \<noteq> 0" "td_IssuedAt d \<noteq> 0"
    "td_IssuedAt d \<le> now + ticketClockSkew" "now \<le> td_Exp d"
    "td_Exp d - td_IssuedAt d \<le> ticketTimeout" "b64Decode (td_BurnVerifier d) = Inr v" "length v = 32"
proof -
  have *: "td_V d = 1 \<and> td_ID d = pid \<and> td_Exp d \<noteq> 0 \<and> td_IssuedAt d \<noteq> 0 \<and>
    td_IssuedAt d \<le> now + ticketClockSkew \<and> now \<le> td_Exp d \<and>
    time_Sub (td_Exp d) (td_IssuedAt d) \<le> ticketTimeout \<and> b64Decode (td_BurnVerifier d) = Inr v \<and> length v = 32"
    using assms
    by (auto simp: validateTicketPayload_def time_defs burnVerifierLen_def not_less
        split: if_splits sum.splits)
  then show "td_V d = 1" "td_ID d = pid" "td_Exp d \<noteq> 0" "td_IssuedAt d \<noteq> 0"
    "td_IssuedAt d \<le> now + ticketClockSkew" "now \<le> td_Exp d" "b64Decode (td_BurnVerifier d) = Inr v"
    "length v = 32"
    by blast+
  have "minInt64 \<le> ticketTimeout" "ticketTimeout < maxInt64"
    by (simp_all add: go_simps minInt64_def maxInt64_def)
  with * show "td_Exp d - td_IssuedAt d \<le> ticketTimeout"
    using time_Sub_le_iff by blast
qed

lemma validateTicketPayload_ok:
  assumes "td_V d = 1" "td_ID d = pid" "td_Exp d \<noteq> 0" "td_IssuedAt d \<noteq> 0"
    "td_IssuedAt d \<le> now + ticketClockSkew" "now \<le> td_Exp d"
    "td_Exp d - td_IssuedAt d \<le> ticketTimeout" "td_BurnVerifier d = b64Encode v" "length v = 32"
  shows "validateTicketPayload d pid now = Inr v"
proof -
  have "minInt64 \<le> ticketTimeout" "ticketTimeout < maxInt64"
    by (simp_all add: go_simps minInt64_def maxInt64_def)
  with assms(7) have "time_Sub (td_Exp d) (td_IssuedAt d) \<le> ticketTimeout"
    using time_Sub_le_iff by blast
  with assms show ?thesis
    by (simp add: validateTicketPayload_def time_defs burnVerifierLen_def b64Decode_b64Encode_length)
qed

lemma decodeTicket_Inr:
  assumes "decodeTicket E t = Inr (pv, sv, d)"
  shows "t = ''v1.'' @ pv @ ''.'' @ sv" "length t \<le> maxTicketLen"
    "\<exists>p. b64Decode pv = Inr p \<and> unmarshalTicket p = Inr d"
  using assms
  by (auto simp: decodeTicket_def not_less split: if_splits option.splits sum.splits dest!: Cut_Some)

lemma decodeTicket_append:
  assumes "p \<noteq> []" "unmarshalTicket p = Inr d" "sv \<noteq> []"
    and "length (''v1.'' @ b64Encode p @ ''.'' @ sv) \<le> maxTicketLen"
  shows "decodeTicket E (''v1.'' @ b64Encode p @ ''.'' @ sv) = Inr (b64Encode p, sv, d)"
proof -
  have "Cut (''v1'' @ CHR ''.'' # (b64Encode p @ ''.'' @ sv)) (CHR ''.'') = Some (''v1'', b64Encode p @ ''.'' @ sv)"
    by (rule Cut_append) simp
  moreover have "Cut (b64Encode p @ CHR ''.'' # sv) (CHR ''.'') = Some (b64Encode p, sv)"
    by (rule Cut_append) (rule b64Encode_not_dot)
  moreover have "HasPrefix (''v1.'' @ b64Encode p @ ''.'' @ sv) ''v1.''"
    by (rule HasPrefix_append)
  ultimately show ?thesis
    using assms by (simp add: decodeTicket_def b64Decode_b64Encode)
qed

lemma verifyTicket_Inr:
  assumes "verifyTicket E t pid tok w = (Inr (d, v), w')"
  obtains pv sv k where "decodeTicket E t = Inr (pv, sv, d)"
    "validateTicketPayload d pid (clock E (steps w)) = Inr v"
    "getRootKey E (root_keys_b (store w)) = Inr k"
    "checkSignature E (rk_Secret k) pv sv v tok = Inr ()"
    "store w' = store w" "steps w' = steps w + 2"
  using assms
  by (auto simp: verifyTicket_def s_now_def split: sum.splits prod.splits dest!: db_View_Inr)

lemma verifyTicket_store [simp]: "store (snd (verifyTicket E t pid tok w)) = store w"
  by (auto simp: verifyTicket_def s_now_def db_View_def Let_def split: sum.split prod.split option.split)

lemma verifyTicket_steps: "steps w \<le> steps (snd (verifyTicket E t pid tok w))"
  by (auto simp: verifyTicket_def s_now_def db_View_def Let_def split: sum.split prod.split option.split)

lemma checkSignature_Inr:
  "checkSignature E root pv sv v tok = Inr () \<Longrightarrow>
   (\<exists>s. ticketSignature root (''v1.'' @ pv) = Inr s \<and> sv = b64Encode s) \<and>
   burnTokenVerifier root tok = Inr v"
  by (auto simp: checkSignature_def split: sum.splits if_splits dest!: b64Decode_sound)

lemma CreateTicket_Inr:
  assumes "CreateTicket E w = (Inr t, w')"
  shows "CreateTicket_tx E (NewBurnToken (random E (steps w))) (clock E (Suc (steps w)))
      (random E (Suc (Suc (steps w)))) (store w) = Inr t" "store w' = store w"
  using assms
  by (auto simp: CreateTicket_def s_random_def s_now_def wrap_err_def split: prod.splits sum.splits
      dest!: db_View_Inr)

lemma CreateTicket_store [simp]: "store (snd (CreateTicket E w)) = store w"
proof -
  obtain r w3 where "db_View (db E) (CreateTicket_tx E (NewBurnToken (random E (steps w)))
      (clock E (Suc (steps w))) (random E (Suc (Suc (steps w))))) (tick (tick w)) = (r, w3)"
    by (cases "db_View (db E) (CreateTicket_tx E (NewBurnToken (random E (steps w)))
      (clock E (Suc (steps w))) (random E (Suc (Suc (steps w))))) (tick (tick w))")
  then show ?thesis
    using db_View_store [of "db E" "CreateTicket_tx E (NewBurnToken (random E (steps w)))
      (clock E (Suc (steps w))) (random E (Suc (Suc (steps w))))" "tick (tick w)"]
    by (simp add: CreateTicket_def s_random_def s_now_def)
qed

lemma CreateTicket_tx_Inr:
  assumes "CreateTicket_tx E tok now rnd st = Inr t"
  obtains k v p sig where "getRootKey E (root_keys_b st) = Inr k"
    "burnTokenVerifier (rk_Secret k) tok = Inr v"
    "tk_Data t = \<lparr>td_V = 1, td_ID = NewNoteID rnd, td_IssuedAt = now,
       td_Exp = now + ticketTimeout, td_BurnVerifier = b64Encode v\<rparr>"
    "marshalTicket (zone E) (tk_Data t) = Inr p"
    "ticketSignature (rk_Secret k) (''v1.'' @ b64Encode p) = Inr sig"
    "tk_Value t = ''v1.'' @ b64Encode p @ ''.'' @ b64Encode sig" "tk_BurnToken t = tok"
  using assms
  by (auto simp: CreateTicket_tx_def signTicket_def time_Add_def Let_def split: sum.splits)

lemma ticketSignature_length:
  "ticketSignature root p = Inr s \<Longrightarrow> length s = 32"
  by (auto simp: ticketSignature_def split: sum.splits)

lemma ticketSignature_Inr: "\<exists>s. ticketSignature root p = Inr s"
  using deriveSubkey_Inr [of root "''ticket signing v1''"] by (auto simp: ticketSignature_def)

section \<open>The gate in front of CreateNote\<close>

text \<open>
  What \<open>CreateNote\<close> needs of ticket verification: it changes nothing, it vouches for the
  identifier and the verifier, it lets no expired ticket through, and what it returns for a
  ticket text does not depend on when or by whom the ticket is presented.
\<close>

locale ticket_gate =
  fixes verify :: "string \<Rightarrow> NoteID \<Rightarrow> BurnToken \<Rightarrow> 'b world \<Rightarrow> (TicketData \<times> bytes) result \<times> 'b world"
    and clk :: "nat \<Rightarrow> time"
  assumes gate_frame: "store (snd (verify t pid tok w)) = store w"
    and gate_steps: "steps w \<le> steps (snd (verify t pid tok w))"
    and gate_id: "verify t pid tok w = (Inr (d, v), w') \<Longrightarrow> td_ID d = pid \<and> length v = 32"
    and gate_time: "verify t pid tok w = (Inr (d, v), w') \<Longrightarrow> clk (steps w) \<le> td_Exp d"
    and gate_data: "verify t pid tok w = (Inr (d, v), w') \<Longrightarrow>
      verify t pid2 tok2 w2 = (Inr (d2, v2), w2') \<Longrightarrow> d = d2 \<and> v = v2"
begin

lemma gate_same_id:
  assumes "verify t pid tok w = (Inr (d, v), w')" "verify t pid2 tok2 w2 = (Inr (d2, v2), w2')"
  shows "pid = pid2"
  using gate_id [OF assms(1)] gate_id [OF assms(2)] gate_data [OF assms] by simp

lemma gate_expired:
  assumes "verify t pid tok w = (Inr (d, v), w')" "td_Exp d < clk (steps w2)"
  shows "\<exists>e. fst (verify t pid2 tok2 w2) = Inl e"
proof (cases "verify t pid2 tok2 w2")
  case (Pair r w3)
  show ?thesis
  proof (cases r)
    case (Inr dv)
    with Pair obtain d2 v2 where *: "verify t pid2 tok2 w2 = (Inr (d2, v2), w3)" by (cases dv) simp
    from gate_time [OF this] gate_data [OF assms(1) this] assms(2) show ?thesis by simp
  qed (use Pair in simp)
qed

end

interpretation gate: ticket_gate "verifyTicket E" "clock E" for E
proof unfold_locales
  fix t pid tok w d v w' pid2 tok2 w2 d2 v2 w2'
  assume a: "verifyTicket E t pid tok w = (Inr (d, v), w')"
  from a obtain pv sv k where dec: "decodeTicket E t = Inr (pv, sv, d)"
    and val: "validateTicketPayload d pid (clock E (steps w)) = Inr v"
    by (rule verifyTicket_Inr)
  note V = validateTicketPayload_Inr [OF val]
  from V show "td_ID d = pid \<and> length v = 32" "clock E (steps w) \<le> td_Exp d" by simp_all
  assume b: "verifyTicket E t pid2 tok2 w2 = (Inr (d2, v2), w2')"
  from b obtain pv2 sv2 where "decodeTicket E t = Inr (pv2, sv2, d2)"
    and val2: "validateTicketPayload d2 pid2 (clock E (steps w2)) = Inr v2"
    by (rule verifyTicket_Inr)
  with dec have "d = d2" by simp
  with V(8) validateTicketPayload_Inr(8) [OF val2] show "d = d2 \<and> v = v2" by simp
qed (simp_all add: verifyTicket_steps)

lemma verify_issued:
  assumes "env_ok E" and "CreateTicket E w = (Inr t, w1)"
    and "root_keys_b (store v) = root_keys_b (store w)" and "beginErr (db E) (Suc (steps v)) = None"
    and "td_IssuedAt (tk_Data t) > 0"
    and "td_IssuedAt (tk_Data t) \<le> clock E (steps v) + Minute" "clock E (steps v) \<le> td_Exp (tk_Data t)"
  shows "\<exists>ver. verifyTicket E (tk_Value t) (td_ID (tk_Data t)) (tk_BurnToken t) v
      = (Inr (tk_Data t, ver), tick (tick v)) \<and>
    td_Exp (tk_Data t) = td_IssuedAt (tk_Data t) + 15 * Minute"
proof -
  let ?d = "tk_Data t"
  from CreateTicket_Inr(1) [OF assms(2)] obtain k ver p sig where
    k: "getRootKey E (root_keys_b (store w)) = Inr k"
    and ver: "burnTokenVerifier (rk_Secret k) (tk_BurnToken t) = Inr ver"
    and d: "td_V ?d = 1" "length (td_ID ?d) = 32" "td_Exp ?d = td_IssuedAt ?d + ticketTimeout"
      "td_BurnVerifier ?d = b64Encode ver"
    and p: "marshalTicket (zone E) ?d = Inr p"
    and sig: "ticketSignature (rk_Secret k) (''v1.'' @ b64Encode p) = Inr sig"
    and val: "tk_Value t = ''v1.'' @ b64Encode p @ ''.'' @ b64Encode sig"
    by (rule CreateTicket_tx_Inr) (metis TicketData.select_convs length_NewNoteID)
  have len: "length ver = 32" "length sig = 32"
    using length_burnTokenVerifier [OF ver] ticketSignature_length [OF sig] by (simp_all add: burnVerifierLen_def)
  then have "wf_ticket ?d" using d by (auto simp: wf_ticket_def)
  then have "length p \<le> 207" using p by (rule length_marshalTicket)
  then have "EncodedLen (length p) \<le> 276" using EncodedLen_le [of "length p"] by linarith
  with len have len_t: "length (''v1.'' @ b64Encode p @ ''.'' @ b64Encode sig) \<le> maxTicketLen"
    by (simp add: length_b64Encode maxTicketLen_def)
  from \<open>wf_ticket ?d\<close> p assms(1) have "p \<noteq> []" "unmarshalTicket p = Inr ?d"
    using unmarshal_marshalTicket [of "zone E"] by auto
  moreover have "b64Encode sig \<noteq> []" using len by auto
  ultimately have dec: "decodeTicket E (tk_Value t) = Inr (b64Encode p, b64Encode sig, ?d)"
    unfolding val by (rule decodeTicket_append) (use len_t in simp)
  have "validateTicketPayload ?d (td_ID ?d) (clock E (steps v)) = Inr ver"
    using assms(5-7) d len by (intro validateTicketPayload_ok) (simp_all add: go_simps)
  moreover have "checkSignature E (rk_Secret k) (b64Encode p) (b64Encode sig) ver (tk_BurnToken t) = Inr ()"
    using sig ver len by (simp add: checkSignature_def b64Decode_b64Encode_length)
  ultimately show ?thesis
    using dec k assms(3,4) d(3)
    by (simp add: verifyTicket_def s_now_def db_View_def Let_def tick_def ticketTimeout_def)
qed

section \<open>A sample ticket\<close>

definition ex_sig :: bytes where
  "ex_sig = projr (ticketSignature ex_bytes (''v1.'' @ b64Encode ex_data))"

definition ex_ticket :: Ticket where
  "ex_ticket = \<lparr>tk_Value = ''v1.'' @ b64Encode ex_data @ ''.'' @ b64Encode ex_sig,
     tk_Data = ex_td, tk_BurnToken = ex_bytes\<rparr>"

lemma ex_ticketSignature: "ticketSignature ex_bytes (''v1.'' @ b64Encode ex_data) = Inr ex_sig"
  using ticketSignature_Inr [of ex_bytes "''v1.'' @ b64Encode ex_data"] by (auto simp: ex_sig_def)

lemma length_ex_ticket: "length (tk_Value ex_ticket) = 283"
  using ticketSignature_length [OF ex_ticketSignature]
  by (simp add: ex_ticket_def length_b64Encode EncodedLen_def length_ex_data)

lemma ex_getRootKey: "getRootKey (ex_env cap clk) [(''root_key'', ex_root)] = Inr ex_rk"
  by (simp add: getRootKey_def mem_bolt_def rootKeyStorageKey_def ex_rk_def ex_time_def IsZero_def)

lemma ex_CreateTicket:
  assumes "clk 1 = ex_time"
  shows "CreateTicket (ex_env cap clk) ex_world = (Inr ex_ticket, ex_world\<lparr>steps := 3\<rparr>)"
proof -
  have d: "\<lparr>td_V = 1, td_ID = ex_bytes, td_IssuedAt = ex_time, td_Exp = ex_time + 15 * Minute,
     td_BurnVerifier = b64Encode (ex_verifier ex_bytes)\<rparr> = ex_td" by (simp add: ex_td_def)
  have sign: "signTicket (ex_env cap clk) ex_bytes ex_td = Inr (tk_Value ex_ticket)"
    using ex_ticketSignature by (simp add: signTicket_def ex_ticket_def)
  have "rk_Secret ex_rk = ex_bytes" by (simp add: ex_rk_def)
  then have "CreateTicket_tx (ex_env cap clk) ex_bytes ex_time (\<lambda>j. CHR ''r'') ex_store = Inr ex_ticket"
    using sign by (simp add: CreateTicket_tx_def ex_store_def ex_getRootKey ex_burnTokenVerifier NewNoteID_def noteIDLen_def
        ex_fillRandom time_Add_def ticketTimeout_def d) (simp add: ex_ticket_def)
  then show ?thesis
    using assms by (simp add: CreateTicket_def s_random_def s_now_def db_View_def NewBurnToken_def burnTokenLen_def
        ex_fillRandom ex_world_def tick_def)
qed

lemma verifyTicket_clock:
  assumes "c (steps v) = clock E (steps v)"
  shows "verifyTicket (E\<lparr>clock := c\<rparr>) t pid tok v = verifyTicket E t pid tok v"
proof -
  have sel: "zone (E\<lparr>clock := c\<rparr>) = zone E" "db (E\<lparr>clock := c\<rparr>) = db E"
    by simp_all
  have ops: "decodeTicket (E\<lparr>clock := c\<rparr>) = decodeTicket E" "checkSignature (E\<lparr>clock := c\<rparr>) = checkSignature E"
    "getRootKey (E\<lparr>clock := c\<rparr>) = getRootKey E"
    unfolding decodeTicket_def checkSignature_def getRootKey_def sel by (rule refl)+
  have "s_now (E\<lparr>clock := c\<rparr>) v = s_now E v" using assms by (simp add: s_now_def)
  then show ?thesis unfolding verifyTicket_def sel ops by (rule ssubst) (rule refl)
qed

lemma ex_verifyTicket:
  assumes "root_keys_b (store v) = [(''root_key'', ex_root)]" "clk (steps v) = ex_time"
  shows "verifyTicket (ex_env cap clk) (tk_Value ex_ticket) ex_bytes ex_bytes v
    = (Inr (ex_td, ex_verifier ex_bytes), tick (tick v))"
proof -
  let ?E = "ex_env cap (\<lambda>_. ex_time)"
  have sel: "td_ID (tk_Data ex_ticket) = ex_bytes" "tk_BurnToken ex_ticket = ex_bytes"
    "tk_Data ex_ticket = ex_td"
    by (simp_all add: ex_ticket_def ex_td_def)
  from verify_issued [OF ex_env_ok ex_CreateTicket, of "\<lambda>_. ex_time" v cap] assms(1) obtain ver where
    r: "verifyTicket ?E (tk_Value ex_ticket) ex_bytes ex_bytes v = (Inr (ex_td, ver), tick (tick v))"
    by (auto simp: sel length_ex_ticket go_simps ex_td_def ex_time_def ex_world_def ex_store_def mem_bolt_def)
  then obtain sv where "validateTicketPayload ex_td ex_bytes ex_time = Inr ver"
    by (rule verifyTicket_Inr) simp
  then have "b64Decode (b64Encode (ex_verifier ex_bytes)) = Inr ver"
    using validateTicketPayload_Inr(8) [of ex_td ex_bytes ex_time ver] by (simp add: ex_td_def)
  then have "ver = ex_verifier ex_bytes"
    by (simp add: b64Decode_b64Encode_length [OF length_ex_verifier])
  moreover have "ex_env cap clk = ?E\<lparr>clock := clk\<rparr>" by (simp add: ex_env_def)
  ultimately show ?thesis
    using r verifyTicket_clock [of clk v ?E] assms(2) by (simp only: ex_env_simps)
qed

section \<open>Properties\<close>

text \<open>C8: a ticket that verifies carries the server's HMAC over its own payload, names the
  identifier in the path, was bound to the presented burn token, is not expired, and expires
  within 16 minutes (the 15-minute timeout and one minute of clock skew); verification
  changes nothing in the database.\<close>

theorem verifyTicket_sound:
  assumes "verifyTicket E t pid tok w = (Inr (d, v), w')"
  shows "store w' = store w \<and>
    (\<exists>k p sig. getRootKey E (root_keys_b (store w)) = Inr k \<and>
       t = ''v1.'' @ b64Encode p @ ''.'' @ b64Encode sig \<and>
       ticketSignature (rk_Secret k) (''v1.'' @ b64Encode p) = Inr sig \<and>
       unmarshalTicket p = Inr d \<and>
       burnTokenVerifier (rk_Secret k) tok = Inr v) \<and>
    td_V d = 1 \<and> td_ID d = pid \<and> td_BurnVerifier d = b64Encode v \<and> length v = 32 \<and>
    clock E (steps w) \<le> td_Exp d \<and> td_Exp d \<le> clock E (steps w) + 16 * Minute"
proof -
  from assms obtain pv sv k where dec: "decodeTicket E t = Inr (pv, sv, d)"
    and val: "validateTicketPayload d pid (clock E (steps w)) = Inr v"
    and k: "getRootKey E (root_keys_b (store w)) = Inr k"
    and chk: "checkSignature E (rk_Secret k) pv sv v tok = Inr ()"
    and st: "store w' = store w"
    by (rule verifyTicket_Inr)
  note V = validateTicketPayload_Inr [OF val] and D = decodeTicket_Inr [OF dec]
  from D(3) obtain p where p: "pv = b64Encode p" "unmarshalTicket p = Inr d"
    by (auto dest: b64Decode_sound)
  from checkSignature_Inr [OF chk] obtain sig where
    "ticketSignature (rk_Secret k) (''v1.'' @ pv) = Inr sig" "sv = b64Encode sig"
    "burnTokenVerifier (rk_Secret k) tok = Inr v" by auto
  moreover have "td_Exp d \<le> clock E (steps w) + 16 * Minute"
    using V(5,7) by (simp add: go_simps)
  ultimately show ?thesis
    using st k p D(1) V b64Decode_sound [OF V(8)] by blast
qed

theorem verifyTicket_sound_witness:
  "\<exists>d v w'. verifyTicket (ex_env None (\<lambda>_. ex_time)) (tk_Value ex_ticket) ex_bytes ex_bytes ex_world = (Inr (d, v), w') \<and>
     td_ID d = ex_bytes \<and> td_Exp d \<le> ex_time + 16 * Minute"
proof -
  have r: "verifyTicket (ex_env None (\<lambda>_. ex_time)) (tk_Value ex_ticket) ex_bytes ex_bytes ex_world
      = (Inr (ex_td, ex_verifier ex_bytes), tick (tick ex_world))"
    by (rule ex_verifyTicket) (simp_all add: ex_world_def ex_store_def)
  from verifyTicket_sound [OF r] r show ?thesis by auto
qed

text \<open>C9: a ticket the server issues verifies, with the burn token issued beside it, against
  any database holding the same root key, from one minute before its issue (by the
  verifier's clock) until its expiry.\<close>

theorem CreateTicket_verifies:
  assumes "env_ok E" and "CreateTicket E w = (Inr t, w1)"
    and "root_keys_b (store v) = root_keys_b (store w)" and "beginErr (db E) (Suc (steps v)) = None"
    and "td_IssuedAt (tk_Data t) > 0"
    and "td_IssuedAt (tk_Data t) \<le> clock E (steps v) + Minute" "clock E (steps v) \<le> td_Exp (tk_Data t)"
  shows "\<exists>ver. verifyTicket E (tk_Value t) (td_ID (tk_Data t)) (tk_BurnToken t) v
      = (Inr (tk_Data t, ver), tick (tick v)) \<and>
    td_Exp (tk_Data t) = td_IssuedAt (tk_Data t) + 15 * Minute"
  using assms by (rule verify_issued)

theorem CreateTicket_verifies_witness:
  "\<exists>ver. verifyTicket (ex_env None (\<lambda>_. ex_time)) (tk_Value ex_ticket) (td_ID (tk_Data ex_ticket))
      (tk_BurnToken ex_ticket) ex_world = (Inr (tk_Data ex_ticket, ver), tick (tick ex_world))"
proof -
  have "\<exists>ver. verifyTicket (ex_env None (\<lambda>_. ex_time)) (tk_Value ex_ticket) (td_ID (tk_Data ex_ticket))
      (tk_BurnToken ex_ticket) ex_world = (Inr (tk_Data ex_ticket, ver), tick (tick ex_world)) \<and>
    td_Exp (tk_Data ex_ticket) = td_IssuedAt (tk_Data ex_ticket) + 15 * Minute"
    by (rule CreateTicket_verifies [OF ex_env_ok ex_CreateTicket])
      (simp_all add: go_simps, simp_all add: ex_ticket_def ex_td_def ex_time_def mem_bolt_def go_simps)
  then show ?thesis by blast
qed

end
