(* ===== verification/NoteService.thy ===== *)
theory NoteService
  imports Ticket
begin

text \<open>
  \<open>note_service.go\<close>: storing a note under a verified ticket, opening (and thereby burning)
  it, and the cleanup of expired notes and used-ticket markers. Each operation threads the
  \<open>world\<close>; each \<open>db.Update\<close> callback is a function on the store, with the suffix \<open>_tx\<close>.
\<close>

section \<open>State\<close>

record Note =
  nt_Payload :: bytes
  nt_Metadata :: Metadata

record NoteService =
  svc_maxLifetime :: duration
  svc_maxSize :: int

definition NewNoteService :: "int \<Rightarrow> NoteService" where
  "NewNoteService maxSize = \<lparr>svc_maxLifetime = maxNoteLifetime, svc_maxSize = maxSize\<rparr>"

section \<open>Checks\<close>

definition normalizeLifetime :: "NoteService \<Rightarrow> duration \<Rightarrow> duration result" where
  "normalizeLifetime S lifetime =
     (if lifetime < minNoteLifetime \<or> lifetime > svc_maxLifetime S
      then Inl (Sentinel ErrLifetimeInvalid) else Inr lifetime)"

definition validMetadata :: "NoteService \<Rightarrow> Metadata \<Rightarrow> bool" where
  "validMetadata S m =
     (if IsZero (md_CreatedAt m) \<or> IsZero (md_ExpiresAt m) then False
      else if After (md_CreatedAt m) (md_ExpiresAt m) \<or>
        time_Sub (md_ExpiresAt m) (md_CreatedAt m) > svc_maxLifetime S then False
      else if length (md_BurnVerifier m) \<noteq> burnVerifierLen then False
      else True)"

definition isStorageFull :: "'a result \<Rightarrow> bool" where
  "isStorageFull r =
     (case r of Inl err \<Rightarrow> errors_Is err ErrStorageFull \<or> errors_Is err ErrMaxSizeReached
      | Inr _ \<Rightarrow> False)"

definition deleteNoteRecords :: "'b env \<Rightarrow> 'b store \<Rightarrow> NoteID \<Rightarrow> 'b store result" where
  "deleteNoteRecords E st nid =
     (case bDelete (db E) (payloads_b st) nid of
        Inl e \<Rightarrow> Inl (Wrap ''error deleting payload: %w'' e)
      | Inr payloads \<Rightarrow> (case bDelete (db E) (metadata_b st) nid of
          Inl e \<Rightarrow> Inl (Wrap ''error deleting metadata: %w'' e)
        | Inr metadata \<Rightarrow> Inr (st\<lparr>payloads_b := payloads, metadata_b := metadata\<rparr>)))"

section \<open>Cleanup\<close>

text \<open>\<open>copy(id[:], idBytes)\<close> into a zeroed \<open>NoteID\<close>.\<close>

definition copyNoteID :: "bytes \<Rightarrow> NoteID" where
  "copyNoteID idBytes = take noteIDLen (idBytes @ replicate noteIDLen CHR 0x00)"

definition staleMetadata :: "'b env \<Rightarrow> NoteService \<Rightarrow> time \<Rightarrow> bytes \<Rightarrow> bool" where
  "staleMetadata E S now v =
     (case unmarshalMetadata v of Inl e \<Rightarrow> True
      | Inr item \<Rightarrow> \<not> validMetadata S item \<or> Before (md_ExpiresAt item) now)"

definition staleMarker :: "'b env \<Rightarrow> time \<Rightarrow> bytes \<Rightarrow> bool" where
  "staleMarker E now v =
     (case unmarshalMarker v of Inl e \<Rightarrow> True
      | Inr marker \<Rightarrow> Before (um_ExpiresAt marker) now)"

fun deleteEach :: "'b env \<Rightarrow> bytes list \<Rightarrow> 'b store \<Rightarrow> 'b store result" where
  "deleteEach E [] st = Inr st"
| "deleteEach E (idBytes # rest) st =
     (case deleteNoteRecords E st (copyNoteID idBytes) of
        Inl e \<Rightarrow> Inl e | Inr st' \<Rightarrow> deleteEach E rest st')"

fun deleteIgnoringErrors :: "'b env \<Rightarrow> bytes list \<Rightarrow> 'b \<Rightarrow> 'b" where
  "deleteIgnoringErrors E [] b = b"
| "deleteIgnoringErrors E (key # rest) b =
     (case bDelete (db E) b key of
        Inl _ \<Rightarrow> deleteIgnoringErrors E rest b | Inr b' \<Rightarrow> deleteIgnoringErrors E rest b')"

definition Cleanup_tx :: "'b env \<Rightarrow> NoteService \<Rightarrow> time \<Rightarrow> 'b store \<Rightarrow> (unit \<times> 'b store) result" where
  "Cleanup_tx E S now st =
     (let deleteIDs = map fst (filter (\<lambda>(k, v). staleMetadata E S now v) (bForEach (db E) (metadata_b st)))
      in case deleteEach E deleteIDs st of
           Inl e \<Rightarrow> Inl e
         | Inr st' \<Rightarrow>
             (let expiredTickets =
                    map fst (filter (\<lambda>(k, v). staleMarker E now v) (bForEach (db E) (used_tickets_b st')))
              in Inr ((), st'\<lparr>used_tickets_b := deleteIgnoringErrors E expiredTickets (used_tickets_b st')\<rparr>)))"

definition Cleanup :: "'b env \<Rightarrow> NoteService \<Rightarrow> 'b world \<Rightarrow> unit result \<times> 'b world" where
  "Cleanup E S w =
     (let (now, w1) = s_now E w in db_Update (db E) (Cleanup_tx E S now) w1)"

definition StartupMaintenance :: "'b env \<Rightarrow> NoteService \<Rightarrow> 'b world \<Rightarrow> unit result \<times> 'b world" where
  "StartupMaintenance E S w =
     (case EnsureRootKeys E w of
        (Inl e, w1) \<Rightarrow> (Inl e, w1)
      | (Inr _, w1) \<Rightarrow> (case Cleanup E S w1 of
          (Inl e, w2) \<Rightarrow> (Inl e, w2)
        | (Inr _, w2) \<Rightarrow> (Inr (), w2)))"

section \<open>CreateNote\<close>

text \<open>
  What \<open>CreateNote\<close> has computed when it starts its write transaction: the identifier and
  the three values it stores. Everything before is \<open>prepareNote\<close>, the rest \<open>storeNote\<close>;
  other requests and the cleanup job can run in between.
\<close>

record prepared =
  pr_ID :: NoteID
  pr_Metadata :: bytes
  pr_Payload :: bytes
  pr_Marker :: bytes

definition prepareNote ::
  "'b env \<Rightarrow> NoteService \<Rightarrow> NoteID \<Rightarrow> string \<Rightarrow> BurnToken \<Rightarrow> bytes \<Rightarrow> duration \<Rightarrow> 'b world \<Rightarrow>
   prepared result \<times> 'b world" where
  "prepareNote E S pathID ticket burnToken payload lifetime w =
     (if length ticket > maxTicketLen then (Inl (Sentinel ErrTicketInvalid), w)
      else if length payload = 0 then (Inl (Sentinel ErrPayloadEmpty), w)
      else if int (length payload) > svc_maxSize S then (Inl (Sentinel ErrPayloadTooLarge), w)
      else case normalizeLifetime S lifetime of
        Inl e \<Rightarrow> (Inl e, w)
      | Inr lifetime \<Rightarrow> (case verifyTicket E ticket pathID burnToken w of
          (Inl e, w1) \<Rightarrow> (Inl e, w1)
        | (Inr (ticketData, burnVerifier), w1) \<Rightarrow>
            (let (now, w2) = s_now E w1;
                 metadata = \<lparr>md_BurnVerifier = burnVerifier, md_CreatedAt = now,
                   md_ExpiresAt = time_Add now lifetime\<rparr>
             in case marshalMetadata (zone E) metadata of
                  Inl e \<Rightarrow> (Inl (Wrap ''error marshaling metadata: %w'' e), w2)
                | Inr metadataBytes \<Rightarrow>
                    (case marshalMarker (zone E) \<lparr>um_ExpiresAt = td_Exp ticketData\<rparr> of
                       Inl e \<Rightarrow> (Inl (Wrap ''error marshaling used-ticket marker: %w'' e), w2)
                     | Inr markerBytes \<Rightarrow>
                         (Inr \<lparr>pr_ID = td_ID ticketData, pr_Metadata = metadataBytes,
                            pr_Payload = payload, pr_Marker = markerBytes\<rparr>, w2)))))"

definition create_tx :: "'b env \<Rightarrow> prepared \<Rightarrow> 'b store \<Rightarrow> (unit \<times> 'b store) result" where
  "create_tx E p st =
     (let nid = pr_ID p
      in if bGet (db E) (used_tickets_b st) nid \<noteq> None then Inl (Sentinel ErrTicketUnusable)
         else if bGet (db E) (metadata_b st) nid \<noteq> None \<or> bGet (db E) (payloads_b st) nid \<noteq> None
         then Inl (Sentinel ErrTicketUnusable)
         else case bPut (db E) (metadata_b st) nid (pr_Metadata p) of
           Inl e \<Rightarrow> Inl (Wrap ''error saving metadata: %w'' e)
         | Inr metadata \<Rightarrow> (case bPut (db E) (payloads_b st) nid (pr_Payload p) of
             Inl e \<Rightarrow> Inl (Wrap ''error saving note payload: %w'' e)
           | Inr payloads \<Rightarrow> (case bPut (db E) (used_tickets_b st) nid (pr_Marker p) of
               Inl e \<Rightarrow> Inl (Wrap ''error saving used-ticket marker: %w'' e)
             | Inr usedTickets \<Rightarrow>
                 Inr ((), st\<lparr>metadata_b := metadata, payloads_b := payloads,
                   used_tickets_b := usedTickets\<rparr>))))"

definition createOutcome :: "NoteID \<Rightarrow> unit result \<times> 'b world \<Rightarrow> NoteID result \<times> 'b world" where
  "createOutcome nid rw =
     (case rw of
        (Inl err, w) \<Rightarrow>
          if errors_Is err ErrMaxSizeReached then (Inl (Sentinel ErrStorageFull), w) else (Inl err, w)
      | (Inr _, w) \<Rightarrow> (Inr nid, w))"

definition storeNote :: "'b env \<Rightarrow> NoteService \<Rightarrow> prepared \<Rightarrow> 'b world \<Rightarrow> NoteID result \<times> 'b world" where
  "storeNote E S p w =
     (let (r1, w1) = db_Update (db E) (create_tx E p) w
      in if isStorageFull r1
         then (case Cleanup E S w1 of
                 (Inl cleanupErr, w2) \<Rightarrow> (Inl cleanupErr, w2)
               | (Inr _, w2) \<Rightarrow> createOutcome (pr_ID p) (db_Update (db E) (create_tx E p) w2))
         else createOutcome (pr_ID p) (r1, w1))"

definition CreateNote ::
  "'b env \<Rightarrow> NoteService \<Rightarrow> NoteID \<Rightarrow> string \<Rightarrow> BurnToken \<Rightarrow> bytes \<Rightarrow> duration \<Rightarrow> 'b world \<Rightarrow>
   NoteID result \<times> 'b world" where
  "CreateNote E S pathID ticket burnToken payload lifetime w =
     (case prepareNote E S pathID ticket burnToken payload lifetime w of
        (Inl e, w1) \<Rightarrow> (Inl e, w1)
      | (Inr p, w1) \<Rightarrow> storeNote E S p w1)"

section \<open>OpenNote\<close>

definition OpenNote_tx ::
  "'b env \<Rightarrow> NoteService \<Rightarrow> NoteID \<Rightarrow> BurnToken \<Rightarrow> time \<Rightarrow> 'b store \<Rightarrow> (Note option \<times> 'b store) result" where
  "OpenNote_tx E S nid burnToken now st =
     (case (bGet (db E) (metadata_b st) nid, bGet (db E) (payloads_b st) nid) of
        (Some metadataBytes, Some payload) \<Rightarrow>
          (let burn = (\<lambda>note. case deleteNoteRecords E st nid of
                         Inl e \<Rightarrow> Inl e | Inr st' \<Rightarrow> Inr (note, st'))
           in case unmarshalMetadata metadataBytes of
                Inl e \<Rightarrow> burn None
              | Inr metadata \<Rightarrow>
                  if \<not> validMetadata S metadata then burn None
                  else case getRootKey E (root_keys_b st) of
                    Inl e \<Rightarrow> Inl e
                  | Inr rootKey \<Rightarrow> (case burnTokenVerifier (rk_Secret rootKey) burnToken of
                      Inl e \<Rightarrow> Inl e
                    | Inr verifier \<Rightarrow>
                        if verifier \<noteq> md_BurnVerifier metadata then Inr (None, st)
                        else if Before (md_ExpiresAt metadata) now then burn None
                        else burn (Some \<lparr>nt_Payload = payload, nt_Metadata = metadata\<rparr>)))
      | _ \<Rightarrow> Inr (None, st))"

definition OpenNote ::
  "'b env \<Rightarrow> NoteService \<Rightarrow> NoteID \<Rightarrow> BurnToken \<Rightarrow> 'b world \<Rightarrow> Note result \<times> 'b world" where
  "OpenNote E S nid burnToken w =
     (let (now, w1) = s_now E w
      in case db_Update (db E) (OpenNote_tx E S nid burnToken now) w1 of
           (Inl e, w2) \<Rightarrow> (Inl e, w2)
         | (Inr None, w2) \<Rightarrow> (Inl (Sentinel ErrNoteOpenFailed), w2)
         | (Inr (Some note), w2) \<Rightarrow> (Inr note, w2))"

end
