(* ===== verification/NoteProofs.thy ===== *)
theory NoteProofs
  imports NoteService
begin

text \<open>
  What the operations of \<open>NoteService\<close> do to the store, transaction by transaction and then
  operation by operation, and the invariant they keep.
\<close>

named_theorems tx_facts \<open>effect of a committed transaction callback\<close>

section \<open>Deletions\<close>

lemma deleteNoteRecords_Inr:
  assumes "bolt_ok (db E)" "deleteNoteRecords E st nid = Inr st'"
  shows "bGet (db E) (metadata_b st') = (bGet (db E) (metadata_b st))(nid := None)"
    "bGet (db E) (payloads_b st') = (bGet (db E) (payloads_b st))(nid := None)"
    "config_b st' = config_b st" "root_keys_b st' = root_keys_b st" "used_tickets_b st' = used_tickets_b st"
  using assms(2) bGet_bDelete [OF assms(1)]
  by (auto simp: deleteNoteRecords_def split: sum.splits)

lemma deleteEach_Inr:
  assumes "bolt_ok (db E)"
  shows "deleteEach E ids st = Inr st' \<Longrightarrow>
    bGet (db E) (metadata_b st') = (\<lambda>k. if k \<in> copyNoteID ` set ids then None else bGet (db E) (metadata_b st) k) \<and>
    bGet (db E) (payloads_b st') = (\<lambda>k. if k \<in> copyNoteID ` set ids then None else bGet (db E) (payloads_b st) k) \<and>
    config_b st' = config_b st \<and> root_keys_b st' = root_keys_b st \<and> used_tickets_b st' = used_tickets_b st"
proof (induction ids arbitrary: st)
  case (Cons i ids)
  then obtain st1 where st1: "deleteNoteRecords E st (copyNoteID i) = Inr st1" and "deleteEach E ids st1 = Inr st'"
    by (auto split: sum.splits)
  with Cons.IH [of st1] deleteNoteRecords_Inr [OF assms st1] show ?case
    by (auto simp: fun_eq_iff)
qed simp

lemma deleteIgnoringErrors_get:
  assumes "bolt_ok (db E)"
  shows "(k \<notin> set ks \<longrightarrow> bGet (db E) (deleteIgnoringErrors E ks b) k = bGet (db E) b k) \<and>
    (bGet (db E) (deleteIgnoringErrors E ks b) k = None \<or>
     bGet (db E) (deleteIgnoringErrors E ks b) k = bGet (db E) b k)"
proof (induction ks arbitrary: b)
  case (Cons a ks)
  show ?case
  proof (cases "bDelete (db E) b a")
    case (Inl e)
    with Cons.IH [of b] show ?thesis by simp
  next
    case (Inr b')
    with Cons.IH [of b'] bGet_bDelete [OF assms Inr] show ?thesis by (auto split: if_splits)
  qed
qed simp

lemma deleteIgnoringErrors_all:
  assumes "bolt_ok (db E)" "\<forall>b k. \<exists>b'. bDelete (db E) b k = Inr b'"
  shows "k \<in> set ks \<Longrightarrow> bGet (db E) (deleteIgnoringErrors E ks b) k = None"
proof (induction ks arbitrary: b)
  case (Cons i ks)
  obtain b' where b': "bDelete (db E) b i = Inr b'" using assms(2) by blast
  show ?case
  proof (cases "k \<in> set ks")
    case True
    with Cons.IH b' show ?thesis by simp
  next
    case False
    with Cons.prems have "k = i" by simp
    with b' False bGet_bDelete [OF assms(1) b'] deleteIgnoringErrors_get [OF assms(1), of k ks b']
    show ?thesis by simp
  qed
qed simp

lemma copyNoteID_id [simp]: "length k = 32 \<Longrightarrow> copyNoteID k = k"
  by (simp add: copyNoteID_def noteIDLen_def)

lemma length_copyNoteID [simp]: "length (copyNoteID k) = 32"
  by (simp add: copyNoteID_def noteIDLen_def)

lemma filtered_keys:
  assumes "bolt_ok B"
  shows "set (map fst (filter (\<lambda>(k, v). P v) (bForEach B b))) = {k. \<exists>v. bGet B b k = Some v \<and> P v}"
proof -
  have "(k, v) \<in> set (bForEach B b) \<longleftrightarrow> bGet B b k = Some v" for k v
    using map_of_eq_Some_iff [OF distinct_bForEach [OF assms, of b], of k v] map_of_bForEach [OF assms, of b]
    by auto
  then show ?thesis by force
qed

section \<open>Cleanup\<close>

definition keys32 :: "'b env \<Rightarrow> 'b \<Rightarrow> bool" where
  "keys32 E b \<longleftrightarrow> (\<forall>k. bGet (db E) b k \<noteq> None \<longrightarrow> length k = 32)"

definition stale_at :: "'b env \<Rightarrow> NoteService \<Rightarrow> time \<Rightarrow> 'b store \<Rightarrow> NoteID \<Rightarrow> bool" where
  "stale_at E S now st k \<longleftrightarrow> (\<exists>v. bGet (db E) (metadata_b st) k = Some v \<and> staleMetadata E S now v)"

lemma Cleanup_tx_Inr:
  assumes "bolt_ok (db E)" "Cleanup_tx E S now st = Inr (u, st')" "keys32 E (metadata_b st)"
  shows "bGet (db E) (metadata_b st') k = (if stale_at E S now st k then None else bGet (db E) (metadata_b st) k)"
    "bGet (db E) (payloads_b st') k = (if stale_at E S now st k then None else bGet (db E) (payloads_b st) k)"
    "config_b st' = config_b st" "root_keys_b st' = root_keys_b st"
proof -
  define ids where
    "ids = map fst (filter (\<lambda>(k, v). staleMetadata E S now v) (bForEach (db E) (metadata_b st)))"
  have ids: "set ids = {k. stale_at E S now st k}"
    unfolding ids_def filtered_keys [OF assms(1)] stale_at_def ..
  then have "copyNoteID ` set ids = {k. stale_at E S now st k}"
    using assms(3) by (force simp: keys32_def stale_at_def image_iff)
  moreover from assms(2) obtain st1 where "deleteEach E ids st = Inr st1" "metadata_b st' = metadata_b st1"
    "payloads_b st' = payloads_b st1" "config_b st' = config_b st1" "root_keys_b st' = root_keys_b st1"
    by (auto simp: Cleanup_tx_def ids_def Let_def split: sum.splits)
  ultimately show "bGet (db E) (metadata_b st') k = (if stale_at E S now st k then None else bGet (db E) (metadata_b st) k)"
    "bGet (db E) (payloads_b st') k = (if stale_at E S now st k then None else bGet (db E) (payloads_b st) k)"
    "config_b st' = config_b st" "root_keys_b st' = root_keys_b st"
    using deleteEach_Inr [OF assms(1), of ids st st1] by simp_all
qed

text \<open>Without any assumption on the keys, \<open>Cleanup\<close> only ever removes entries; a marker that
  is not stale stays.\<close>

lemma Cleanup_tx_removes:
  assumes "bolt_ok (db E)" "Cleanup_tx E S now st = Inr (u, st')"
  shows "bGet (db E) (metadata_b st') k \<in> {None, bGet (db E) (metadata_b st) k}"
    "bGet (db E) (payloads_b st') k \<in> {None, bGet (db E) (payloads_b st) k}"
    "bGet (db E) (used_tickets_b st') k \<in> {None, bGet (db E) (used_tickets_b st) k}"
    "bGet (db E) (used_tickets_b st) k = Some v \<Longrightarrow> \<not> staleMarker E now v \<Longrightarrow>
       bGet (db E) (used_tickets_b st') k = Some v"
    "root_keys_b st' = root_keys_b st"
proof -
  from assms(2) obtain ids st1 ks where d: "deleteEach E ids st = Inr st1"
    and ks: "ks = map fst (filter (\<lambda>(k, v). staleMarker E now v) (bForEach (db E) (used_tickets_b st1)))"
    and st': "st' = st1\<lparr>used_tickets_b := deleteIgnoringErrors E ks (used_tickets_b st1)\<rparr>"
    by (auto simp: Cleanup_tx_def Let_def split: sum.splits)
  note D = deleteEach_Inr [OF assms(1) d] and K = deleteIgnoringErrors_get [OF assms(1), of k ks "used_tickets_b st"]
  from D st' show "bGet (db E) (metadata_b st') k \<in> {None, bGet (db E) (metadata_b st) k}"
    "bGet (db E) (payloads_b st') k \<in> {None, bGet (db E) (payloads_b st) k}"
    "root_keys_b st' = root_keys_b st" by auto
  from D K st' show "bGet (db E) (used_tickets_b st') k \<in> {None, bGet (db E) (used_tickets_b st) k}" by simp
  assume "bGet (db E) (used_tickets_b st) k = Some v" "\<not> staleMarker E now v"
  moreover then have "k \<notin> set ks"
    unfolding ks filtered_keys [OF assms(1)] using D by simp
  ultimately show "bGet (db E) (used_tickets_b st') k = Some v"
    using D K st' by simp
qed

lemma Cleanup_tx_markers:
  assumes "bolt_ok (db E)" "Cleanup_tx E S now st = Inr (u, st')"
    and "\<forall>b k. \<exists>b'. bDelete (db E) b k = Inr b'"
    and "bGet (db E) (used_tickets_b st) k = Some v" "staleMarker E now v"
  shows "bGet (db E) (used_tickets_b st') k = None"
proof -
  from assms(2) obtain ids st1 ks where d: "deleteEach E ids st = Inr st1"
    and ks: "ks = map fst (filter (\<lambda>(k, v). staleMarker E now v) (bForEach (db E) (used_tickets_b st1)))"
    and st': "st' = st1\<lparr>used_tickets_b := deleteIgnoringErrors E ks (used_tickets_b st1)\<rparr>"
    by (auto simp: Cleanup_tx_def Let_def split: sum.splits)
  have "k \<in> set ks"
    unfolding ks filtered_keys [OF assms(1)] using deleteEach_Inr [OF assms(1) d] assms(4,5) by simp
  with st' show ?thesis
    using deleteIgnoringErrors_all [OF assms(1,3)] by simp
qed

lemma Cleanup_cases:
  assumes "Cleanup E S w = (r, w')"
  obtains (failed) e where "r = Inl e" "store w' = store w" "steps w' = steps w + 2"
  | (committed) "r = Inr ()" "Cleanup_tx E S (clock E (steps w)) (store w) = Inr ((), store w')"
      "steps w' = steps w + 2"
proof (cases r)
  case (Inl e)
  with assms have "store w' = store w" "steps w' = steps w + 2"
    by (auto simp: Cleanup_def s_now_def dest: db_Update_Inl)
  with Inl show ?thesis by (rule failed)
next
  case (Inr u)
  with assms have "db_Update (db E) (Cleanup_tx E S (clock E (steps w))) (tick w) = (Inr u, w')"
    by (simp add: Cleanup_def s_now_def)
  from db_Update_Inr [OF this] db_Update_steps [of "db E" "Cleanup_tx E S (clock E (steps w))" "tick w"] this Inr
  show ?thesis by (intro committed) simp_all
qed

section \<open>CreateNote\<close>

lemma create_tx_Inr:
  assumes "bolt_ok (db E)" "create_tx E p st = Inr (u, st')"
  shows "bGet (db E) (used_tickets_b st) (pr_ID p) = None" "bGet (db E) (metadata_b st) (pr_ID p) = None"
    "bGet (db E) (payloads_b st) (pr_ID p) = None"
    "bGet (db E) (metadata_b st') = (bGet (db E) (metadata_b st))(pr_ID p \<mapsto> pr_Metadata p)"
    "bGet (db E) (payloads_b st') = (bGet (db E) (payloads_b st))(pr_ID p \<mapsto> pr_Payload p)"
    "bGet (db E) (used_tickets_b st') = (bGet (db E) (used_tickets_b st))(pr_ID p \<mapsto> pr_Marker p)"
    "config_b st' = config_b st" "root_keys_b st' = root_keys_b st"
  using assms(2) bGet_bPut [OF assms(1)]
  by (auto simp: create_tx_def Let_def split: if_splits sum.splits)

lemma db_Update_marked:
  assumes "bolt_ok (db E)" "bGet (db E) (used_tickets_b (store w)) (pr_ID p) \<noteq> None"
  shows "\<not> isStorageFull (fst (db_Update (db E) (create_tx E p) w))"
  using assms(2) beginErr_not_full [OF assms(1), of "steps w"]
  by (auto simp: db_Update_def create_tx_def isStorageFull_def Let_def split: option.split)

text \<open>A run of \<open>storeNote\<close>: it commits at once, or after a full database and a cleanup, or
  fails, having changed nothing but what that cleanup removed.\<close>

lemma storeNote_cases:
  assumes "storeNote E S p w = (r, w')"
  obtains (direct) "r = Inr (pr_ID p)" "create_tx E p (store w) = Inr ((), store w')"
  | (retried) st i where "r = Inr (pr_ID p)" "Cleanup_tx E S (clock E i) (store w) = Inr ((), st)"
      "steps w \<le> i" "i < steps w'" "create_tx E p st = Inr ((), store w')"
      "isStorageFull (fst (db_Update (db E) (create_tx E p) w))"
  | (failed) e where "r = Inl e" "store w' = store w"
  | (cleaned) e i where "r = Inl e" "Cleanup_tx E S (clock E i) (store w) = Inr ((), store w')"
      "steps w \<le> i" "i < steps w'"
proof -
  obtain r1 w1 where u1: "db_Update (db E) (create_tx E p) w = (r1, w1)" by fastforce
  have s1: "steps w1 = Suc (steps w)" using db_Update_steps [of "db E" "create_tx E p" w] u1 by simp
  show thesis
  proof (cases r1)
    case (Inr u)
    with u1 assms have "r = Inr (pr_ID p)" "w' = w1"
      by (simp_all add: storeNote_def isStorageFull_def createOutcome_def)
    with db_Update_Inr [of "db E" "create_tx E p" w u w1] u1 Inr show ?thesis
      by (intro direct) simp_all
  next
    case (Inl e1)
    then have st1: "store w1 = store w" using u1 by (auto dest: db_Update_Inl)
    show ?thesis
    proof (cases "isStorageFull r1")
      case False
      with u1 assms Inl have "(\<exists>e. r = Inl e) \<and> w' = w1"
        by (auto simp: storeNote_def createOutcome_def split: if_splits)
      with st1 failed show ?thesis by auto
    next
      case True
      obtain rc w2 where c: "Cleanup E S w1 = (rc, w2)" by fastforce
      from c show ?thesis
      proof (cases rule: Cleanup_cases)
        case (failed e)
        with True u1 c assms have "r = Inl e" "w' = w2" by (simp_all add: storeNote_def)
        with failed st1 that(3) show ?thesis by simp
      next
        case committed
        obtain r2 w3 where u2: "db_Update (db E) (create_tx E p) w2 = (r2, w3)" by fastforce
        have s3: "steps w3 = Suc (steps w2)" using db_Update_steps [of "db E" "create_tx E p" w2] u2 by simp
        from True u1 c committed(1) u2 assms have r: "(r, w') = createOutcome (pr_ID p) (r2, w3)"
          by (simp add: storeNote_def)
        show ?thesis
        proof (cases r2)
          case (Inr u)
          with r db_Update_Inr [of "db E" "create_tx E p" w2 u w3] u1 u2 True committed st1 s1 s3 show ?thesis
            by (intro retried [of "steps w1" "store w2"]) (simp_all add: createOutcome_def)
        next
          case (Inl e2)
          with u2 have "store w3 = store w2" by (auto dest: db_Update_Inl)
          moreover from r Inl obtain e where "r = Inl e" "w' = w3"
            by (auto simp: createOutcome_def split: if_splits)
          ultimately show ?thesis
            using committed st1 s1 s3 by (intro cleaned [of e "steps w1"]) simp_all
        qed
      qed
    qed
  qed
qed

lemma prepareNote_Inr:
  assumes "prepareNote E S pid t tok payload lifetime w = (Inr p, w')"
  obtains d v w1 where "verifyTicket E t pid tok w = (Inr (d, v), w1)" "w' = tick w1"
    "payload \<noteq> []" "int (length payload) \<le> svc_maxSize S"
    "minNoteLifetime \<le> lifetime" "lifetime \<le> svc_maxLifetime S"
    "pr_ID p = td_ID d" "pr_Payload p = payload"
    "marshalMetadata (zone E) \<lparr>md_BurnVerifier = v, md_CreatedAt = clock E (steps w1),
       md_ExpiresAt = clock E (steps w1) + lifetime\<rparr> = Inr (pr_Metadata p)"
    "marshalMarker (zone E) \<lparr>um_ExpiresAt = td_Exp d\<rparr> = Inr (pr_Marker p)"
  using assms
  by (auto simp: prepareNote_def normalizeLifetime_def s_now_def time_Add_def Let_def not_less
      split: if_splits sum.splits prod.splits)

lemma prepareNote_store [simp]: "store (snd (prepareNote E S pid t tok payload lifetime w)) = store w"
proof -
  obtain r w1 where v: "verifyTicket E t pid tok w = (r, w1)" by fastforce
  then have "store w1 = store w" using verifyTicket_store [of E t pid tok w] by simp
  with v show ?thesis
    by (simp add: prepareNote_def s_now_def Let_def split: sum.split prod.split)
qed

lemma prepareNote_steps: "steps w \<le> steps (snd (prepareNote E S pid t tok payload lifetime w))"
proof -
  obtain r w1 where v: "verifyTicket E t pid tok w = (r, w1)" by fastforce
  then have "steps w \<le> steps w1" using verifyTicket_steps [of w E t pid tok] by simp
  with v show ?thesis
    by (simp add: prepareNote_def s_now_def Let_def le_SucI split: sum.split prod.split)
qed

lemma storeNote_steps: "steps w \<le> steps (snd (storeNote E S p w))"
proof -
  obtain r1 w1 where u1: "db_Update (db E) (create_tx E p) w = (r1, w1)" by fastforce
  obtain rc w2 where c: "Cleanup E S w1 = (rc, w2)" by fastforce
  obtain r2 w3 where u2: "db_Update (db E) (create_tx E p) w2 = (r2, w3)" by fastforce
  have "steps w \<le> steps w1" "steps w2 \<le> steps w3"
    using db_Update_steps [of "db E" "create_tx E p"] u1 u2 by (metis le_SucI order_refl snd_conv)+
  moreover have "steps w1 \<le> steps w2" using c by (cases rule: Cleanup_cases) simp_all
  ultimately show ?thesis
    by (auto simp: storeNote_def u1 c u2 createOutcome_def split: sum.split prod.split)
qed

section \<open>OpenNote\<close>

lemma OpenNote_tx_Some:
  assumes "OpenNote_tx E S nid tok now st = Inr (Some n, st')"
  obtains mb k where "bGet (db E) (metadata_b st) nid = Some mb"
    "bGet (db E) (payloads_b st) nid = Some (nt_Payload n)"
    "unmarshalMetadata mb = Inr (nt_Metadata n)" "validMetadata S (nt_Metadata n)"
    "getRootKey E (root_keys_b st) = Inr k"
    "burnTokenVerifier (rk_Secret k) tok = Inr (md_BurnVerifier (nt_Metadata n))"
    "now \<le> md_ExpiresAt (nt_Metadata n)" "deleteNoteRecords E st nid = Inr st'"
  using assms
  by (auto simp: OpenNote_tx_def Let_def Before_def not_less split: option.splits sum.splits if_splits)

lemma OpenNote_tx_None:
  "OpenNote_tx E S nid tok now st = Inr (None, st') \<Longrightarrow> st' = st \<or> deleteNoteRecords E st nid = Inr st'"
  by (auto simp: OpenNote_tx_def Let_def split: option.splits sum.splits if_splits)

lemma OpenNote_cases:
  assumes "OpenNote E S nid tok w = (r, w')"
  obtains (opened) n where "r = Inr n" "steps w' = steps w + 2"
      "OpenNote_tx E S nid tok (clock E (steps w)) (store w) = Inr (Some n, store w')"
  | (refused) "r = Inl (Sentinel ErrNoteOpenFailed)" "steps w' = steps w + 2"
      "OpenNote_tx E S nid tok (clock E (steps w)) (store w) = Inr (None, store w')"
  | (failed) e where "r = Inl e" "store w' = store w" "steps w' = steps w + 2"
proof -
  obtain r1 w1 where u: "db_Update (db E) (OpenNote_tx E S nid tok (clock E (steps w))) (tick w) = (r1, w1)"
    by fastforce
  have s: "steps w1 = steps w + 2"
    using db_Update_steps [of "db E" "OpenNote_tx E S nid tok (clock E (steps w))" "tick w"] u by simp
  show thesis
  proof (cases r1)
    case (Inl e)
    with u assms s show ?thesis
      by (intro failed [of e]) (auto simp: OpenNote_def s_now_def dest: db_Update_Inl)
  next
    case (Inr a)
    with u have tx: "OpenNote_tx E S nid tok (clock E (steps w)) (store w) = Inr (a, store w1)"
      by (auto dest: db_Update_Inr)
    with u assms s Inr show ?thesis
      by (cases a) (auto simp: OpenNote_def s_now_def intro: opened refused)
  qed
qed

end
