(* ===== verification/NoteSpec.thy ===== *)
theory NoteSpec
  imports NoteProofs
begin

text \<open>
  An abstract specification of the note store, the invariant under which the service
  implements it, and the properties of the single operations. The abstract state holds, per
  identifier, the note (metadata and payload) and the expiry of the used-ticket marker.
\<close>

section \<open>Abstract specification\<close>

record vault =
  v_notes :: "NoteID \<rightharpoonup> Metadata \<times> bytes"
  v_used :: "NoteID \<rightharpoonup> time"

definition spec_open :: "bytes \<Rightarrow> time \<Rightarrow> NoteID \<Rightarrow> vault \<Rightarrow> (Metadata \<times> bytes) option \<times> vault" where
  "spec_open verifier now nid A =
     (case v_notes A nid of
        None \<Rightarrow> (None, A)
      | Some (m, p) \<Rightarrow>
          if md_BurnVerifier m \<noteq> verifier then (None, A)
          else (if now \<le> md_ExpiresAt m then Some (m, p) else None, A\<lparr>v_notes := (v_notes A)(nid := None)\<rparr>))"

definition spec_create :: "NoteID \<Rightarrow> Metadata \<Rightarrow> bytes \<Rightarrow> time \<Rightarrow> vault \<Rightarrow> vault option" where
  "spec_create nid m p expiry A =
     (if nid \<in> dom (v_notes A) \<union> dom (v_used A) then None
      else Some (A\<lparr>v_notes := (v_notes A)(nid \<mapsto> (m, p)), v_used := (v_used A)(nid \<mapsto> expiry)\<rparr>))"

definition spec_cleanup :: "time \<Rightarrow> vault \<Rightarrow> vault" where
  "spec_cleanup now A =
     \<lparr>v_notes = (\<lambda>k. case v_notes A k of Some (m, p) \<Rightarrow> if md_ExpiresAt m < now then None else Some (m, p)
        | None \<Rightarrow> None),
      v_used = (\<lambda>k. case v_used A k of Some e \<Rightarrow> if e < now then None else Some e | None \<Rightarrow> None)\<rparr>"

section \<open>Abstraction and invariant\<close>

definition note_at :: "'b env \<Rightarrow> 'b store \<Rightarrow> NoteID \<rightharpoonup> Metadata \<times> bytes" where
  "note_at E st nid =
     (case (bGet (db E) (metadata_b st) nid, bGet (db E) (payloads_b st) nid) of
        (Some mb, Some p) \<Rightarrow> (case unmarshalMetadata mb of Inl e \<Rightarrow> None | Inr m \<Rightarrow> Some (m, p))
      | _ \<Rightarrow> None)"

definition marker_at :: "'b env \<Rightarrow> 'b store \<Rightarrow> NoteID \<rightharpoonup> time" where
  "marker_at E st nid =
     (case bGet (db E) (used_tickets_b st) nid of
        Some ub \<Rightarrow> (case unmarshalMarker ub of Inl e \<Rightarrow> None | Inr u \<Rightarrow> Some (um_ExpiresAt u))
      | None \<Rightarrow> None)"

definition vault_of :: "'b env \<Rightarrow> 'b store \<Rightarrow> vault" where
  "vault_of E st = \<lparr>v_notes = note_at E st, v_used = marker_at E st\<rparr>"

definition store_inv :: "'b env \<Rightarrow> NoteService \<Rightarrow> 'b store \<Rightarrow> bool" where
  "store_inv E S st \<longleftrightarrow> keys32 E (metadata_b st) \<and>
     (\<forall>k. bGet (db E) (metadata_b st) k = None \<longleftrightarrow> bGet (db E) (payloads_b st) k = None) \<and>
     (\<forall>k mb. bGet (db E) (metadata_b st) k = Some mb \<longrightarrow>
        (\<exists>m. unmarshalMetadata mb = Inr m \<and> validMetadata S m)) \<and>
     (\<forall>k p. bGet (db E) (payloads_b st) k = Some p \<longrightarrow> p \<noteq> [] \<and> int (length p) \<le> svc_maxSize S) \<and>
     (\<forall>k ub. bGet (db E) (used_tickets_b st) k = Some ub \<longrightarrow> (\<exists>u. unmarshalMarker ub = Inr u))"

definition prepared_ok :: "'b env \<Rightarrow> NoteService \<Rightarrow> prepared \<Rightarrow> bool" where
  "prepared_ok E S p \<longleftrightarrow> length (pr_ID p) = 32 \<and>
     (\<exists>m. unmarshalMetadata (pr_Metadata p) = Inr m \<and> validMetadata S m) \<and>
     pr_Payload p \<noteq> [] \<and> int (length (pr_Payload p)) \<le> svc_maxSize S \<and>
     (\<exists>u. unmarshalMarker (pr_Marker p) = Inr u)"

lemma store_invD:
  assumes "store_inv E S st"
  shows "keys32 E (metadata_b st)"
    "bGet (db E) (metadata_b st) k = None \<longleftrightarrow> bGet (db E) (payloads_b st) k = None"
    "bGet (db E) (metadata_b st) k = Some mb \<Longrightarrow>
       \<exists>m. unmarshalMetadata mb = Inr m \<and> validMetadata S m"
    "bGet (db E) (payloads_b st) k = Some p \<Longrightarrow> p \<noteq> [] \<and> int (length p) \<le> svc_maxSize S"
    "bGet (db E) (used_tickets_b st) k = Some ub \<Longrightarrow> \<exists>u. unmarshalMarker ub = Inr u"
  using assms unfolding store_inv_def by blast+

lemma note_at_dom:
  "store_inv E S st \<Longrightarrow> note_at E st k = None \<longleftrightarrow> bGet (db E) (metadata_b st) k = None"
  using store_invD(2,3) [of E S st k]
  by (force simp: note_at_def split: option.splits sum.splits)

lemma marker_at_dom:
  "store_inv E S st \<Longrightarrow> marker_at E st k = None \<longleftrightarrow> bGet (db E) (used_tickets_b st) k = None"
  using store_invD(5) [of E S st k]
  by (force simp: marker_at_def split: option.splits sum.splits)

lemma note_at_Some:
  "note_at E st nid = Some (m, p) \<longleftrightarrow>
   (\<exists>mb. bGet (db E) (metadata_b st) nid = Some mb \<and> unmarshalMetadata mb = Inr m) \<and>
   bGet (db E) (payloads_b st) nid = Some p"
  by (auto simp: note_at_def split: option.splits sum.splits)

lemma validMetadata_created:
  assumes "0 < now" "minNoteLifetime \<le> l" "l \<le> maxNoteLifetime" "length v = 32"
    "svc_maxLifetime S = maxNoteLifetime"
  shows "validMetadata S \<lparr>md_BurnVerifier = v, md_CreatedAt = now, md_ExpiresAt = now + l\<rparr>"
proof -
  have "time_Sub (now + l) now \<le> maxNoteLifetime"
    using assms(3) by (subst time_Sub_le_iff) (simp_all add: go_simps minInt64_def maxInt64_def)
  then show ?thesis
    using assms by (simp add: validMetadata_def time_defs burnVerifierLen_def go_simps)
qed

lemma prepareNote_ok:
  assumes "env_ok E" "\<forall>i. 0 < clock E i" "length pid = 32" "svc_maxLifetime S = maxNoteLifetime"
    and "prepareNote E S pid t tok payload lifetime w = (Inr p, w')"
  shows "prepared_ok E S p" "pr_ID p = pid"
proof -
  from assms(5) obtain d v w1 where ver: "verifyTicket E t pid tok w = (Inr (d, v), w1)"
    and p: "payload \<noteq> []" "int (length payload) \<le> svc_maxSize S" "minNoteLifetime \<le> lifetime"
      "lifetime \<le> svc_maxLifetime S" "pr_ID p = td_ID d" "pr_Payload p = payload"
    and m: "marshalMetadata (zone E) \<lparr>md_BurnVerifier = v, md_CreatedAt = clock E (steps w1),
       md_ExpiresAt = clock E (steps w1) + lifetime\<rparr> = Inr (pr_Metadata p)"
    and u: "marshalMarker (zone E) \<lparr>um_ExpiresAt = td_Exp d\<rparr> = Inr (pr_Marker p)"
    by (rule prepareNote_Inr)
  from gate.gate_id [OF ver] have v: "td_ID d = pid" "length v = 32" by simp_all
  with p show "pr_ID p = pid" by simp
  have "validMetadata S \<lparr>md_BurnVerifier = v, md_CreatedAt = clock E (steps w1),
       md_ExpiresAt = clock E (steps w1) + lifetime\<rparr>"
    using assms(2,4) p v by (intro validMetadata_created) simp_all
  then show "prepared_ok E S p"
    using p v assms(1,3) unmarshal_marshalMetadata [OF _ m] unmarshal_marshalMarker [OF _ u]
    by (auto simp: prepared_ok_def)
qed

section \<open>Every transaction keeps the invariant\<close>

lemma create_tx_inv:
  assumes "bolt_ok (db E)" "create_tx E p st = Inr (u, st')" "prepared_ok E S p" "store_inv E S st"
  shows "store_inv E S st'"
  using assms(3,4) create_tx_Inr [OF assms(1,2)]
  by (auto simp: store_inv_def prepared_ok_def keys32_def)

lemma deleteNoteRecords_inv:
  assumes "bolt_ok (db E)" "deleteNoteRecords E st nid = Inr st'" "store_inv E S st"
  shows "store_inv E S st'"
  using assms(3) deleteNoteRecords_Inr [OF assms(1,2)]
  by (auto simp: store_inv_def keys32_def)

lemma Cleanup_tx_inv:
  assumes "bolt_ok (db E)" "Cleanup_tx E S now st = Inr (u, st')" "store_inv E S st"
  shows "store_inv E S st'"
proof -
  note C = Cleanup_tx_Inr [OF assms(1,2) store_invD(1) [OF assms(3)]]
    and R = Cleanup_tx_removes [OF assms(1,2)]
  have u: "bGet (db E) (used_tickets_b st') k = Some ub \<Longrightarrow> bGet (db E) (used_tickets_b st) k = Some ub" for k ub
    using R(3) [of k] by auto
  show ?thesis
    using assms(3) unfolding store_inv_def keys32_def C(1,2) by (auto dest!: u split: if_splits)
qed

lemma OpenNote_tx_inv:
  assumes "bolt_ok (db E)" "OpenNote_tx E S nid tok now st = Inr (r, st')" "store_inv E S st"
  shows "store_inv E S st'"
proof (cases r)
  case None
  with assms OpenNote_tx_None [of E S nid tok now st st'] show ?thesis
    by (auto intro: deleteNoteRecords_inv)
next
  case (Some n)
  with assms(2) have "deleteNoteRecords E st nid = Inr st'"
    using OpenNote_tx_Some by blast
  with assms(1,3) show ?thesis by (auto intro: deleteNoteRecords_inv)
qed

lemma EnsureRootKeys_tx_inv:
  assumes "EnsureRootKeys_tx E now rnd st = Inr (u, st')" "store_inv E S st"
  shows "store_inv E S st'"
  using EnsureRootKeys_tx_frame [OF assms(1)] assms(2) by (simp add: store_inv_def)

lemmas tx_inv = create_tx_inv Cleanup_tx_inv OpenNote_tx_inv EnsureRootKeys_tx_inv

end
