(* ===== verification/NoteProps.thy ===== *)
theory NoteProps
  imports NoteSpec
begin

text \<open>
  The service operations implement the abstract vault of \<open>NoteSpec\<close>, and what that means
  for a note: it opens once, with its burn token, before it expires.
\<close>

section \<open>Refinement of the transactions\<close>

lemma db_Update_reliable:
  "reliable B \<Longrightarrow> db_Update B fn w =
     (case fn (store w) of Inl e \<Rightarrow> (Inl e, tick w) | Inr (a, st') \<Rightarrow> (Inr a, (tick w)\<lparr>store := st'\<rparr>))"
  by (simp add: db_Update_def reliable_def tick_def Let_def split: sum.split prod.split)

lemma deleteNoteRecords_reliable:
  assumes "reliable (db E)"
  obtains st' where "deleteNoteRecords E st nid = Inr st'"
proof -
  from assms obtain p m where "bDelete (db E) (payloads_b st) nid = Inr p"
    "bDelete (db E) (metadata_b st) nid = Inr m" unfolding reliable_def by meson
  then show thesis using that by (simp add: deleteNoteRecords_def)
qed

lemma deleteNoteRecords_vault:
  assumes "bolt_ok (db E)" "deleteNoteRecords E st nid = Inr st'"
  shows "note_at E st' = (note_at E st)(nid := None)" "marker_at E st' = marker_at E st"
  using deleteNoteRecords_Inr [OF assms] by (auto simp: note_at_def marker_at_def fun_eq_iff)

lemma create_tx_vault:
  assumes "bolt_ok (db E)" "create_tx E p st = Inr (u, st')"
    and "unmarshalMetadata (pr_Metadata p) = Inr m" "unmarshalMarker (pr_Marker p) = Inr um"
  shows "spec_create (pr_ID p) m (pr_Payload p) (um_ExpiresAt um) (vault_of E st) = Some (vault_of E st')"
proof -
  note C = create_tx_Inr [OF assms(1,2)]
  have "note_at E st' = (note_at E st)(pr_ID p \<mapsto> (m, pr_Payload p))"
    "marker_at E st' = (marker_at E st)(pr_ID p \<mapsto> um_ExpiresAt um)"
    using assms(3,4) by (auto simp: fun_eq_iff note_at_def marker_at_def C)
  moreover have "note_at E st (pr_ID p) = None" "marker_at E st (pr_ID p) = None"
    by (simp_all add: note_at_def marker_at_def C)
  ultimately show ?thesis
    by (simp add: spec_create_def vault_of_def domIff)
qed

lemma stale_at_note:
  assumes "store_inv E S st" "note_at E st k = Some (m, p)"
  shows "stale_at E S now st k \<longleftrightarrow> md_ExpiresAt m < now"
proof -
  from assms(2) obtain mb where mb: "bGet (db E) (metadata_b st) k = Some mb"
    "unmarshalMetadata mb = Inr m" by (auto simp: note_at_Some)
  with store_invD(3) [OF assms(1) mb(1)] show ?thesis
    by (simp add: stale_at_def staleMetadata_def Before_def)
qed

lemma Cleanup_tx_note_at:
  assumes "bolt_ok (db E)" "Cleanup_tx E S now st = Inr (u, st')" "store_inv E S st"
  shows "note_at E st' k = v_notes (spec_cleanup now (vault_of E st)) k"
proof (cases "note_at E st k")
  case None
  with note_at_dom [OF assms(3)] Cleanup_tx_Inr [OF assms(1,2) store_invD(1) [OF assms(3)]]
  show ?thesis by (simp add: spec_cleanup_def vault_of_def note_at_def)
next
  case (Some mp)
  obtain m p where mp: "mp = (m, p)" by fastforce
  with Some stale_at_note [OF assms(3), of k m p now]
    Cleanup_tx_Inr(1,2) [OF assms(1,2) store_invD(1) [OF assms(3)], where k = k]
  show ?thesis by (simp add: spec_cleanup_def vault_of_def note_at_def)
qed

lemma Cleanup_tx_marker_at:
  assumes "bolt_ok (db E)" "Cleanup_tx E S now st = Inr (u, st')" "store_inv E S st" "reliable (db E)"
  shows "marker_at E st' k = v_used (spec_cleanup now (vault_of E st)) k"
proof (cases "bGet (db E) (used_tickets_b st) k")
  case None
  with Cleanup_tx_removes(3) [OF assms(1,2), of k] show ?thesis
    by (simp add: spec_cleanup_def vault_of_def marker_at_def)
next
  case (Some ub)
  from store_invD(5) [OF assms(3) Some] obtain um where um: "unmarshalMarker ub = Inr um" by auto
  then have st: "staleMarker E now ub \<longleftrightarrow> um_ExpiresAt um < now"
    by (simp add: staleMarker_def Before_def)
  have del: "\<forall>b k. \<exists>b'. bDelete (db E) b k = Inr b'" using assms(4) by (simp add: reliable_def)
  show ?thesis
  proof (cases "um_ExpiresAt um < now")
    case True
    with Cleanup_tx_markers [OF assms(1,2) del Some] st Some um show ?thesis
      by (simp add: spec_cleanup_def vault_of_def marker_at_def)
  next
    case False
    with Cleanup_tx_removes(4) [OF assms(1,2) Some] st Some um show ?thesis
      by (simp add: spec_cleanup_def vault_of_def marker_at_def)
  qed
qed

lemma deleteEach_reliable:
  assumes "reliable (db E)"
  shows "\<exists>st'. deleteEach E ids st = Inr st'"
proof (induction ids arbitrary: st)
  case (Cons i ids)
  from deleteNoteRecords_reliable [OF assms] obtain st1 where
    "deleteNoteRecords E st (copyNoteID i) = Inr st1" .
  with Cons show ?case by simp
qed simp

lemma Cleanup_reliable:
  assumes "reliable (db E)"
  obtains w' where "Cleanup E S w = (Inr (), w')" "steps w' = steps w + 2"
    "Cleanup_tx E S (clock E (steps w)) (store w) = Inr ((), store w')"
proof -
  let ?ids = "map fst (filter (\<lambda>(k, v). staleMetadata E S (clock E (steps w)) v)
      (bForEach (db E) (metadata_b (store w))))"
  obtain st1 where tx: "Cleanup_tx E S (clock E (steps w)) (store w) = Inr ((), st1)"
    using deleteEach_reliable [OF assms, of ?ids "store w"] by (auto simp: Cleanup_tx_def Let_def)
  then have "Cleanup E S w = (Inr (), (tick (tick w))\<lparr>store := st1\<rparr>)"
    using assms by (simp add: Cleanup_def s_now_def db_Update_reliable)
  with tx show thesis
    by (intro that [of "(tick (tick w))\<lparr>store := st1\<rparr>"]) simp_all
qed

section \<open>A sample store\<close>

definition ex_full :: "((bytes \<times> bytes) list) world" where
  "ex_full = \<lparr>store = ex_store\<lparr>metadata_b := [(ex_bytes, ex_meta)], payloads_b := [(ex_bytes, ''P'')],
     used_tickets_b := [(ex_bytes, ex_marker)]\<rparr>, steps = 0\<rparr>"

text \<open>The same note, stored by someone who holds another token.\<close>

definition ex_foreign :: "((bytes \<times> bytes) list) world" where
  "ex_foreign = ex_full\<lparr>store := (store ex_full)\<lparr>metadata_b := [(ex_bytes, ex_meta_of ex_other_verifier)]\<rparr>\<rparr>"

lemma ex_md_valid: "length v = 32 \<Longrightarrow> validMetadata (NewNoteService mx) (ex_md_of v)"
  by (simp add: validMetadata_def NewNoteService_def ex_md_of_def ex_time_def time_defs time_Sub_def
      go_simps minInt64_def maxInt64_def burnVerifierLen_def)

lemma ex_store_inv: "store_inv (ex_env cap clk) S ex_store"
  by (simp add: store_inv_def keys32_def ex_store_def)

lemma ex_full_inv: "store_inv (ex_env cap clk) (NewNoteService 1024) (store ex_full)"
proof -
  have "svc_maxSize (NewNoteService 1024) = 1024" by (simp add: NewNoteService_def)
  then show ?thesis
    by (auto simp: store_inv_def keys32_def ex_full_def ex_store_def ex_md_valid split: if_splits)
qed

lemma ex_full_root: "root_keys_b (store ex_full) = [(''root_key'', ex_root)]"
  by (simp add: ex_full_def ex_store_def)

lemma ex_full_note: "note_at (ex_env cap clk) (store ex_full) ex_bytes = Some (ex_md, ''P'')"
  by (simp add: note_at_def ex_full_def)

lemma ex_foreign_note: "note_at (ex_env cap clk) (store ex_foreign) ex_bytes = Some (ex_md_of ex_other_verifier, ''P'')"
  by (simp add: note_at_def ex_foreign_def ex_full_def)

lemma ex_foreign_root: "root_keys_b (store ex_foreign) = [(''root_key'', ex_root)]"
  by (simp add: ex_foreign_def ex_full_root)

section \<open>Properties of Cleanup\<close>

text \<open>C6: on a reliable database \<open>Cleanup\<close> succeeds and implements the specification: it
  removes exactly the notes and the used-ticket markers whose expiry lies before the clock
  reading it starts with, and leaves every other note, payload included, as it was.\<close>

theorem Cleanup_refines:
  assumes "env_ok E" "reliable (db E)" "store_inv E S (store w)"
  shows "\<exists>w'. Cleanup E S w = (Inr (), w') \<and>
    vault_of E (store w') = spec_cleanup (clock E (steps w)) (vault_of E (store w)) \<and>
    root_keys_b (store w') = root_keys_b (store w)"
proof -
  have bolt: "bolt_ok (db E)" using assms(1) by simp
  from assms(2) obtain w' where w': "Cleanup E S w = (Inr (), w')"
    and tx: "Cleanup_tx E S (clock E (steps w)) (store w) = Inr ((), store w')"
    by (rule Cleanup_reliable)
  have "note_at E (store w') = v_notes (spec_cleanup (clock E (steps w)) (vault_of E (store w)))"
    "marker_at E (store w') = v_used (spec_cleanup (clock E (steps w)) (vault_of E (store w)))"
    using Cleanup_tx_note_at [OF bolt tx assms(3)] Cleanup_tx_marker_at [OF bolt tx assms(3,2)]
    by (simp_all add: fun_eq_iff)
  then have "vault_of E (store w') = spec_cleanup (clock E (steps w)) (vault_of E (store w))"
    by (simp add: vault_of_def)
  with w' Cleanup_tx_removes(5) [OF bolt tx] show ?thesis by blast
qed

theorem Cleanup_refines_witness:
  "\<exists>w'. Cleanup (ex_env None (\<lambda>_. ex_time + 3 * Hour)) (NewNoteService 1024) ex_full = (Inr (), w') \<and>
     v_notes (vault_of (ex_env None (\<lambda>_. ex_time + 3 * Hour)) (store w')) ex_bytes = None"
proof -
  let ?E = "ex_env None (\<lambda>_. ex_time + 3 * Hour)"
  have "reliable (db ?E)" by (simp add: mem_bolt_reliable)
  from Cleanup_refines [OF ex_env_ok this ex_full_inv] obtain w' where
    "Cleanup ?E (NewNoteService 1024) ex_full = (Inr (), w')"
    "vault_of ?E (store w') = spec_cleanup (ex_time + 3 * Hour) (vault_of ?E (store ex_full))" by auto
  moreover have "note_at ?E (store ex_full) ex_bytes = Some (ex_md, ''P'')" by (rule ex_full_note)
  ultimately show ?thesis
    by (auto simp: spec_cleanup_def vault_of_def ex_md_of_def go_simps)
qed

section \<open>Properties of OpenNote\<close>

text \<open>C4: on a reliable database \<open>OpenNote\<close> implements the specification: with the note's
  burn token it removes the note and returns its payload and metadata, unless the note has
  expired, when it removes it and reports failure; with any other token, or without a note,
  it reports the same failure and changes nothing.\<close>

theorem OpenNote_refines:
  assumes "env_ok E" "reliable (db E)" "store_inv E S (store w)"
    and "getRootKey E (root_keys_b (store w)) = Inr k"
    and "burnTokenVerifier (rk_Secret k) tok = Inr verifier"
  shows "case spec_open verifier (clock E (steps w)) nid (vault_of E (store w)) of (found, A) \<Rightarrow>
    fst (OpenNote E S nid tok w) =
      (case found of None \<Rightarrow> Inl (Sentinel ErrNoteOpenFailed)
       | Some (m, p) \<Rightarrow> Inr \<lparr>nt_Payload = p, nt_Metadata = m\<rparr>) \<and>
    vault_of E (store (snd (OpenNote E S nid tok w))) = A"
proof (cases "note_at E (store w) nid")
  case None
  then have "bGet (db E) (metadata_b (store w)) nid = None"
    using note_at_dom [OF assms(3)] by simp
  then have "OpenNote_tx E S nid tok (clock E (steps w)) (store w) = Inr (None, store w)"
    by (simp add: OpenNote_tx_def)
  with None assms(2) show ?thesis
    by (simp add: spec_open_def vault_of_def OpenNote_def s_now_def db_Update_reliable)
next
  case (Some mp)
  obtain m p where mp: "mp = (m, p)" by fastforce
  with Some obtain mb where mb: "bGet (db E) (metadata_b (store w)) nid = Some mb"
    "unmarshalMetadata mb = Inr m" "bGet (db E) (payloads_b (store w)) nid = Some p"
    by (auto simp: note_at_Some)
  with store_invD(3) [OF assms(3)] have valid: "validMetadata S m" by fastforce
  from assms(2) obtain st' where del: "deleteNoteRecords E (store w) nid = Inr st'"
    by (rule deleteNoteRecords_reliable)
  have bolt: "bolt_ok (db E)" using assms(1) by simp
  note V = deleteNoteRecords_vault [OF bolt del]
  show ?thesis
    using mb valid del assms(2,4,5) Some mp V
    by (simp add: spec_open_def vault_of_def OpenNote_def s_now_def db_Update_reliable OpenNote_tx_def
        Let_def Before_def not_less)
qed

theorem OpenNote_refines_witness:
  "fst (OpenNote (ex_env None (\<lambda>_. ex_time)) (NewNoteService 1024) ex_bytes ex_bytes ex_full)
     = Inr \<lparr>nt_Payload = ''P'', nt_Metadata = ex_md\<rparr>"
proof -
  let ?E = "ex_env None (\<lambda>_. ex_time)"
  have rel: "reliable (db ?E)" by (simp add: mem_bolt_reliable)
  have key: "getRootKey ?E (root_keys_b (store ex_full)) = Inr ex_rk"
    by (simp add: ex_full_root ex_getRootKey)
  have ver: "burnTokenVerifier (rk_Secret ex_rk) ex_bytes = Inr (ex_verifier ex_bytes)"
    by (simp add: ex_burnTokenVerifier)
  have "note_at ?E (store ex_full) ex_bytes = Some (ex_md, ''P'')" by (rule ex_full_note)
  then have "spec_open (ex_verifier ex_bytes) ex_time ex_bytes (vault_of ?E (store ex_full)) =
      (Some (ex_md, ''P''), (vault_of ?E (store ex_full))\<lparr>v_notes := (note_at ?E (store ex_full))(ex_bytes := None)\<rparr>)"
    by (simp add: spec_open_def vault_of_def ex_md_of_def go_simps)
  with OpenNote_refines [OF ex_env_ok rel ex_full_inv key ver, of ex_bytes] show ?thesis by simp
qed

lemma OpenNote_atomic_facts:
  assumes "bolt_ok (db E)" "OpenNote E S nid tok w = (r, w')"
  shows "k \<noteq> nid \<Longrightarrow> note_at E (store w') k = note_at E (store w) k"
    "marker_at E (store w') = marker_at E (store w)" "root_keys_b (store w') = root_keys_b (store w)"
proof -
  have "store w' = store w \<or> deleteNoteRecords E (store w) nid = Inr (store w')"
    using assms(2)
  proof (cases rule: OpenNote_cases)
    case (opened n)
    from opened(3) show ?thesis by (rule OpenNote_tx_Some) simp
  qed (auto dest: OpenNote_tx_None)
  then show "k \<noteq> nid \<Longrightarrow> note_at E (store w') k = note_at E (store w) k"
    "marker_at E (store w') = marker_at E (store w)" "root_keys_b (store w') = root_keys_b (store w)"
    using deleteNoteRecords_vault [OF assms(1), of "store w" nid "store w'"]
      deleteNoteRecords_Inr(4) [OF assms(1), of "store w" nid "store w'"] by auto
qed

text \<open>C3: whatever bbolt does, \<open>OpenNote\<close> hands out a note only after the transaction that
  removed it has committed, and only for a token whose verifier is the stored one, before
  the expiry; an error other than "note open failed" means nothing changed, and no outcome
  touches another note, a marker or the root key.\<close>

theorem OpenNote_atomic:
  assumes "env_ok E" "OpenNote E S nid tok w = (r, w')"
  shows "(case r of
      Inr n \<Rightarrow> note_at E (store w) nid = Some (nt_Metadata n, nt_Payload n) \<and>
        note_at E (store w') nid = None \<and> clock E (steps w) \<le> md_ExpiresAt (nt_Metadata n) \<and>
        (\<exists>k. getRootKey E (root_keys_b (store w)) = Inr k \<and>
          burnTokenVerifier (rk_Secret k) tok = Inr (md_BurnVerifier (nt_Metadata n)))
    | Inl e \<Rightarrow> e = Sentinel ErrNoteOpenFailed \<or> store w' = store w) \<and>
    (\<forall>k. k \<noteq> nid \<longrightarrow> note_at E (store w') k = note_at E (store w) k) \<and>
    marker_at E (store w') = marker_at E (store w) \<and> root_keys_b (store w') = root_keys_b (store w)"
proof -
  have bolt: "bolt_ok (db E)" using assms(1) by simp
  have "case r of
      Inr n \<Rightarrow> note_at E (store w) nid = Some (nt_Metadata n, nt_Payload n) \<and>
        note_at E (store w') nid = None \<and> clock E (steps w) \<le> md_ExpiresAt (nt_Metadata n) \<and>
        (\<exists>k. getRootKey E (root_keys_b (store w)) = Inr k \<and>
          burnTokenVerifier (rk_Secret k) tok = Inr (md_BurnVerifier (nt_Metadata n)))
    | Inl e \<Rightarrow> e = Sentinel ErrNoteOpenFailed \<or> store w' = store w"
    using assms(2)
  proof (cases rule: OpenNote_cases)
    case (opened n)
    from opened(3) obtain mb k where "bGet (db E) (metadata_b (store w)) nid = Some mb"
      "bGet (db E) (payloads_b (store w)) nid = Some (nt_Payload n)"
      "unmarshalMetadata mb = Inr (nt_Metadata n)"
      "getRootKey E (root_keys_b (store w)) = Inr k"
      "burnTokenVerifier (rk_Secret k) tok = Inr (md_BurnVerifier (nt_Metadata n))"
      "clock E (steps w) \<le> md_ExpiresAt (nt_Metadata n)" and
      del: "deleteNoteRecords E (store w) nid = Inr (store w')"
      by (rule OpenNote_tx_Some)
    with deleteNoteRecords_vault(1) [OF bolt del] opened(1) show ?thesis by (auto simp: note_at_Some)
  qed simp_all
  with OpenNote_atomic_facts [OF bolt assms(2)] show ?thesis by blast
qed

theorem OpenNote_atomic_witness:
  "\<exists>w'. OpenNote (ex_env None (\<lambda>_. ex_time)) (NewNoteService 1024) ex_bytes ex_bytes ex_full
      = (Inr \<lparr>nt_Payload = ''P'', nt_Metadata = ex_md\<rparr>, w') \<and>
    note_at (ex_env None (\<lambda>_. ex_time)) (store w') ex_bytes = None"
proof -
  let ?E = "ex_env None (\<lambda>_. ex_time)" and ?S = "NewNoteService 1024"
  have "\<exists>w'. OpenNote ?E ?S ex_bytes ex_bytes ex_full = (Inr \<lparr>nt_Payload = ''P'', nt_Metadata = ex_md\<rparr>, w')"
    by (simp add: OpenNote_def s_now_def db_Update_reliable mem_bolt_reliable OpenNote_tx_def ex_full_def
        ex_md_valid ex_store_def ex_getRootKey ex_burnTokenVerifier deleteNoteRecords_def)
      (simp add: ex_md_of_def Before_def go_simps)
  then obtain w' where "OpenNote ?E ?S ex_bytes ex_bytes ex_full = (Inr \<lparr>nt_Payload = ''P'', nt_Metadata = ex_md\<rparr>, w')" ..
  with OpenNote_atomic [OF ex_env_ok this] show ?thesis by simp
qed

text \<open>C7: a wrong burn token never burns a valid note: the store is unchanged and no note is
  returned, however often it is tried.\<close>

theorem OpenNote_wrong_token:
  assumes "note_at E (store w) nid = Some (m, p)" "validMetadata S m"
    and "getRootKey E (root_keys_b (store w)) = Inr k"
    and "burnTokenVerifier (rk_Secret k) tok = Inr verifier" "verifier \<noteq> md_BurnVerifier m"
  shows "store (snd (OpenNote E S nid tok w)) = store w \<and> (\<exists>e. fst (OpenNote E S nid tok w) = Inl e)"
proof -
  from assms have "OpenNote_tx E S nid tok (clock E (steps w)) (store w) = Inr (None, store w)"
    by (auto simp: OpenNote_tx_def note_at_Some Let_def)
  then show ?thesis
    by (auto simp: OpenNote_def s_now_def db_Update_def Let_def split: option.split)
qed

theorem OpenNote_wrong_token_witness:
  "store (snd (OpenNote (ex_env None (\<lambda>_. ex_time)) (NewNoteService 1024) ex_bytes ex_bytes ex_foreign)) = store ex_foreign"
proof -
  let ?E = "ex_env None (\<lambda>_. ex_time)"
  have key: "getRootKey ?E (root_keys_b (store ex_foreign)) = Inr ex_rk"
    by (simp add: ex_foreign_root ex_getRootKey)
  have ver: "burnTokenVerifier (rk_Secret ex_rk) ex_bytes = Inr (ex_verifier ex_bytes)"
    by (simp add: ex_burnTokenVerifier)
  have "ex_verifier ex_bytes \<noteq> md_BurnVerifier (ex_md_of ex_other_verifier)" using ex_other_verifier(1) by simp
  from OpenNote_wrong_token [OF ex_foreign_note ex_md_valid [OF ex_other_verifier(2)] key ver this] show ?thesis by simp
qed

end
