(* ===== verification/CreateProps.thy ===== *)
theory CreateProps
  imports NoteProps
begin

text \<open>
  Properties of \<open>CreateNote\<close>: what a success stores, what a failure leaves, and that the
  stored note opens with the token it was created with.
\<close>

section \<open>Runs of CreateNote\<close>

text \<open>The store the write transaction of a request starts from: the current one, or what the
  cleanup after a full database left of it.\<close>

definition maybe_cleaned :: "'b env \<Rightarrow> NoteService \<Rightarrow> 'b world \<Rightarrow> 'b world \<Rightarrow> 'b store \<Rightarrow> bool" where
  "maybe_cleaned E S w w' st \<longleftrightarrow> st = store w \<or>
     (\<exists>i. steps w \<le> i \<and> i < steps w' \<and> Cleanup_tx E S (clock E i) (store w) = Inr ((), st))"

lemma maybe_cleaned_root:
  "bolt_ok (db E) \<Longrightarrow> maybe_cleaned E S w w' st \<Longrightarrow> root_keys_b st = root_keys_b (store w)"
  by (auto simp: maybe_cleaned_def Cleanup_tx_removes(5))

lemma maybe_cleaned_inv:
  "bolt_ok (db E) \<Longrightarrow> maybe_cleaned E S w w' st \<Longrightarrow> store_inv E S (store w) \<Longrightarrow> store_inv E S st"
  by (auto simp: maybe_cleaned_def intro: Cleanup_tx_inv)

lemma CreateNote_cases:
  assumes "bolt_ok (db E)" "CreateNote E S pid t tok payload life w = (r, w')"
  obtains (stored) p w1 st where "prepareNote E S pid t tok payload life w = (Inr p, w1)"
      "r = Inr (pr_ID p)" "maybe_cleaned E S w w' st" "create_tx E p st = Inr ((), store w')"
      "bGet (db E) (used_tickets_b (store w)) (pr_ID p) = None"
  | (failed) e where "r = Inl e" "maybe_cleaned E S w w' (store w')"
proof -
  obtain rp w1 where p: "prepareNote E S pid t tok payload life w = (rp, w1)" by fastforce
  then have st1: "store w1 = store w" and le: "steps w \<le> steps w1"
    using prepareNote_store [of E S pid t tok payload life w]
      prepareNote_steps [of w E S pid t tok payload life] by simp_all
  show thesis
  proof (cases rp)
    case (Inl e)
    with p assms(2) st1 show ?thesis
      by (intro failed [of e]) (simp_all add: CreateNote_def maybe_cleaned_def)
  next
    case (Inr q)
    with p assms(2) have s: "storeNote E S q w1 = (r, w')" by (simp add: CreateNote_def)
    then show ?thesis
    proof (cases rule: storeNote_cases)
      case direct
      with p Inr st1 create_tx_Inr(1) [OF assms(1) direct(2)] show ?thesis
        by (intro stored) (auto simp: maybe_cleaned_def)
    next
      case (retried st i)
      then have "bGet (db E) (used_tickets_b (store w1)) (pr_ID q) = None"
        using db_Update_marked [OF assms(1), of w1 q] by blast
      with retried p Inr st1 le show ?thesis
        by (intro stored) (auto simp: maybe_cleaned_def)
    next
      case (failed e)
      with st1 show ?thesis by (intro that(2)) (auto simp: maybe_cleaned_def)
    next
      case (cleaned e i)
      with st1 le show ?thesis by (intro that(2)) (auto simp: maybe_cleaned_def)
    qed
  qed
qed

text \<open>The metadata a request stores, and the clock reading it was made with.\<close>

definition created_meta :: "'b env \<Rightarrow> BurnToken \<Rightarrow> duration \<Rightarrow> 'b store \<Rightarrow> Metadata \<Rightarrow> bool" where
  "created_meta E tok life st m \<longleftrightarrow>
     (\<exists>i. md_CreatedAt m = clock E i) \<and> md_ExpiresAt m = md_CreatedAt m + life \<and>
     (\<exists>k. getRootKey E (root_keys_b st) = Inr k \<and>
        burnTokenVerifier (rk_Secret k) tok = Inr (md_BurnVerifier m))"

lemma prepareNote_meta:
  assumes "env_ok E" "prepareNote E S pid t tok payload life w = (Inr p, w1)"
  obtains m um where "unmarshalMetadata (pr_Metadata p) = Inr m"
    "unmarshalMarker (pr_Marker p) = Inr um" "created_meta E tok life (store w) m"
    "pr_Payload p = payload" "Hour \<le> life" "life \<le> svc_maxLifetime S" "pr_ID p = pid"
    "clock E (steps w) \<le> um_ExpiresAt um"
proof -
  from assms(2) obtain d v w2 where ver: "verifyTicket E t pid tok w = (Inr (d, v), w2)"
    and p: "minNoteLifetime \<le> life" "life \<le> svc_maxLifetime S" "pr_ID p = td_ID d" "pr_Payload p = payload"
    and m: "marshalMetadata (zone E) \<lparr>md_BurnVerifier = v, md_CreatedAt = clock E (steps w2),
       md_ExpiresAt = clock E (steps w2) + life\<rparr> = Inr (pr_Metadata p)"
    and u: "marshalMarker (zone E) \<lparr>um_ExpiresAt = td_Exp d\<rparr> = Inr (pr_Marker p)"
    by (rule prepareNote_Inr)
  from ver obtain pv sv k where "getRootKey E (root_keys_b (store w)) = Inr k"
    "checkSignature E (rk_Secret k) pv sv v tok = Inr ()"
    by (rule verifyTicket_Inr)
  then have "created_meta E tok life (store w) \<lparr>md_BurnVerifier = v, md_CreatedAt = clock E (steps w2),
       md_ExpiresAt = clock E (steps w2) + life\<rparr>"
    by (auto simp: created_meta_def dest: checkSignature_Inr)
  with that p assms(1) gate.gate_id [OF ver] gate.gate_time [OF ver]
    unmarshal_marshalMetadata [OF _ m] unmarshal_marshalMarker [OF _ u]
  show thesis by (simp add: minNoteLifetime_def)
qed

lemma maxLifetime_NewNoteService [simp]:
  "svc_maxLifetime (NewNoteService mx) = maxNoteLifetime" "svc_maxSize (NewNoteService mx) = mx"
  by (simp_all add: NewNoteService_def)

lemma CreateNote_inv:
  assumes "env_ok E" "\<forall>i. 0 < clock E i" "length pid = 32" "svc_maxLifetime S = maxNoteLifetime"
    and "store_inv E S (store w)" "CreateNote E S pid t tok payload life w = (r, w')"
  shows "store_inv E S (store w')"
  using env_okD(1) [OF assms(1)] assms(6)
proof (cases rule: CreateNote_cases)
  case (stored p w1 st)
  have bolt: "bolt_ok (db E)" using assms(1) by simp
  from prepareNote_ok [OF assms(1-4) stored(1)] have "prepared_ok E S p" by blast
  with create_tx_inv [OF bolt stored(4)] maybe_cleaned_inv [OF bolt stored(3) assms(5)]
  show ?thesis by simp
next
  case (failed e)
  with assms(1,5) show ?thesis by (auto intro: maybe_cleaned_inv)
qed

section \<open>A sample request\<close>

lemma ex_prepareNote:
  assumes "root_keys_b (store v0) = [(''root_key'', ex_root)]" "clk (steps v0) = ex_time"
    "clk (Suc (Suc (steps v0))) = ex_time"
  shows "prepareNote (ex_env cap clk) (NewNoteService 1024) ex_bytes (tk_Value ex_ticket) ex_bytes ''P''
     (2 * Hour) v0 =
   (Inr \<lparr>pr_ID = ex_bytes, pr_Metadata = ex_meta, pr_Payload = ''P'', pr_Marker = ex_marker\<rparr>,
    tick (tick (tick v0)))"
proof -
  have v: "verifyTicket (ex_env cap clk) (tk_Value ex_ticket) ex_bytes ex_bytes v0
    = (Inr (ex_td, ex_verifier ex_bytes), tick (tick v0))"
    by (rule ex_verifyTicket) (rule assms(1,2))+
  have n: "normalizeLifetime (NewNoteService 1024) (2 * Hour) = Inr (2 * Hour)"
    by (simp add: normalizeLifetime_def go_simps)
  have f: "td_Exp ex_td = um_ExpiresAt ex_um" "td_ID ex_td = ex_bytes"
    by (simp_all add: ex_td_def ex_um_def)
  have md: "\<lparr>md_BurnVerifier = ex_verifier ex_bytes, md_CreatedAt = ex_time, md_ExpiresAt = ex_time + 2 * Hour\<rparr> = ex_md"
    "\<lparr>um_ExpiresAt = um_ExpiresAt ex_um\<rparr> = ex_um"
    by (simp_all add: ex_md_of_def ex_um_def)
  show ?thesis
    by (simp add: prepareNote_def v n f md length_ex_ticket ticket_constants(1) s_now_def time_Add_def Let_def assms(3))
qed

lemma ex_CreateNote:
  "\<exists>w'. CreateNote (ex_env None (\<lambda>_. ex_time)) (NewNoteService 1024) ex_bytes (tk_Value ex_ticket) ex_bytes ''P''
     (2 * Hour) ex_world = (Inr ex_bytes, w')"
proof -
  have "ex_bytes \<noteq> []" using length_ex_bytes by force
  moreover have st: "store ex_world = ex_store" by (simp add: ex_world_def)
  moreover have "root_keys_b (store ex_world) = [(''root_key'', ex_root)]" by (simp add: st ex_store_def)
  ultimately show ?thesis
    by (simp add: CreateNote_def ex_prepareNote storeNote_def db_Update_reliable mem_bolt_reliable
        create_tx_def ex_store_def isStorageFull_def createOutcome_def)
qed

section \<open>Properties\<close>

text \<open>C5: \<open>CreateNote\<close> stores a note only under the path identifier, which neither a note
  nor a used-ticket marker may occupy, with the requested lifetime counted from the clock
  and the verifier of the presented token, together with the marker, in one step. A failed
  request stores nothing: at most the cleanup it ran on a full database took effect.\<close>

theorem CreateNote_refines:
  assumes "env_ok E" "CreateNote E S pid t tok payload life w = (r, w')"
  shows "\<exists>st. maybe_cleaned E S w w' st \<and>
    (case r of
       Inr nid \<Rightarrow> nid = pid \<and>
         (\<exists>m e. created_meta E tok life (store w) m \<and> clock E (steps w) \<le> e \<and>
            spec_create pid m payload e (vault_of E st) = Some (vault_of E (store w')))
     | Inl e \<Rightarrow> store w' = st)"
  using env_okD(1) [OF assms(1)] assms(2)
proof (cases rule: CreateNote_cases)
  case (stored p w1 st)
  have bolt: "bolt_ok (db E)" using assms(1) by simp
  from assms(1) stored(1) obtain m um where
    m: "unmarshalMetadata (pr_Metadata p) = Inr m" "unmarshalMarker (pr_Marker p) = Inr um"
    and rest: "created_meta E tok life (store w) m" "pr_Payload p = payload" "pr_ID p = pid"
      "clock E (steps w) \<le> um_ExpiresAt um"
    by (rule prepareNote_meta)
  from create_tx_vault [OF bolt stored(4) m] rest stored(2,3) show ?thesis by auto
next
  case (failed e)
  then show ?thesis by auto
qed

theorem CreateNote_refines_witness:
  "\<exists>w' st m e. CreateNote (ex_env None (\<lambda>_. ex_time)) (NewNoteService 1024) ex_bytes (tk_Value ex_ticket)
     ex_bytes ''P'' (2 * Hour) ex_world = (Inr ex_bytes, w') \<and>
   spec_create ex_bytes m ''P'' e (vault_of (ex_env None (\<lambda>_. ex_time)) st)
     = Some (vault_of (ex_env None (\<lambda>_. ex_time)) (store w'))"
proof -
  obtain w' where r: "CreateNote (ex_env None (\<lambda>_. ex_time)) (NewNoteService 1024) ex_bytes
    (tk_Value ex_ticket) ex_bytes ''P'' (2 * Hour) ex_world = (Inr ex_bytes, w')"
    using ex_CreateNote by blast
  with CreateNote_refines [OF ex_env_ok r] show ?thesis by auto
qed

text \<open>C2: a note that was created opens: from the store a successful \<open>CreateNote\<close> leaves, on
  a database that works, \<open>OpenNote\<close> with the same token at any time up to the requested
  lifetime after the creation returns exactly the payload that was stored.\<close>

theorem create_then_open:
  assumes "env_ok E" "reliable (db E)" "\<forall>i. 0 < clock E i" "length pid = 32" "S = NewNoteService mx"
    and "store_inv E S (store w)" "CreateNote E S pid t tok payload life w = (Inr nid, w')"
  shows "\<exists>m. md_ExpiresAt m = md_CreatedAt m + life \<and> (\<exists>i. md_CreatedAt m = clock E i) \<and>
    (\<forall>v. store v = store w' \<and> clock E (steps v) \<le> md_ExpiresAt m \<longrightarrow>
       fst (OpenNote E S nid tok v) = Inr \<lparr>nt_Payload = payload, nt_Metadata = m\<rparr>)"
  using env_okD(1) [OF assms(1)] assms(7)
proof (cases rule: CreateNote_cases)
  case (stored p w1 st)
  have bolt: "bolt_ok (db E)" using assms(1) by simp
  from assms(1) stored(1) obtain m um where
    m: "unmarshalMetadata (pr_Metadata p) = Inr m" "unmarshalMarker (pr_Marker p) = Inr um"
    and meta: "created_meta E tok life (store w) m" and p: "pr_Payload p = payload" "pr_ID p = pid"
    by (rule prepareNote_meta)
  have mx: "svc_maxLifetime S = maxNoteLifetime" using assms(5) by simp
  have inv: "store_inv E S (store w')"
    by (rule CreateNote_inv [OF assms(1,3,4) mx assms(6,7)])
  note C = create_tx_Inr [OF bolt stored(4)]
  have nt: "note_at E (store w') pid = Some (m, payload)"
    using m p by (simp add: note_at_Some C)
  have root: "root_keys_b (store w') = root_keys_b (store w)"
    using C(8) maybe_cleaned_root [OF bolt stored(3)] by simp
  from meta obtain k where k: "getRootKey E (root_keys_b (store w)) = Inr k"
    "burnTokenVerifier (rk_Secret k) tok = Inr (md_BurnVerifier m)"
    by (auto simp: created_meta_def)
  have "fst (OpenNote E S nid tok v) = Inr \<lparr>nt_Payload = payload, nt_Metadata = m\<rparr>"
    if "store v = store w'" "clock E (steps v) \<le> md_ExpiresAt m" for v
  proof -
    obtain st' where "deleteNoteRecords E (store w') pid = Inr st'"
      by (rule deleteNoteRecords_reliable [OF assms(2)])
    moreover have "validMetadata S m"
      using prepareNote_ok(1) [OF assms(1,3,4) mx stored(1)] m(1) by (auto simp: prepared_ok_def)
    moreover have "nid = pid" using stored(2) p(2) by simp
    ultimately show ?thesis
      using nt that k root assms(2)
      by (auto simp: OpenNote_def s_now_def db_Update_reliable OpenNote_tx_def note_at_Some Let_def
          Before_def not_less)
  qed
  with meta show ?thesis by (auto simp: created_meta_def)
qed (use assms(7) in simp)

theorem create_then_open_witness:
  "\<exists>w' m. CreateNote (ex_env None (\<lambda>_. ex_time)) (NewNoteService 1024) ex_bytes (tk_Value ex_ticket)
     ex_bytes ''P'' (2 * Hour) ex_world = (Inr ex_bytes, w') \<and>
   fst (OpenNote (ex_env None (\<lambda>_. ex_time)) (NewNoteService 1024) ex_bytes ex_bytes w')
     = Inr \<lparr>nt_Payload = ''P'', nt_Metadata = m\<rparr>"
proof -
  let ?E = "ex_env None (\<lambda>_. ex_time)"
  obtain w' where r: "CreateNote ?E (NewNoteService 1024) ex_bytes
    (tk_Value ex_ticket) ex_bytes ''P'' (2 * Hour) ex_world = (Inr ex_bytes, w')"
    using ex_CreateNote by blast
  have rel: "reliable (db ?E)" and clk: "\<forall>i. 0 < clock ?E i"
    and inv: "store_inv ?E (NewNoteService 1024) (store ex_world)"
    by (simp_all add: mem_bolt_reliable ex_time_def ex_world_def ex_store_inv)
  from create_then_open [OF ex_env_ok rel clk length_ex_bytes refl inv r] obtain m where
    "md_ExpiresAt m = md_CreatedAt m + 2 * Hour" "md_CreatedAt m = ex_time"
    and "\<forall>v. store v = store w' \<and> clock ?E (steps v) \<le> md_ExpiresAt m \<longrightarrow>
       fst (OpenNote ?E (NewNoteService 1024) ex_bytes ex_bytes v) = Inr \<lparr>nt_Payload = ''P'', nt_Metadata = m\<rparr>"
    by auto
  then have "fst (OpenNote ?E (NewNoteService 1024) ex_bytes ex_bytes w') = Inr \<lparr>nt_Payload = ''P'', nt_Metadata = m\<rparr>"
    by (simp add: go_simps)
  with r show ?thesis by blast
qed

end
