(* ===== verification/Runs.thy ===== *)
theory Runs
  imports GoPrelude
begin

text \<open>
  Runs, and how a fact about one operation or one step lifts to a run: sequences of
  operations that return a reply, and finite paths of a labelled step relation. The
  interfaces are interpreted on the service, on its interleavings and on the rate limiter.
\<close>

section \<open>Runs\<close>

fun run_all :: "('q \<Rightarrow> 's \<Rightarrow> 'r \<times> 's) \<Rightarrow> 'q list \<Rightarrow> 's \<Rightarrow> ('q \<times> 'r) list \<times> 's" where
  "run_all exec [] s = ([], s)"
| "run_all exec (q # qs) s =
     (case exec q s of (r, s1) \<Rightarrow> (case run_all exec qs s1 of (lg, s2) \<Rightarrow> ((q, r) # lg, s2)))"

text \<open>Operations that keep an invariant: so does every run of good requests.\<close>

locale kept_invariant =
  fixes exec :: "'q \<Rightarrow> 's \<Rightarrow> 'r \<times> 's" and good :: "'q \<Rightarrow> bool" and inv :: "'s \<Rightarrow> bool"
  assumes exec_inv: "good q \<Longrightarrow> inv s \<Longrightarrow> exec q s = (r, s') \<Longrightarrow> inv s'"
begin

lemma run_inv: "\<forall>q \<in> set qs. good q \<Longrightarrow> inv s \<Longrightarrow> run_all exec qs s = (lg, s') \<Longrightarrow> inv s'"
proof (induction qs arbitrary: s lg)
  case (Cons q qs)
  obtain r s1 where r: "exec q s = (r, s1)" by fastforce
  with Cons.prems obtain lg1 where "run_all exec qs s1 = (lg1, s')"
    by (auto split: prod.splits)
  with Cons.IH [of s1] Cons.prems exec_inv [OF _ _ r] show ?case by simp
qed simp

end

text \<open>Operations whose gains are paid from a potential: the gains of a run are bounded by the
  potential it starts with.\<close>

locale paid_gains = kept_invariant +
  fixes gain :: "'q \<Rightarrow> 'r \<Rightarrow> int" and pot :: "'s \<Rightarrow> int"
  assumes exec_gain: "good q \<Longrightarrow> inv s \<Longrightarrow> exec q s = (r, s') \<Longrightarrow> gain q r + pot s' \<le> pot s"
begin

lemma run_gain:
  "\<forall>q \<in> set qs. good q \<Longrightarrow> inv s \<Longrightarrow> run_all exec qs s = (lg, s') \<Longrightarrow>
   (\<Sum>(q, r) \<leftarrow> lg. gain q r) + pot s' \<le> pot s"
proof (induction qs arbitrary: s lg)
  case (Cons q qs)
  obtain r s1 where r: "exec q s = (r, s1)" by fastforce
  with Cons.prems obtain lg1 where l: "run_all exec qs s1 = (lg1, s')" "lg = (q, r) # lg1"
    by (auto split: prod.splits)
  with Cons.IH [of s1] Cons.prems exec_inv [OF _ _ r] exec_gain [OF _ _ r] show ?case by fastforce
qed simp

end

section \<open>Paths of a step relation\<close>

text \<open>Finite runs of a step relation, with the labels they show.\<close>

inductive path :: "('c \<Rightarrow> 'l \<Rightarrow> 'c \<Rightarrow> bool) \<Rightarrow> 'c \<Rightarrow> 'l list \<Rightarrow> 'c \<Rightarrow> bool"
  for step :: "'c \<Rightarrow> 'l \<Rightarrow> 'c \<Rightarrow> bool" where
  halt: "path step c [] c"
| more: "step c l c1 \<Longrightarrow> path step c1 ls c2 \<Longrightarrow> path step c (l # ls) c2"

inductive_simps path_Nil [simp]: "path step c [] c'"
inductive_simps path_Cons: "path step c (l # ls) c'"

lemma path_trans: "path step c ls c1 \<Longrightarrow> path step c1 ls' c2 \<Longrightarrow> path step c (ls @ ls') c2"
  by (induction rule: path.induct) (auto intro: path.more)

text \<open>A step relation that keeps an invariant along labels of a kind.\<close>

locale step_invariant =
  fixes step :: "'c \<Rightarrow> 'l \<Rightarrow> 'c \<Rightarrow> bool" and good :: "'l \<Rightarrow> bool" and inv :: "'c \<Rightarrow> bool"
  assumes step_inv: "good l \<Longrightarrow> inv c \<Longrightarrow> step c l c' \<Longrightarrow> inv c'"
begin

lemma path_inv: "path step c ls c' \<Longrightarrow> \<forall>l \<in> set ls. good l \<Longrightarrow> inv c \<Longrightarrow> inv c'"
  by (induction rule: path.induct) (auto intro: step_inv)

end

text \<open>A step relation whose gains are paid from a potential.\<close>

locale step_gains = step_invariant +
  fixes gain :: "'b \<Rightarrow> int" and pot :: "'a \<Rightarrow> int"
  assumes step_gain: "good l \<Longrightarrow> inv c \<Longrightarrow> step c l c' \<Longrightarrow> gain l + pot c' \<le> pot c"
begin

lemma path_gain:
  "path step c ls c' \<Longrightarrow> \<forall>l \<in> set ls. good l \<Longrightarrow> inv c \<Longrightarrow> sum_list (map gain ls) + pot c' \<le> pot c"
proof (induction rule: path.induct)
  case (more c l c1 ls c2)
  with step_inv [of l c c1] step_gain [of l c c1] show ?case by simp
qed simp

end

end
