(* ===== verification/ServiceTraces.thy ===== *)
theory ServiceTraces
  imports CreateProps Runs
begin

text \<open>
  Sequences of service operations, each running to completion: what holds over a whole run
  of the server when requests are served one after the other. The interfaces of \<open>Runs\<close>
  are interpreted on \<open>serve\<close>.
\<close>

section \<open>The service's operations\<close>

datatype request =
    IssueTicket
  | StoreNote NoteID string BurnToken bytes duration
  | ReadNote NoteID BurnToken
  | RunCleanup
  | InitKeys

datatype reply =
    TicketReply "Ticket result"
  | StoreReply "NoteID result"
  | ReadReply "Note result"
  | UnitReply "unit result"

fun serve :: "'b env \<Rightarrow> NoteService \<Rightarrow> request \<Rightarrow> 'b world \<Rightarrow> reply \<times> 'b world" where
  "serve E S IssueTicket w = (case CreateTicket E w of (r, w') \<Rightarrow> (TicketReply r, w'))"
| "serve E S (StoreNote pid t tok payload life) w =
     (case CreateNote E S pid t tok payload life w of (r, w') \<Rightarrow> (StoreReply r, w'))"
| "serve E S (ReadNote nid tok) w = (case OpenNote E S nid tok w of (r, w') \<Rightarrow> (ReadReply r, w'))"
| "serve E S RunCleanup w = (case Cleanup E S w of (r, w') \<Rightarrow> (UnitReply r, w'))"
| "serve E S InitKeys w = (case EnsureRootKeys E w of (r, w') \<Rightarrow> (UnitReply r, w'))"

text \<open>A request whose identifiers are \<open>NoteID\<close> values.\<close>

fun wf_request :: "request \<Rightarrow> bool" where
  "wf_request (StoreNote pid t tok payload life) \<longleftrightarrow> length pid = 32"
| "wf_request _ \<longleftrightarrow> True"

lemma CreateTicket_steps: "steps (snd (CreateTicket E w)) = steps w + 3"
  by (simp add: CreateTicket_def s_random_def s_now_def db_View_def Let_def split: prod.split option.split)

lemma CreateNote_steps: "steps w \<le> steps (snd (CreateNote E S pid t tok payload life w))"
proof -
  obtain r w1 where p: "prepareNote E S pid t tok payload life w = (r, w1)" by fastforce
  then have "steps w \<le> steps w1" using prepareNote_steps [of w E S pid t tok payload life] by simp
  then show ?thesis
    using storeNote_steps [of w1 E S] p by (auto simp: CreateNote_def intro: le_trans split: sum.split)
qed

lemma EnsureRootKeys_cases:
  assumes "EnsureRootKeys E w = (r, w')"
  obtains (failed) e where "r = Inl e" "store w' = store w" "steps w' = steps w + 2"
  | (committed) now rnd where "r = Inr ()" "EnsureRootKeys_tx E now rnd (store w) = Inr ((), store w')"
      "steps w' = steps w + 2"
proof (cases r)
  case (Inl e)
  with assms show ?thesis
    by (intro failed [of e]) (auto simp: EnsureRootKeys_def s_now_def dest: db_Update_Inl)
next
  case (Inr u)
  with assms have u: "db_Update (db E) (EnsureRootKeys_tx E (clock E (steps w)) (random E (Suc (steps w)))) (tick w)
      = (Inr u, w')"
    by (simp add: EnsureRootKeys_def s_now_def)
  from db_Update_Inr [OF u] Inr
    db_Update_steps [of "db E" "EnsureRootKeys_tx E (clock E (steps w)) (random E (Suc (steps w)))" "tick w"] u
  show ?thesis by (intro committed) simp_all
qed

lemma serve_steps: "serve E S q w = (r, w') \<Longrightarrow> steps w \<le> steps w'"
  using CreateTicket_steps [of E w] CreateNote_steps [of w E S]
  by (cases q) (auto split: prod.splits elim!: OpenNote_cases Cleanup_cases EnsureRootKeys_cases,
      metis snd_conv)

section \<open>The invariant over a run\<close>

definition sound_setting :: "'b env \<Rightarrow> NoteService \<Rightarrow> request \<Rightarrow> bool" where
  "sound_setting E S q \<longleftrightarrow> env_ok E \<and> (\<forall>i. 0 < clock E i) \<and> svc_maxLifetime S = maxNoteLifetime \<and> wf_request q"

lemma serve_inv:
  assumes "sound_setting E S q" "store_inv E S (store w)" "serve E S q w = (r, w')"
  shows "store_inv E S (store w')"
proof -
  have ok: "env_ok E" and clk: "\<forall>i. 0 < clock E i" and mx: "svc_maxLifetime S = maxNoteLifetime"
    and bolt: "bolt_ok (db E)"
    using assms(1) by (simp_all add: sound_setting_def)
  show ?thesis
  proof (cases q)
    case IssueTicket
    with assms(3) have "w' = snd (CreateTicket E w)" by (simp split: prod.splits)
    with assms(2) show ?thesis by simp
  next
    case (StoreNote pid t tok payload life)
    then have "length pid = 32" using assms(1) by (simp add: sound_setting_def)
    with StoreNote assms(3) CreateNote_inv [OF ok clk _ mx assms(2), of pid t tok payload life]
    show ?thesis by (auto split: prod.splits)
  next
    case (ReadNote nid tok)
    with assms(3) obtain r1 where "OpenNote E S nid tok w = (r1, w')" by (auto split: prod.splits)
    then show ?thesis
      by (cases rule: OpenNote_cases) (use assms(2) bolt in \<open>auto intro: OpenNote_tx_inv\<close>)
  next
    case RunCleanup
    with assms(3) obtain r1 where "Cleanup E S w = (r1, w')" by (auto split: prod.splits)
    then show ?thesis
      by (cases rule: Cleanup_cases) (use assms(2) bolt in \<open>auto intro: Cleanup_tx_inv\<close>)
  next
    case InitKeys
    with assms(3) obtain r1 where "EnsureRootKeys E w = (r1, w')" by (auto split: prod.splits)
    then show ?thesis
      by (cases rule: EnsureRootKeys_cases) (use assms(2) in \<open>auto intro: EnsureRootKeys_tx_inv\<close>)
  qed
qed

interpretation serving: kept_invariant "serve E S" "sound_setting E S" "\<lambda>w. store_inv E S (store w)" for E S
  by unfold_locales (rule serve_inv)

section \<open>A note is opened at most as often as it is created\<close>

definition present :: "'b env \<Rightarrow> NoteID \<Rightarrow> 'b world \<Rightarrow> bool" where
  "present E nid w \<longleftrightarrow> bGet (db E) (metadata_b (store w)) nid \<noteq> None \<and>
     bGet (db E) (payloads_b (store w)) nid \<noteq> None"

fun opened_note :: "NoteID \<Rightarrow> request \<times> reply \<Rightarrow> bool" where
  "opened_note nid (ReadNote n tok, ReadReply (Inr note)) \<longleftrightarrow> n = nid"
| "opened_note nid _ \<longleftrightarrow> False"

fun created_note :: "NoteID \<Rightarrow> request \<times> reply \<Rightarrow> bool" where
  "created_note nid (StoreNote p t tok payload life, StoreReply (Inr n)) \<longleftrightarrow> n = nid"
| "created_note nid _ \<longleftrightarrow> False"

fun_cases created_noteE: "created_note nid (q, r)"

definition open_gain :: "NoteID \<Rightarrow> request \<Rightarrow> reply \<Rightarrow> int" where
  "open_gain nid q r = of_bool (opened_note nid (q, r)) - of_bool (created_note nid (q, r))"

definition present_pot :: "'b env \<Rightarrow> NoteID \<Rightarrow> 'b world \<Rightarrow> int" where
  "present_pot E nid w = of_bool (present E nid w)"

lemma serve_OpenNote_gain:
  assumes "bolt_ok (db E)" "OpenNote E S n tok w = (r, w')"
  shows "open_gain nid (ReadNote n tok) (ReadReply r) + present_pot E nid w' \<le> present_pot E nid w"
  using assms(2)
proof (cases rule: OpenNote_cases)
  case (opened nt)
  from opened(3) obtain mb where "bGet (db E) (metadata_b (store w)) n = Some mb"
    "bGet (db E) (payloads_b (store w)) n = Some (nt_Payload nt)"
    "deleteNoteRecords E (store w) n = Inr (store w')"
    by (rule OpenNote_tx_Some)
  with opened(1) deleteNoteRecords_Inr [OF assms(1), of "store w" n "store w'"] show ?thesis
    by (auto simp: open_gain_def present_pot_def present_def)
next
  case refused
  from OpenNote_tx_None [OF refused(3)] deleteNoteRecords_Inr [OF assms(1), of "store w" n "store w'"] refused(1)
  show ?thesis by (auto simp: open_gain_def present_pot_def present_def split: if_splits)
qed (simp add: open_gain_def present_pot_def present_def)

lemma maybe_cleaned_present:
  assumes "bolt_ok (db E)" "maybe_cleaned E S w w1 st" "store v = st"
  shows "present E nid v \<Longrightarrow> present E nid w"
  using assms(2,3) Cleanup_tx_removes(1,2) [OF assms(1), of S _ "store w" _ st nid]
  unfolding maybe_cleaned_def present_def by auto metis+

lemma serve_CreateNote_gain:
  assumes "bolt_ok (db E)" "CreateNote E S pid t tok payload life w = (r, w')"
  shows "open_gain nid (StoreNote pid t tok payload life) (StoreReply r) + present_pot E nid w' \<le> present_pot E nid w"
  using assms
proof (cases rule: CreateNote_cases)
  case (stored p w1 st)
  have "present E nid (w\<lparr>store := st\<rparr>) \<Longrightarrow> present E nid w"
    by (rule maybe_cleaned_present [OF assms(1) stored(3)]) simp_all
  with stored(2) create_tx_Inr [OF assms(1) stored(4)] show ?thesis
    by (auto simp: open_gain_def present_pot_def present_def)
next
  case (failed e)
  have "present E nid w' \<Longrightarrow> present E nid w"
    by (rule maybe_cleaned_present [OF assms(1) failed(2)]) simp_all
  with failed(1) show ?thesis by (auto simp: open_gain_def present_pot_def)
qed

lemma serve_open_gain:
  assumes "env_ok E" "serve E S q w = (r, w')"
  shows "open_gain nid q r + present_pot E nid w' \<le> present_pot E nid w"
proof -
  have bolt: "bolt_ok (db E)" using assms(1) by simp
  show ?thesis
  proof (cases q)
    case IssueTicket
    with assms(2) have "w' = snd (CreateTicket E w)" "\<exists>t. r = TicketReply t" by (auto split: prod.splits)
    with IssueTicket show ?thesis by (auto simp: open_gain_def present_pot_def present_def)
  next
    case (StoreNote pid t tok payload life)
    with assms(2) serve_CreateNote_gain [OF bolt] show ?thesis by (auto split: prod.splits)
  next
    case (ReadNote n tok)
    with assms(2) serve_OpenNote_gain [OF bolt] show ?thesis by (auto split: prod.splits)
  next
    case RunCleanup
    with assms(2) obtain r1 where c: "Cleanup E S w = (r1, w')" "r = UnitReply r1" by (auto split: prod.splits)
    then have "maybe_cleaned E S w w' (store w')"
      by (cases rule: Cleanup_cases) (auto simp: maybe_cleaned_def)
    from maybe_cleaned_present [OF bolt this] RunCleanup c(2) show ?thesis
      by (auto simp: open_gain_def present_pot_def)
  next
    case InitKeys
    with assms(2) obtain r1 where c: "EnsureRootKeys E w = (r1, w')" "r = UnitReply r1" by (auto split: prod.splits)
    then have "metadata_b (store w') = metadata_b (store w) \<and> payloads_b (store w') = payloads_b (store w)"
      by (cases rule: EnsureRootKeys_cases) (auto dest: EnsureRootKeys_tx_frame)
    with InitKeys c(2) show ?thesis by (simp add: open_gain_def present_pot_def present_def)
  qed
qed

interpretation open_runs: paid_gains "serve E S" "\<lambda>q. env_ok E" "\<lambda>w. True" "open_gain nid" "present_pot E nid" for E S nid
  by unfold_locales (simp_all add: serve_open_gain)

lemma sum_open_gain:
  "(\<Sum>(q, r) \<leftarrow> lg. open_gain nid q r) =
   int (length (filter (opened_note nid) lg)) - int (length (filter (created_note nid) lg))"
  by (induction lg) (auto simp: open_gain_def)

section \<open>A ticket is used at most once\<close>

text \<open>A ticket is spent when the marker of its identifier is in place with its expiry, or when
  the clock has already shown a time after that expiry.\<close>

definition spent :: "'b env \<Rightarrow> string \<Rightarrow> 'b world \<Rightarrow> bool" where
  "spent E t w \<longleftrightarrow> (\<exists>pv sv d. decodeTicket E t = Inr (pv, sv, d) \<and>
     (marker_at E (store w) (td_ID d) = Some (td_Exp d) \<or> (\<exists>i < steps w. td_Exp d < clock E i)))"

fun used_ticket :: "string \<Rightarrow> request \<times> reply \<Rightarrow> bool" where
  "used_ticket t (StoreNote p s tok payload life, StoreReply (Inr n)) \<longleftrightarrow> s = t"
| "used_ticket t _ \<longleftrightarrow> False"

fun_cases used_ticketE: "used_ticket t (q, r)"

definition ticket_gain :: "string \<Rightarrow> request \<Rightarrow> reply \<Rightarrow> int" where
  "ticket_gain t q r = of_bool (used_ticket t (q, r))"

definition ticket_pot :: "'b env \<Rightarrow> string \<Rightarrow> 'b world \<Rightarrow> int" where
  "ticket_pot E t w = of_bool (\<not> spent E t w)"

lemma maybe_cleaned_marker:
  assumes "bolt_ok (db E)" "maybe_cleaned E S w w' st" "marker_at E (store w) k = Some e"
  shows "marker_at E st k = Some e \<or> (\<exists>i < steps w'. e < clock E i)"
proof (cases "st = store w")
  case False
  with assms(2) obtain i where i: "i < steps w'" and tx: "Cleanup_tx E S (clock E i) (store w) = Inr ((), st)"
    by (auto simp: maybe_cleaned_def)
  from assms(3) obtain ub um where ub: "bGet (db E) (used_tickets_b (store w)) k = Some ub"
    "unmarshalMarker ub = Inr um" "e = um_ExpiresAt um"
    by (auto simp: marker_at_def split: option.splits sum.splits)
  show ?thesis
  proof (cases "staleMarker E (clock E i) ub")
    case True
    with ub i show ?thesis by (auto simp: staleMarker_def Before_def)
  next
    case False
    from Cleanup_tx_removes(4) [OF assms(1) tx ub(1) False] ub show ?thesis
      by (simp add: marker_at_def)
  qed
qed (use assms(3) in simp)

lemma create_tx_marker:
  assumes "bolt_ok (db E)" "create_tx E p st = Inr (u, st')" "marker_at E st k = Some e"
  shows "marker_at E st' k = Some e"
  using assms(3) create_tx_Inr [OF assms(1,2)] by (auto simp: marker_at_def)

lemma serve_marker:
  assumes "env_ok E" "serve E S q w = (r, w')" "marker_at E (store w) k = Some e"
  shows "marker_at E (store w') k = Some e \<or> (\<exists>i < steps w'. e < clock E i)"
proof -
  have bolt: "bolt_ok (db E)" using assms(1) by simp
  show ?thesis
  proof (cases q)
    case IssueTicket
    with assms(2) have "w' = snd (CreateTicket E w)" by (simp split: prod.splits)
    with assms(3) show ?thesis by simp
  next
    case (StoreNote pid t tok payload life)
    with assms(2) obtain r1 where "CreateNote E S pid t tok payload life w = (r1, w')" by (auto split: prod.splits)
    with bolt show ?thesis
    proof (cases rule: CreateNote_cases)
      case (stored p w1 st)
      from maybe_cleaned_marker [OF bolt stored(3) assms(3)] create_tx_marker [OF bolt stored(4)]
      show ?thesis by blast
    next
      case (failed e)
      from maybe_cleaned_marker [OF bolt failed(2) assms(3)] show ?thesis .
    qed
  next
    case (ReadNote n tok)
    with assms(2) obtain r1 where "OpenNote E S n tok w = (r1, w')" by (auto split: prod.splits)
    from OpenNote_atomic_facts [OF bolt this] assms(3) show ?thesis by simp
  next
    case RunCleanup
    with assms(2) obtain r1 where "Cleanup E S w = (r1, w')" by (auto split: prod.splits)
    then have "maybe_cleaned E S w w' (store w')"
      by (cases rule: Cleanup_cases) (auto simp: maybe_cleaned_def)
    from maybe_cleaned_marker [OF bolt this assms(3)] show ?thesis .
  next
    case InitKeys
    with assms(2) obtain r1 where "EnsureRootKeys E w = (r1, w')" by (auto split: prod.splits)
    then have "used_tickets_b (store w') = used_tickets_b (store w)"
      by (cases rule: EnsureRootKeys_cases) (auto dest: EnsureRootKeys_tx_frame)
    with assms(3) show ?thesis by (simp add: marker_at_def)
  qed
qed


lemma spent_kept:
  assumes "env_ok E" "serve E S q w = (r, w')" "spent E t w"
  shows "spent E t w'"
proof -
  from assms(3) obtain pv sv d where d: "decodeTicket E t = Inr (pv, sv, d)"
    "marker_at E (store w) (td_ID d) = Some (td_Exp d) \<or> (\<exists>i < steps w. td_Exp d < clock E i)"
    by (auto simp: spent_def)
  have "marker_at E (store w') (td_ID d) = Some (td_Exp d) \<or> (\<exists>i < steps w'. td_Exp d < clock E i)"
    using d(2) serve_marker [OF assms(1,2)] serve_steps [OF assms(2)] order_less_le_trans by blast
  with d(1) show ?thesis by (auto simp: spent_def)
qed

lemma CreateNote_spends:
  assumes "env_ok E" "mono (clock E)" "CreateNote E S pid t tok payload life w = (Inr nid, w')"
  shows "\<not> spent E t w" "spent E t w'"
  using env_okD(1) [OF assms(1)] assms(3)
proof (atomize (full), cases rule: CreateNote_cases)
  case (stored p w1 st)
  from stored(1) obtain d v w2 where ver: "verifyTicket E t pid tok w = (Inr (d, v), w2)"
    and p: "pr_ID p = td_ID d" "marshalMarker (zone E) \<lparr>um_ExpiresAt = td_Exp d\<rparr> = Inr (pr_Marker p)"
    by (rule prepareNote_Inr)
  from ver obtain pv sv where dec: "decodeTicket E t = Inr (pv, sv, d)"
    by (rule verifyTicket_Inr)
  have "clock E i \<le> td_Exp d" if "i < steps w" for i
    using monoD [OF assms(2) less_imp_le [OF that]] gate.gate_time [OF ver] by simp
  moreover have "marker_at E (store w) (td_ID d) = None"
    using stored(5) p(1) by (simp add: marker_at_def)
  ultimately have "\<not> spent E t w"
    using dec by (force simp: spent_def)
  moreover have "marker_at E (store w') (td_ID d) = Some (td_Exp d)"
    using create_tx_Inr(6) [OF env_okD(1) [OF assms(1)] stored(4)] p assms(1)
      unmarshal_marshalMarker [OF _ p(2)] by (simp add: marker_at_def)
  ultimately show "\<not> spent E t w \<and> spent E t w'"
    using dec by (auto simp: spent_def)
qed simp

lemma serve_ticket_gain:
  assumes "env_ok E \<and> mono (clock E)" "serve E S q w = (r, w')"
  shows "ticket_gain t q r + ticket_pot E t w' \<le> ticket_pot E t w"
proof (cases "used_ticket t (q, r)")
  case True
  then obtain p tok payload life nid where q: "q = StoreNote p t tok payload life" "r = StoreReply (Inr nid)"
    by (elim used_ticketE) auto
  with assms(2) have "CreateNote E S p t tok payload life w = (Inr nid, w')"
    by (auto split: prod.splits)
  from CreateNote_spends [OF _ _ this] assms(1) True show ?thesis
    by (simp add: ticket_gain_def ticket_pot_def)
next
  case False
  with spent_kept [OF _ assms(2), of t] assms(1) show ?thesis
    by (auto simp: ticket_gain_def ticket_pot_def)
qed

interpretation ticket_runs: paid_gains "serve E S" "\<lambda>q. env_ok E \<and> mono (clock E)" "\<lambda>w. True"
    "ticket_gain t" "ticket_pot E t" for E S t
  by unfold_locales (simp_all add: serve_ticket_gain)

lemma sum_ticket_gain:
  "(\<Sum>(q, r) \<leftarrow> lg. ticket_gain t q r) = int (length (filter (used_ticket t) lg))"
  by (induction lg) (auto simp: ticket_gain_def)

section \<open>Properties\<close>

text \<open>In a sequential run of the service, whatever bbolt, the clock and the requests do, a note
  is opened at most once per creation: with no note under the identifier at the
  start, at most as many requests receive it as requests created it.\<close>

lemma open_at_most_once:
  assumes "env_ok E" "run_all (serve E S) qs w = (lg, w')"
    and "bGet (db E) (metadata_b (store w)) nid = None"
  shows "length (filter (opened_note nid) lg) \<le> length (filter (created_note nid) lg)"
proof -
  have "int (length (filter (opened_note nid) lg)) - int (length (filter (created_note nid) lg)) +
      present_pot E nid w' \<le> present_pot E nid w"
    using open_runs.run_gain [where nid = nid, OF _ _ assms(2)] assms(1) by (simp add: sum_open_gain)
  moreover have "0 \<le> present_pot E nid w'" "present_pot E nid w = 0"
    using assms(3) by (simp_all add: present_pot_def present_def)
  ultimately show ?thesis by linarith
qed

lemma ex_open_at_most_once:
  "\<exists>lg w'. run_all (serve (ex_env None (\<lambda>_. ex_time)) (NewNoteService 1024))
     [StoreNote ex_bytes (tk_Value ex_ticket) ex_bytes ''P'' (2 * Hour), ReadNote ex_bytes ex_bytes,
      ReadNote ex_bytes ex_bytes] ex_world = (lg, w') \<and>
   length (filter (opened_note ex_bytes) lg) \<le> length (filter (created_note ex_bytes) lg)"
proof -
  let ?E = "ex_env None (\<lambda>_. ex_time)" and ?qs = "[StoreNote ex_bytes (tk_Value ex_ticket) ex_bytes ''P'' (2 * Hour),
    ReadNote ex_bytes ex_bytes, ReadNote ex_bytes ex_bytes]"
  obtain lg w' where r: "run_all (serve ?E (NewNoteService 1024)) ?qs ex_world = (lg, w')" by fastforce
  have "bGet (db ?E) (metadata_b (store ex_world)) ex_bytes = None"
    by (simp add: ex_world_def ex_store_def)
  from open_at_most_once [OF ex_env_ok r this] r show ?thesis by blast
qed

text \<open>C14: in a sequential run under a clock that never goes back, a ticket text creates at
  most one note, whatever identifier, token and payload it is presented with and whatever
  cleanups, openings and database failures happen in between.\<close>

theorem ticket_single_use:
  assumes "env_ok E" "mono (clock E)" "run_all (serve E S) qs w = (lg, w')"
  shows "length (filter (used_ticket t) lg) \<le> 1"
proof -
  have "int (length (filter (used_ticket t) lg)) + ticket_pot E t w' \<le> ticket_pot E t w"
    using ticket_runs.run_gain [where t = t, OF _ _ assms(3)] assms(1,2) by (simp add: sum_ticket_gain)
  moreover have "0 \<le> ticket_pot E t w'" "ticket_pot E t w \<le> 1"
    by (simp_all add: ticket_pot_def)
  ultimately show ?thesis by linarith
qed

theorem ticket_single_use_witness:
  "\<exists>lg w'. run_all (serve (ex_env None (\<lambda>_. ex_time)) (NewNoteService 1024))
     [StoreNote ex_bytes (tk_Value ex_ticket) ex_bytes ''P'' (2 * Hour), ReadNote ex_bytes ex_bytes,
      StoreNote ex_bytes (tk_Value ex_ticket) ex_bytes ''P'' (2 * Hour)] ex_world = (lg, w') \<and>
   length (filter (used_ticket (tk_Value ex_ticket)) lg) \<le> 1"
proof -
  let ?E = "ex_env None (\<lambda>_. ex_time)" and ?q = "StoreNote ex_bytes (tk_Value ex_ticket) ex_bytes ''P'' (2 * Hour)"
  obtain lg w' where r: "run_all (serve ?E (NewNoteService 1024)) [?q, ReadNote ex_bytes ex_bytes, ?q] ex_world = (lg, w')"
    by fastforce
  have "mono (clock ?E)" by (simp add: monoI)
  from ticket_single_use [OF ex_env_ok this r] r show ?thesis by blast
qed

text \<open>Every sequential run of the service on well-formed requests keeps the store
  invariant: metadata and payload come in pairs, under 32-byte keys, with metadata that
  decodes and is valid, a non-empty payload within the size limit, and markers that decode.\<close>

lemma service_keeps_inv:
  assumes "env_ok E" "\<forall>i. 0 < clock E i" "\<forall>q \<in> set qs. wf_request q"
    and "store_inv E (NewNoteService mx) (store w)"
    and "run_all (serve E (NewNoteService mx)) qs w = (lg, w')"
  shows "store_inv E (NewNoteService mx) (store w')"
  using serving.run_inv [OF _ assms(4,5)] assms(1-3) by (simp add: sound_setting_def)

end
