(* ===== verification/Interleaving.thy ===== *)
theory Interleaving
  imports ServiceTraces
begin

text \<open>
  The service under concurrent requests. Every request runs in a goroutine of its own, and
  the cleanup job in another; bbolt serialises the write transactions, so that the atomic
  actions are the transactions and the clock readings. A task is a request between two of its
  actions; a step lets one task do its next action. The callbacks are those of
  \<open>NoteService\<close>. The part of \<open>CreateNote\<close> before its write transaction is one action: it
  reads nothing of the database but the root key, which no step changes.
\<close>

section \<open>Tasks and steps\<close>

datatype task =
    Writing string prepared
  | FullCleanup string prepared time
  | Rewriting string prepared
  | Opening NoteID BurnToken time
  | Cleaning time

datatype label =
    Internal
  | Created string NoteID
  | Opened NoteID Note
  | Cleaned time

type_synonym tasks = "nat \<rightharpoonup> task"

inductive sys_step ::
  "'b env \<Rightarrow> NoteService \<Rightarrow> 'b world \<times> tasks \<Rightarrow> label \<Rightarrow> 'b world \<times> tasks \<Rightarrow> bool"
  for E :: "'b env" and S :: NoteService where
  idle: "sys_step E S (w, T) Internal (tick w, T)"
| issue: "CreateTicket E w = (r, w') \<Longrightarrow> sys_step E S (w, T) Internal (w', T)"
| prepare: "T i = None \<Longrightarrow> length pid = 32 \<Longrightarrow>
    prepareNote E S pid t tok payload life w = (Inr p, w') \<Longrightarrow>
    sys_step E S (w, T) Internal (w', T(i \<mapsto> Writing t p))"
| reject: "prepareNote E S pid t tok payload life w = (Inl e, w') \<Longrightarrow>
    sys_step E S (w, T) Internal (w', T)"
| commit: "T i = Some (Writing t p) \<Longrightarrow> db_Update (db E) (create_tx E p) w = (r, w') \<Longrightarrow>
    \<not> isStorageFull r \<Longrightarrow> createOutcome (pr_ID p) (r, w') = (Inr nid, w'') \<Longrightarrow>
    sys_step E S (w, T) (Created t nid) (w'', T(i := None))"
| commit_failed: "T i = Some (Writing t p) \<Longrightarrow> db_Update (db E) (create_tx E p) w = (r, w') \<Longrightarrow>
    \<not> isStorageFull r \<Longrightarrow> createOutcome (pr_ID p) (r, w') = (Inl e, w'') \<Longrightarrow>
    sys_step E S (w, T) Internal (w'', T(i := None))"
| commit_full: "T i = Some (Writing t p) \<Longrightarrow> db_Update (db E) (create_tx E p) w = (r, w') \<Longrightarrow>
    isStorageFull r \<Longrightarrow> s_now E w' = (now, w'') \<Longrightarrow>
    sys_step E S (w, T) Internal (w'', T(i \<mapsto> FullCleanup t p now))"
| make_room: "T i = Some (FullCleanup t p now) \<Longrightarrow>
    db_Update (db E) (Cleanup_tx E S now) w = (Inr (), w') \<Longrightarrow>
    sys_step E S (w, T) (Cleaned now) (w', T(i \<mapsto> Rewriting t p))"
| make_room_failed: "T i = Some (FullCleanup t p now) \<Longrightarrow>
    db_Update (db E) (Cleanup_tx E S now) w = (Inl e, w') \<Longrightarrow>
    sys_step E S (w, T) Internal (w', T(i := None))"
| rewrite: "T i = Some (Rewriting t p) \<Longrightarrow>
    createOutcome (pr_ID p) (db_Update (db E) (create_tx E p) w) = (Inr nid, w') \<Longrightarrow>
    sys_step E S (w, T) (Created t nid) (w', T(i := None))"
| rewrite_failed: "T i = Some (Rewriting t p) \<Longrightarrow>
    createOutcome (pr_ID p) (db_Update (db E) (create_tx E p) w) = (Inl e, w') \<Longrightarrow>
    sys_step E S (w, T) Internal (w', T(i := None))"
| open_start: "T i = None \<Longrightarrow> s_now E w = (now, w') \<Longrightarrow>
    sys_step E S (w, T) Internal (w', T(i \<mapsto> Opening nid tok now))"
| open_hit: "T i = Some (Opening nid tok now) \<Longrightarrow>
    db_Update (db E) (OpenNote_tx E S nid tok now) w = (Inr (Some n), w') \<Longrightarrow>
    sys_step E S (w, T) (Opened nid n) (w', T(i := None))"
| open_miss: "T i = Some (Opening nid tok now) \<Longrightarrow>
    db_Update (db E) (OpenNote_tx E S nid tok now) w = (Inr None, w') \<Longrightarrow>
    sys_step E S (w, T) Internal (w', T(i := None))"
| open_failed: "T i = Some (Opening nid tok now) \<Longrightarrow>
    db_Update (db E) (OpenNote_tx E S nid tok now) w = (Inl e, w') \<Longrightarrow>
    sys_step E S (w, T) Internal (w', T(i := None))"
| clean_start: "T i = None \<Longrightarrow> s_now E w = (now, w') \<Longrightarrow>
    sys_step E S (w, T) Internal (w', T(i \<mapsto> Cleaning now))"
| clean: "T i = Some (Cleaning now) \<Longrightarrow>
    db_Update (db E) (Cleanup_tx E S now) w = (Inr (), w') \<Longrightarrow>
    sys_step E S (w, T) (Cleaned now) (w', T(i := None))"
| clean_failed: "T i = Some (Cleaning now) \<Longrightarrow>
    db_Update (db E) (Cleanup_tx E S now) w = (Inl e, w') \<Longrightarrow>
    sys_step E S (w, T) Internal (w', T(i := None))"

section \<open>What a step does to the store\<close>

text \<open>Every step is one of five effects on the store; the proofs below look only at these.\<close>

datatype effect = Keep | Write string prepared | Burn NoteID BurnToken time "Note option" | Sweep time

fun has_effect :: "'b env \<Rightarrow> NoteService \<Rightarrow> effect \<Rightarrow> 'b store \<Rightarrow> 'b store \<Rightarrow> bool" where
  "has_effect E S Keep st st' \<longleftrightarrow> st' = st"
| "has_effect E S (Write t p) st st' \<longleftrightarrow> create_tx E p st = Inr ((), st')"
| "has_effect E S (Burn nid tok now r) st st' \<longleftrightarrow> OpenNote_tx E S nid tok now st = Inr (r, st')"
| "has_effect E S (Sweep now) st st' \<longleftrightarrow> Cleanup_tx E S now st = Inr ((), st')"

fun label_of :: "effect \<Rightarrow> label" where
  "label_of (Write t p) = Created t (pr_ID p)"
| "label_of (Burn nid tok now (Some n)) = Opened nid n"
| "label_of (Sweep now) = Cleaned now"
| "label_of _ = Internal"

fun writer :: "task \<Rightarrow> (string \<times> prepared) option" where
  "writer (Writing t p) = Some (t, p)"
| "writer (FullCleanup t p now) = Some (t, p)"
| "writer (Rewriting t p) = Some (t, p)"
| "writer _ = None"

definition writing :: "tasks \<Rightarrow> string \<Rightarrow> prepared \<Rightarrow> bool" where
  "writing T t p \<longleftrightarrow> (\<exists>i k. T i = Some k \<and> writer k = Some (t, p))"

lemma writing_upd [dest]:
  "writing (T(i := None)) t p \<Longrightarrow> writing T t p"
  "writing (T(i \<mapsto> k)) t p \<Longrightarrow> writer k = None \<Longrightarrow> writing T t p"
  by (auto simp: writing_def split: if_splits)

lemma writingI: "T i = Some k \<Longrightarrow> writer k = Some (t, p) \<Longrightarrow> writing T t p"
  by (auto simp: writing_def)

lemma writing_moved:
  "T i = Some k \<Longrightarrow> writer k' = writer k \<Longrightarrow> writing (T(i \<mapsto> k')) t p \<Longrightarrow> writing T t p"
  by (auto simp: writing_def split: if_splits)

lemma createOutcome_simps:
  "createOutcome nid (r, w) = (Inr n, w') \<longleftrightarrow> n = nid \<and> w' = w \<and> (\<exists>u. r = Inr u)"
  "createOutcome nid (r, w) = (Inl e, w') \<Longrightarrow> w' = w \<and> (\<exists>e'. r = Inl e')"
  by (auto simp: createOutcome_def split: sum.splits if_splits)


definition fresh_writer :: "'b env \<Rightarrow> NoteService \<Rightarrow> 'b world \<Rightarrow> string \<Rightarrow> prepared \<Rightarrow> bool" where
  "fresh_writer E S w t p \<longleftrightarrow> (\<exists>pid tok payload life w'. length pid = 32 \<and>
     prepareNote E S pid t tok payload life w = (Inr p, w'))"

lemma sys_step_effect:
  assumes "sys_step E S (w, T) l (w', T')"
  shows "\<exists>ef. has_effect E S ef (store w) (store w') \<and> l = label_of ef \<and>
    (\<forall>t p. ef = Write t p \<longrightarrow> writing T t p) \<and>
    (\<forall>t p. writing T' t p \<longrightarrow> writing T t p \<or> fresh_writer E S w t p)"
  using assms
proof (cases rule: sys_step.cases)
  case (prepare i pid t tok payload life p)
  then have "store w' = store w" using prepareNote_store [of E S pid t tok payload life w] by simp
  moreover have "fresh_writer E S w t p" using prepare unfolding fresh_writer_def by blast
  moreover have "writing T' t' p' \<longrightarrow> writing T t' p' \<or> (t' = t \<and> p' = p)" for t' p'
    using prepare by (auto simp: writing_def split: if_splits)
  ultimately have "\<forall>t p. writing T' t p \<longrightarrow> writing T t p \<or> fresh_writer E S w t p"
    by blast
  with \<open>store w' = store w\<close> \<open>l = Internal\<close> show ?thesis
    by (intro exI [of _ Keep]) simp_all
next
  case (reject pid t tok payload life e)
  then have "store w' = store w" using prepareNote_store [of E S pid t tok payload life w] by simp
  with reject show ?thesis by (intro exI [of _ Keep]) simp_all
next
  case (issue r)
  then have "store w' = store w" using CreateTicket_store [of E w] by simp
  with issue show ?thesis by (intro exI [of _ Keep]) simp_all
next
  case (commit i t p r w1 nid)
  then have "create_tx E p (store w) = Inr ((), store w')"
    by (auto simp: createOutcome_simps dest: db_Update_Inr)
  with commit show ?thesis
    by (intro exI [of _ "Write t p"]) (auto simp: createOutcome_simps intro: writingI)
next
  case (commit_failed i t p r w1 e)
  then have "store w' = store w" by (auto dest!: createOutcome_simps(2) db_Update_Inl)
  with commit_failed show ?thesis by (intro exI [of _ Keep]) auto
next
  case (commit_full i t p r w1 now)
  then have "store w' = store w" by (auto simp: isStorageFull_def s_now_def dest!: db_Update_Inl split: sum.splits)
  with commit_full show ?thesis
    by (intro exI [of _ Keep]) (auto dest!: writing_moved [rotated 2])
next
  case (make_room i t p now)
  then show ?thesis
    by (intro exI [of _ "Sweep now"]) (auto dest: db_Update_Inr dest!: writing_moved [rotated 2])
next
  case (rewrite i t p nid)
  obtain r w1 where u: "db_Update (db E) (create_tx E p) w = (r, w1)" by fastforce
  with rewrite show ?thesis
    by (intro exI [of _ "Write t p"]) (auto simp: createOutcome_simps intro: writingI dest: db_Update_Inr)
next
  case (rewrite_failed i t p e)
  obtain r w1 where u: "db_Update (db E) (create_tx E p) w = (r, w1)" by fastforce
  with rewrite_failed have "store w' = store w" by (auto dest!: createOutcome_simps(2) db_Update_Inl)
  with rewrite_failed show ?thesis by (intro exI [of _ Keep]) auto
next
  case (open_hit i nid tok now n)
  then show ?thesis by (intro exI [of _ "Burn nid tok now (Some n)"]) (auto dest: db_Update_Inr)
next
  case (open_miss i nid tok now)
  then show ?thesis by (intro exI [of _ "Burn nid tok now None"]) (auto dest: db_Update_Inr)
next
  case (clean i now)
  then show ?thesis by (intro exI [of _ "Sweep now"]) (auto dest: db_Update_Inr)
qed (intro exI [of _ Keep]; auto simp: s_now_def dest: db_Update_Inl)+

section \<open>The invariant of all interleavings\<close>

definition sys_inv :: "'b env \<Rightarrow> NoteService \<Rightarrow> 'b world \<times> tasks \<Rightarrow> bool" where
  "sys_inv E S c \<longleftrightarrow> store_inv E S (store (fst c)) \<and> (\<forall>t p. writing (snd c) t p \<longrightarrow> prepared_ok E S p)"

lemma effect_inv:
  assumes "bolt_ok (db E)" "has_effect E S ef st st'" "store_inv E S st"
    and "\<And>t p. ef = Write t p \<Longrightarrow> prepared_ok E S p"
  shows "store_inv E S st'"
  using assms(2-4) by (cases ef) (auto intro: create_tx_inv [OF assms(1)] OpenNote_tx_inv [OF assms(1)] Cleanup_tx_inv [OF assms(1)])

lemma sys_step_inv:
  assumes "env_ok E" "\<forall>i. 0 < clock E i" "svc_maxLifetime S = maxNoteLifetime"
    and "sys_step E S c l c'" "sys_inv E S c"
  shows "sys_inv E S c'"
proof -
  obtain w T w' T' where c: "c = (w, T)" "c' = (w', T')" by fastforce
  obtain ef where ef: "has_effect E S ef (store w) (store w')" "l = label_of ef"
    "\<forall>t p. ef = Write t p \<longrightarrow> writing T t p"
    "\<forall>t p. writing T' t p \<longrightarrow> writing T t p \<or> fresh_writer E S w t p"
    using sys_step_effect [OF assms(4) [unfolded c]] by blast
  have "prepared_ok E S p" if "fresh_writer E S w t p" for t p
    using that prepareNote_ok(1) [OF assms(1,2) _ assms(3)] by (auto simp: fresh_writer_def)
  moreover have "\<forall>t p. writing T t p \<longrightarrow> prepared_ok E S p"
    using assms(5) by (simp add: sys_inv_def c)
  ultimately have "\<forall>t p. writing T' t p \<longrightarrow> prepared_ok E S p"
    using ef(4) by blast
  moreover have "store_inv E S (store w')"
    using effect_inv [OF env_okD(1) [OF assms(1)] ef(1)] ef(3) assms(5) by (auto simp: sys_inv_def c)
  ultimately show ?thesis by (simp add: sys_inv_def c)
qed


interpretation sys: step_invariant "sys_step E S"
    "\<lambda>_. env_ok E \<and> (\<forall>i. 0 < clock E i) \<and> svc_maxLifetime S = maxNoteLifetime" "sys_inv E S" for E S
  by unfold_locales (auto intro: sys_step_inv)

section \<open>Notes under concurrent requests\<close>

definition lets_out :: "NoteID \<Rightarrow> label \<Rightarrow> bool" where
  "lets_out nid l \<longleftrightarrow> (\<exists>n. l = Opened nid n)"

definition takes_in :: "NoteID \<Rightarrow> label \<Rightarrow> bool" where
  "takes_in nid l \<longleftrightarrow> (\<exists>t. l = Created t nid)"

definition note_gain :: "NoteID \<Rightarrow> label \<Rightarrow> int" where
  "note_gain nid l = of_bool (lets_out nid l) - of_bool (takes_in nid l)"

lemma effect_note_gain:
  assumes "bolt_ok (db E)" "has_effect E S ef (store w) (store w')"
  shows "note_gain nid (label_of ef) + present_pot E nid w' \<le> present_pot E nid w"
proof (cases ef)
  case Keep
  with assms(2) show ?thesis
    by (simp add: note_gain_def lets_out_def takes_in_def present_pot_def present_def)
next
  case (Write t p)
  with assms(2) create_tx_Inr [OF assms(1), of p "store w" "()" "store w'"] show ?thesis
    by (auto simp: note_gain_def lets_out_def takes_in_def present_pot_def present_def split: if_splits)
next
  case (Burn n tok now r)
  show ?thesis
  proof (cases r)
    case None
    with Burn assms(2) OpenNote_tx_None [of E S n tok now "store w" "store w'"]
      deleteNoteRecords_Inr [OF assms(1), of "store w" n "store w'"]
    show ?thesis
      by (auto simp: note_gain_def lets_out_def takes_in_def present_pot_def present_def split: if_splits)
  next
    case (Some nt)
    with Burn assms(2) have "OpenNote_tx E S n tok now (store w) = Inr (Some nt, store w')" by simp
    then obtain mb where "bGet (db E) (metadata_b (store w)) n = Some mb"
      "bGet (db E) (payloads_b (store w)) n = Some (nt_Payload nt)"
      "deleteNoteRecords E (store w) n = Inr (store w')"
      by (rule OpenNote_tx_Some)
    with Burn Some deleteNoteRecords_Inr [OF assms(1), of "store w" n "store w'"] show ?thesis
      by (auto simp: note_gain_def lets_out_def takes_in_def present_pot_def present_def split: if_splits)
  qed
next
  case (Sweep now)
  with assms(2) Cleanup_tx_removes(1,2) [OF assms(1), of S now "store w" "()" "store w'" nid] show ?thesis
    by (auto simp: note_gain_def lets_out_def takes_in_def present_pot_def present_def)
qed

interpretation sys_opens: step_gains "sys_step E S" "\<lambda>_. bolt_ok (db E)" "\<lambda>_. True"
    "note_gain nid" "\<lambda>c. present_pot E nid (fst c)" for E S nid
proof unfold_locales
  fix l c c'
  assume b: "bolt_ok (db E)" and s: "sys_step E S c l c'"
  obtain w T w' T' where c: "c = (w, T)" "c' = (w', T')" by fastforce
  from sys_step_effect [OF s [unfolded c]] effect_note_gain [OF b]
  show "note_gain nid l + present_pot E nid (fst c') \<le> present_pot E nid (fst c)"
    by (auto simp: c)
qed

lemma sum_note_gain:
  "sum_list (map (note_gain nid) ls) =
   int (length (filter (lets_out nid) ls)) - int (length (filter (takes_in nid) ls))"
  by (induction ls) (auto simp: note_gain_def)


section \<open>Tickets under concurrent requests\<close>

definition spends :: "string \<Rightarrow> label \<Rightarrow> bool" where
  "spends t l \<longleftrightarrow> (\<exists>nid. l = Created t nid)"

definition cleans_after :: "time \<Rightarrow> label \<Rightarrow> bool" where
  "cleans_after e l \<longleftrightarrow> (\<exists>now. l = Cleaned now \<and> e < now)"

definition marks :: "'b env \<Rightarrow> TicketData \<Rightarrow> prepared \<Rightarrow> bool" where
  "marks E d p \<longleftrightarrow> pr_ID p = td_ID d \<and> unmarshalMarker (pr_Marker p) = Inr \<lparr>um_ExpiresAt = td_Exp d\<rparr>"

definition unmarked :: "'b env \<Rightarrow> TicketData \<Rightarrow> 'b store \<Rightarrow> int" where
  "unmarked E d st = of_bool (marker_at E st (td_ID d) \<noteq> Some (td_Exp d))"

lemma fresh_writer_marks:
  assumes "env_ok E" "decodeTicket E t = Inr (pv, sv, d)" "fresh_writer E S w t p"
  shows "marks E d p"
proof -
  from assms(3) obtain pid tok payload life w' where "prepareNote E S pid t tok payload life w = (Inr p, w')"
    by (auto simp: fresh_writer_def)
  then obtain d1 v w1 where "verifyTicket E t pid tok w = (Inr (d1, v), w1)" and p: "pr_ID p = td_ID d1"
    and m: "marshalMarker (zone E) \<lparr>um_ExpiresAt = td_Exp d1\<rparr> = Inr (pr_Marker p)"
    by (rule prepareNote_Inr)
  then obtain pv1 sv1 where "decodeTicket E t = Inr (pv1, sv1, d1)"
    using verifyTicket_Inr by metis
  with assms(1,2) p unmarshal_marshalMarker [OF _ m] show ?thesis
    by (simp add: marks_def)
qed

lemma Cleanup_tx_keeps_marker:
  assumes "bolt_ok (db E)" "Cleanup_tx E S now st = Inr (u, st')" "marker_at E st k = Some e" "now \<le> e"
  shows "marker_at E st' k = Some e"
proof -
  from assms(3) obtain ub um where ub: "bGet (db E) (used_tickets_b st) k = Some ub"
    "unmarshalMarker ub = Inr um" "e = um_ExpiresAt um"
    by (auto simp: marker_at_def split: option.splits sum.splits)
  with assms(4) have "\<not> staleMarker E now ub" by (simp add: staleMarker_def Before_def)
  from Cleanup_tx_removes(4) [OF assms(1,2) ub(1) this] ub show ?thesis
    by (simp add: marker_at_def)
qed

lemma effect_unmarked:
  assumes "bolt_ok (db E)" "has_effect E S ef st st'" "\<not> cleans_after (td_Exp d) (label_of ef)"
    and "\<And>p. ef = Write t p \<Longrightarrow> marks E d p"
  shows "of_bool (spends t (label_of ef)) + unmarked E d st' \<le> unmarked E d st"
proof (cases ef)
  case Keep
  with assms(2) show ?thesis by (simp add: spends_def)
next
  case (Write t' p)
  with assms(2) have tx: "create_tx E p st = Inr ((), st')" by simp
  show ?thesis
  proof (cases "t' = t")
    case True
    with assms(4) Write have "marks E d p" by simp
    with create_tx_Inr(1,6) [OF assms(1) tx] show ?thesis
      by (auto simp: marks_def unmarked_def marker_at_def)
  next
    case False
    with Write create_tx_marker [OF assms(1) tx, of "td_ID d" "td_Exp d"] show ?thesis
      by (auto simp: spends_def unmarked_def)
  qed
next
  case (Burn n tok now r)
  with assms(2) have "st' = st \<or> deleteNoteRecords E st n = Inr st'"
    by (cases r) (auto dest: OpenNote_tx_None elim: OpenNote_tx_Some)
  then have "marker_at E st' = marker_at E st"
    using deleteNoteRecords_vault(2) [OF assms(1)] by auto
  moreover have "\<not> spends t (label_of ef)" using Burn by (cases r) (simp_all add: spends_def)
  ultimately show ?thesis by (simp add: unmarked_def)
next
  case (Sweep now)
  with assms(3) have "now \<le> td_Exp d" by (simp add: cleans_after_def)
  with Sweep assms(2) Cleanup_tx_keeps_marker [OF assms(1), of S now st "()" st' "td_ID d" "td_Exp d"]
  show ?thesis by (auto simp: spends_def unmarked_def)
qed

interpretation sys_tickets: step_gains "sys_step E S"
    "\<lambda>l. env_ok E \<and> decodeTicket E t = Inr (pv, sv, d) \<and> \<not> cleans_after (td_Exp d) l"
    "\<lambda>c. \<forall>p. writing (snd c) t p \<longrightarrow> marks E d p"
    "\<lambda>l. of_bool (spends t l)" "\<lambda>c. unmarked E d (store (fst c))" for E S t pv sv d
proof unfold_locales
  fix l c c'
  assume g: "env_ok E \<and> decodeTicket E t = Inr (pv, sv, d) \<and> \<not> cleans_after (td_Exp d) l"
    and i: "\<forall>p. writing (snd c) t p \<longrightarrow> marks E d p" and s: "sys_step E S c l c'"
  obtain w T w' T' where c: "c = (w, T)" "c' = (w', T')" by fastforce
  obtain ef where ef: "has_effect E S ef (store w) (store w')" "l = label_of ef"
    "\<forall>t p. ef = Write t p \<longrightarrow> writing T t p"
    "\<forall>t p. writing T' t p \<longrightarrow> writing T t p \<or> fresh_writer E S w t p"
    using sys_step_effect [OF s [unfolded c]] by blast
  have "fresh_writer E S w t p \<Longrightarrow> marks E d p" for p
    using fresh_writer_marks g by blast
  with ef(4) i show "\<forall>p. writing (snd c') t p \<longrightarrow> marks E d p"
    unfolding c snd_conv by blast
  have bolt: "bolt_ok (db E)" using g by simp
  show "of_bool (spends t l) + unmarked E d (store (fst c')) \<le> unmarked E d (store (fst c))"
    unfolding c fst_conv ef(2)
    by (rule effect_unmarked [OF bolt ef(1)]) (use g i ef(2,3) c in auto)
qed

lemma sum_spends: "sum_list (map (\<lambda>l. of_bool (spends t l) :: int) ls) = int (length (filter (spends t) ls))"
  by (induction ls) auto

section \<open>Sequential operations are runs\<close>

definition sys_reaches :: "'b env \<Rightarrow> NoteService \<Rightarrow> 'b world \<times> tasks \<Rightarrow> 'b world \<times> tasks \<Rightarrow> bool" where
  "sys_reaches E S c c' \<longleftrightarrow> (\<exists>ls. path (sys_step E S) c ls c')"

lemma sys_reaches_step: "sys_step E S c l c1 \<Longrightarrow> sys_reaches E S c1 c2 \<Longrightarrow> sys_reaches E S c c2"
  unfolding sys_reaches_def by (blast intro: path.more)

lemma sys_reaches_refl: "sys_reaches E S c c"
  unfolding sys_reaches_def by (blast intro: path.halt)

lemma sys_reaches_one: "sys_step E S c l c1 \<Longrightarrow> sys_reaches E S c c1"
  by (rule sys_reaches_step [OF _ sys_reaches_refl])

lemma upd_None [simp]: "Map.empty(i := None) = Map.empty"
  by (simp add: fun_eq_iff)

lemma Cleanup_path:
  assumes "Cleanup E S w = (r, w')"
  shows "sys_reaches E S (w, Map.empty) (w', Map.empty)"
proof -
  let ?now = "clock E (steps w)"
  have u: "db_Update (db E) (Cleanup_tx E S ?now) (tick w) = (r, w')"
    using assms by (simp add: Cleanup_def s_now_def)
  have 1: "sys_step E S (w, Map.empty) Internal (tick w, [0 \<mapsto> Cleaning ?now])"
    by (rule sys_step.clean_start) (simp_all add: s_now_def)
  show ?thesis
  proof (cases r)
    case (Inl e)
    with u have "sys_step E S (tick w, [0 \<mapsto> Cleaning ?now]) Internal (w', [0 \<mapsto> Cleaning ?now](0 := None))"
      by (intro sys_step.clean_failed) simp_all
    with 1 show ?thesis by (auto intro: sys_reaches_step sys_reaches_one)
  next
    case (Inr x)
    with u have "sys_step E S (tick w, [0 \<mapsto> Cleaning ?now]) (Cleaned ?now) (w', [0 \<mapsto> Cleaning ?now](0 := None))"
      by (intro sys_step.clean) simp_all
    with 1 show ?thesis by (auto intro: sys_reaches_step sys_reaches_one)
  qed
qed


lemma OpenNote_path:
  assumes "OpenNote E S nid tok w = (r, w')"
  shows "sys_reaches E S (w, Map.empty) (w', Map.empty)"
proof -
  let ?now = "clock E (steps w)" and ?k = "Opening nid tok (clock E (steps w))"
  obtain r1 w1 where u: "db_Update (db E) (OpenNote_tx E S nid tok ?now) (tick w) = (r1, w1)" by fastforce
  with assms have w1: "w1 = w'" by (auto simp: OpenNote_def s_now_def split: sum.splits option.splits)
  have 1: "sys_step E S (w, Map.empty) Internal (tick w, [0 \<mapsto> ?k])"
    by (rule sys_step.open_start) (simp_all add: s_now_def)
  have "\<exists>l. sys_step E S (tick w, [0 \<mapsto> ?k]) l (w', [0 \<mapsto> ?k](0 := None))"
  proof (cases r1)
    case (Inl e)
    with u w1 show ?thesis by (intro exI [of _ Internal] sys_step.open_failed) simp_all
  next
    case (Inr a)
    with u w1 show ?thesis
    proof (cases a)
      case None
      with Inr u w1 show ?thesis by (intro exI [of _ Internal] sys_step.open_miss) simp_all
    next
      case (Some n)
      with Inr u w1 show ?thesis by (intro exI [of _ "Opened nid n"] sys_step.open_hit) simp_all
    qed
  qed
  with 1 show ?thesis by (auto intro: sys_reaches_step sys_reaches_one)
qed

lemma rewrite_path:
  assumes "createOutcome (pr_ID p) (db_Update (db E) (create_tx E p) w) = (r, w')"
  shows "sys_reaches E S (w, [0 \<mapsto> Rewriting t p]) (w', Map.empty)"
proof -
  have "\<exists>l. sys_step E S (w, [0 \<mapsto> Rewriting t p]) l (w', [0 \<mapsto> Rewriting t p](0 := None))"
  proof (cases r)
    case (Inl e)
    with assms show ?thesis by (intro exI [of _ Internal] sys_step.rewrite_failed) simp_all
  next
    case (Inr nid)
    with assms show ?thesis by (intro exI [of _ "Created t nid"] sys_step.rewrite) simp_all
  qed
  then show ?thesis by (auto intro: sys_reaches_one)
qed

lemma storeNote_path:
  assumes "storeNote E S p w = (r, w')"
  shows "sys_reaches E S (w, [0 \<mapsto> Writing t p]) (w', Map.empty)"
proof -
  obtain r1 w1 where u: "db_Update (db E) (create_tx E p) w = (r1, w1)" by fastforce
  show ?thesis
  proof (cases "isStorageFull r1")
    case False
    with assms u have o: "createOutcome (pr_ID p) (r1, w1) = (r, w')" by (simp add: storeNote_def)
    have "\<exists>l. sys_step E S (w, [0 \<mapsto> Writing t p]) l (w', [0 \<mapsto> Writing t p](0 := None))"
    proof (cases r)
      case (Inl e)
      with False u o show ?thesis by (intro exI [of _ Internal] sys_step.commit_failed) simp_all
    next
      case (Inr nid)
      with False u o show ?thesis by (intro exI [of _ "Created t nid"] sys_step.commit) simp_all
    qed
    then show ?thesis by (auto intro: sys_reaches_one)
  next
    case True
    let ?now = "clock E (steps w1)" and ?T = "[0 \<mapsto> FullCleanup t p (clock E (steps w1))]"
    have 1: "sys_step E S (w, [0 \<mapsto> Writing t p]) Internal (tick w1, [0 \<mapsto> Writing t p](0 \<mapsto> FullCleanup t p ?now))"
      by (rule sys_step.commit_full [OF _ u True]) (simp_all add: s_now_def)
    obtain rc w2 where c: "db_Update (db E) (Cleanup_tx E S ?now) (tick w1) = (rc, w2)" by fastforce
    show ?thesis
    proof (cases rc)
      case (Inl e)
      with c True u assms have "w2 = w'" by (simp add: storeNote_def Cleanup_def s_now_def)
      with c Inl have "sys_step E S (tick w1, ?T) Internal (w', ?T(0 := None))"
        by (intro sys_step.make_room_failed) simp_all
      with 1 show ?thesis by (auto intro: sys_reaches_step sys_reaches_one)
    next
      case (Inr x)
      with c True u assms have "createOutcome (pr_ID p) (db_Update (db E) (create_tx E p) w2) = (r, w')"
        by (simp add: storeNote_def Cleanup_def s_now_def)
      then have "sys_reaches E S (w2, [0 \<mapsto> Rewriting t p]) (w', Map.empty)"
        by (rule rewrite_path)
      moreover from c Inr have "sys_step E S (tick w1, ?T) (Cleaned ?now) (w2, ?T(0 \<mapsto> Rewriting t p))"
        by (intro sys_step.make_room) simp_all
      ultimately show ?thesis using 1 by (auto intro: sys_reaches_step)
    qed
  qed
qed

lemma CreateNote_path:
  assumes "CreateNote E S pid t tok payload life w = (r, w')" "length pid = 32"
  shows "sys_reaches E S (w, Map.empty) (w', Map.empty)"
proof -
  obtain r1 w1 where p: "prepareNote E S pid t tok payload life w = (r1, w1)" by fastforce
  show ?thesis
  proof (cases r1)
    case (Inl e)
    with p assms(1) have "sys_step E S (w, Map.empty) Internal (w', Map.empty)"
      by (intro sys_step.reject) (simp_all add: CreateNote_def)
    then show ?thesis by (auto intro: sys_reaches_one)
  next
    case (Inr q)
    with p assms have 1: "sys_step E S (w, Map.empty) Internal (w1, [0 \<mapsto> Writing t q])"
      by (intro sys_step.prepare) simp_all
    from Inr p assms(1) have "storeNote E S q w1 = (r, w')" by (simp add: CreateNote_def)
    with storeNote_path [of E S q w1 r w' t] 1 show ?thesis by (auto intro: sys_reaches_step)
  qed
qed

end
