(* ===== verification/NetAddr.thy ===== *)
theory NetAddr
  imports GoText
begin

text \<open>
  Package \<open>net/netip\<close> as the program uses it: addresses as words, prefixes and membership,
  and \<open>prefixContains\<close> of \<open>proxy.go\<close>. The text forms are in \<open>AddrText\<close>.
\<close>

unbundle bit_operations_syntax

section \<open>Addresses and prefixes\<close>

datatype Addr = InvalidAddr | V4 "32 word" | V6 "128 word" string

record Prefix =
  pf_Addr :: Addr
  pf_Bits :: int

fun BitLen :: "Addr \<Rightarrow> int" where
  "BitLen InvalidAddr = 0"
| "BitLen (V4 a) = 32"
| "BitLen (V6 a z) = 128"

fun Is4 :: "Addr \<Rightarrow> bool" where
  "Is4 (V4 a) \<longleftrightarrow> True"
| "Is4 _ \<longleftrightarrow> False"

text \<open>An IPv4-mapped IPv6 address, \<open>::ffff:a.b.c.d\<close>, is turned into the IPv4 address.\<close>

fun Unmap :: "Addr \<Rightarrow> Addr" where
  "Unmap (V6 a z) = (if drop_bit 32 a = 0xFFFF then V4 (ucast a) else V6 a z)"
| "Unmap a = a"

fun withoutZone :: "Addr \<Rightarrow> Addr" where
  "withoutZone (V6 a z) = V6 a []"
| "withoutZone a = a"

fun hasZone :: "Addr \<Rightarrow> bool" where
  "hasZone (V6 a z) \<longleftrightarrow> z \<noteq> []"
| "hasZone _ \<longleftrightarrow> False"

definition PrefixFrom :: "Addr \<Rightarrow> int \<Rightarrow> Prefix" where
  "PrefixFrom a bits =
     (if a \<noteq> InvalidAddr \<and> 0 \<le> bits \<and> bits \<le> BitLen a
      then \<lparr>pf_Addr = withoutZone a, pf_Bits = bits\<rparr>
      else \<lparr>pf_Addr = withoutZone a, pf_Bits = -1\<rparr>)"

definition clearLow :: "nat \<Rightarrow> 'a::len word \<Rightarrow> 'a word" where
  "clearLow n a = push_bit n (drop_bit n a)"

fun maskAddr :: "int \<Rightarrow> Addr \<Rightarrow> Addr" where
  "maskAddr n (V4 a) = V4 (clearLow (32 - nat n) a)"
| "maskAddr n (V6 a z) = V6 (clearLow (128 - nat n) a) []"
| "maskAddr n InvalidAddr = InvalidAddr"

definition Masked :: "Prefix \<Rightarrow> Prefix" where
  "Masked p =
     (if pf_Bits p < 0 then \<lparr>pf_Addr = InvalidAddr, pf_Bits = -1\<rparr>
      else p\<lparr>pf_Addr := maskAddr (pf_Bits p) (pf_Addr p)\<rparr>)"

fun sameTopBits :: "nat \<Rightarrow> Addr \<Rightarrow> Addr \<Rightarrow> bool" where
  "sameTopBits n (V4 a) (V4 b) \<longleftrightarrow> drop_bit (32 - n) (a XOR b) = 0"
| "sameTopBits n (V6 a z) (V6 b y) \<longleftrightarrow> drop_bit (128 - n) (a XOR b) = 0"
| "sameTopBits n _ _ \<longleftrightarrow> False"

definition Contains :: "Prefix \<Rightarrow> Addr \<Rightarrow> bool" where
  "Contains p a \<longleftrightarrow> 0 \<le> pf_Bits p \<and> \<not> hasZone a \<and> sameTopBits (nat (pf_Bits p)) a (pf_Addr p)"

section \<open>Membership in a list of prefixes\<close>

definition prefixContains :: "Prefix list \<Rightarrow> Addr \<Rightarrow> bool" where
  "prefixContains prefixes a = list_ex (\<lambda>prefix. Contains prefix (Unmap a)) prefixes"

section \<open>Lemmas\<close>

lemma Unmap_idem [simp]: "Unmap (Unmap a) = Unmap a"
  by (cases a) auto

lemma prefixContains_Unmap [simp]: "prefixContains ps (Unmap a) = prefixContains ps a"
  by (simp add: prefixContains_def)

lemma prefixContains_append [simp]:
  "prefixContains (ps @ qs) a \<longleftrightarrow> prefixContains ps a \<or> prefixContains qs a"
  by (simp add: prefixContains_def)

lemma drop_bit_xor_zero:
  "drop_bit n (a XOR b) = 0 \<longleftrightarrow> drop_bit n a = drop_bit n (b :: 'a::len word)"
proof -
  have "x XOR y = 0 \<longleftrightarrow> x = y" for x y :: "'a word"
    by (auto simp: bit_eq_iff bit_simps)
  then show ?thesis by (simp add: drop_bit_xor)
qed

lemma drop_bit_word_eq_iff:
  "drop_bit n a = drop_bit n b \<longleftrightarrow> unat a div 2 ^ n = unat (b :: 'a::len word) div 2 ^ n"
  by (metis drop_bit_eq_div unat_drop_bit_eq word_unat_eq_iff)

lemma clearLow_eq_iff: "clearLow n a = clearLow n b \<longleftrightarrow> drop_bit n a = drop_bit n (b :: 'a::len word)"
proof
  assume "clearLow n a = clearLow n b"
  then have "drop_bit n (clearLow n a) = drop_bit n (clearLow n b)" by simp
  then show "drop_bit n a = drop_bit n b"
    by (simp add: clearLow_def bit_eq_iff bit_simps) (metis add.commute bit_imp_le_length le_add_same_cancel1 not_less)
qed (simp add: clearLow_def)

lemma Contains_V4:
  "Contains \<lparr>pf_Addr = V4 b, pf_Bits = n\<rparr> (V4 a) \<longleftrightarrow>
   0 \<le> n \<and> unat a div 2 ^ (32 - nat n) = unat b div 2 ^ (32 - nat n)"
  by (simp add: Contains_def drop_bit_xor_zero drop_bit_word_eq_iff del: drop_bit_xor)

lemma Contains_V6:
  "Contains \<lparr>pf_Addr = V6 b y, pf_Bits = n\<rparr> (V6 a z) \<longleftrightarrow>
   0 \<le> n \<and> z = [] \<and> unat a div 2 ^ (128 - nat n) = unat b div 2 ^ (128 - nat n)"
  by (simp add: Contains_def drop_bit_xor_zero drop_bit_word_eq_iff del: drop_bit_xor)

lemma Contains_mixed [simp]:
  "\<not> Contains \<lparr>pf_Addr = V4 b, pf_Bits = n\<rparr> (V6 a z)" "\<not> Contains \<lparr>pf_Addr = V6 c y, pf_Bits = n\<rparr> (V4 d)"
  "\<not> Contains p InvalidAddr"
  by (simp_all add: Contains_def)

end
