(* ===== verification/AddrText.thy ===== *)
theory AddrText
  imports NetAddr
begin

text \<open>
  The text forms of \<open>net/netip\<close>: \<open>ParseAddr\<close>, \<open>ParsePrefix\<close> and the \<open>String\<close> methods, with
  the compressed notation of IPv6 addresses, and the proof that parsing inverts printing.
\<close>

section \<open>Digits\<close>

fun baseDigits :: "nat \<Rightarrow> nat \<Rightarrow> nat \<Rightarrow> nat list" where
  "baseDigits b 0 n = []"
| "baseDigits b (Suc k) n = baseDigits b k (n div b) @ [n mod b]"

lemma length_baseDigits [simp]: "length (baseDigits b k n) = k"
  by (induction k arbitrary: n) simp_all

lemma baseVal_baseDigits: "n < b ^ k \<Longrightarrow> baseVal b (baseDigits b k n) = n"
proof (induction k arbitrary: n)
  case (Suc k)
  then have "n div b < b ^ k" by (simp add: less_mult_imp_div_less mult.commute)
  with Suc.IH show ?case by simp
qed simp

lemma baseDigits_bound: "0 < b \<Longrightarrow> d \<in> set (baseDigits b k n) \<Longrightarrow> d < b"
  by (induction k arbitrary: n) auto

definition octets :: "32 word \<Rightarrow> nat list" where
  "octets a = baseDigits 256 4 (unat a)"

definition groups :: "128 word \<Rightarrow> nat list" where
  "groups a = baseDigits 65536 8 (unat a)"

lemma octets_val: "of_nat (baseVal 256 (octets a)) = a"
  using unsigned_less [of a, where 'a = nat] by (simp add: octets_def baseVal_baseDigits)

lemma groups_val: "of_nat (baseVal 65536 (groups a)) = a"
  using unsigned_less [of a, where 'a = nat] by (simp add: groups_def baseVal_baseDigits)

section \<open>Printing\<close>

definition hexChar :: "nat \<Rightarrow> char" where
  "hexChar d = char_of (if d < 10 then 48 + d else 87 + d)"

fun hexText :: "nat \<Rightarrow> string" where
  "hexText n = (if n < 16 then [hexChar n] else hexText (n div 16) @ [hexChar (n mod 16)])"

declare hexText.simps [simp del]

definition string4 :: "32 word \<Rightarrow> string" where
  "string4 a = Join (map Itoa (octets a)) CHR ''.''"

text \<open>The longest run of at least two zero groups, the first one of that length: its start and
  its length, 0 when there is none.\<close>

fun zeroRun :: "nat \<Rightarrow> nat list \<Rightarrow> nat \<times> nat \<Rightarrow> nat \<times> nat" where
  "zeroRun i [] best = best"
| "zeroRun i (g # gs) best =
     (let l = length (takeWhile (\<lambda>x. x = 0) (g # gs))
      in zeroRun (Suc i) gs (if 2 \<le> l \<and> snd best < l then (i, l) else best))"

definition string6 :: "nat list \<Rightarrow> string" where
  "string6 gs =
     (let (start, len) = zeroRun 0 gs (0, 0)
      in if len = 0 then Join (map hexText gs) CHR '':''
         else Join (map hexText (take start gs)) CHR '':'' @ ''::'' @
              Join (map hexText (drop (start + len) gs)) CHR '':'')"

definition zoneText :: "string \<Rightarrow> string" where
  "zoneText zone = (if zone = [] then [] else CHR ''%'' # zone)"

fun AddrString :: "Addr \<Rightarrow> string" where
  "AddrString InvalidAddr = ''invalid IP''"
| "AddrString (V4 a) = string4 a"
| "AddrString (V6 a zone) =
     (if drop_bit 32 a = 0xFFFF then ''::ffff:'' @ string4 (ucast a) else string6 (groups a)) @ zoneText zone"

definition PrefixString :: "Prefix \<Rightarrow> string" where
  "PrefixString p = (if pf_Bits p < 0 then ''invalid Prefix'' else AddrString (pf_Addr p) @ CHR ''/'' # Itoa (nat (pf_Bits p)))"

section \<open>Parsing\<close>

text \<open>The loop of \<open>parseIPv4Fields\<close>: the value and the number of digits of the current field,
  and the fields before it.\<close>

fun ipv4Fields :: "string \<Rightarrow> nat \<Rightarrow> nat \<Rightarrow> nat list \<Rightarrow> nat list result" where
  "ipv4Fields [] val digLen fs =
     (if length fs < 3 then Inl (Msg ''IPv4 address too short'') else Inr (fs @ [val]))"
| "ipv4Fields (c # cs) val digLen fs =
     (case digit c of
        Some d \<Rightarrow>
          if digLen = 1 \<and> val = 0 then Inl (Msg ''IPv4 field has octet with leading zero'')
          else if val * 10 + nat d > 255 then Inl (Msg ''IPv4 field has value >255'')
          else ipv4Fields cs (val * 10 + nat d) (Suc digLen) fs
      | None \<Rightarrow>
          if c = CHR ''.'' then
            (if digLen = 0 \<or> cs = [] then Inl (Msg ''IPv4 field must have at least one digit'')
             else if length fs = 3 then Inl (Msg ''IPv4 address too long'')
             else ipv4Fields cs 0 0 (fs @ [val]))
          else Inl (Msg ''unexpected character''))"

definition parseIPv4 :: "string \<Rightarrow> Addr result" where
  "parseIPv4 s = (case ipv4Fields s 0 0 [] of Inl e \<Rightarrow> Inl e | Inr fs \<Rightarrow> Inr (V4 (of_nat (baseVal 256 fs))))"

text \<open>The loop of \<open>parseIPv6\<close>: the rest of the text, the groups read so far, and how many
  stood before the ellipsis.\<close>

function ipv6Fields :: "string \<Rightarrow> nat list \<Rightarrow> nat option \<Rightarrow> (string \<times> nat list \<times> nat option) result" where
  "ipv6Fields s gs ellipsis =
     (if 8 \<le> length gs then Inr (s, gs, ellipsis)
      else let ds = takeWhile isHex s; r = dropWhile isHex s
      in if length ds > 4 then Inl (Msg ''each group must have 4 or fewer digits'')
         else if ds = [] then Inl (Msg ''each colon-separated field must have at least one digit'')
         else if HasPrefix r ''.'' then
           (if ellipsis = None \<and> length gs \<noteq> 6
            then Inl (Msg ''embedded IPv4 address must replace the final 2 fields of the address'')
            else if length gs > 6
            then Inl (Msg ''too many hex fields to fit an embedded IPv4 at the end of the address'')
            else case ipv4Fields s 0 0 [] of
              Inl e \<Rightarrow> Inl e
            | Inr fs \<Rightarrow>
                (let v = baseVal 256 fs in Inr ([], gs @ [v div 65536, v mod 65536], ellipsis)))
         else
           (let gs = gs @ [hexVal ds]
            in case r of
                 [] \<Rightarrow> Inr ([], gs, ellipsis)
               | c # r \<Rightarrow>
                   if c \<noteq> CHR '':'' then Inl (Msg ''unexpected character, want colon'')
                   else (case r of
                     [] \<Rightarrow> Inl (Msg ''colon must be followed by more characters'')
                   | c # r' \<Rightarrow>
                       if c = CHR '':'' then
                         (if ellipsis \<noteq> None then Inl (Msg ''multiple :: in address'')
                          else if r' = [] then Inr ([], gs, Some (length gs))
                          else ipv6Fields r' gs (Some (length gs)))
                       else ipv6Fields r gs ellipsis)))"
  by pat_completeness auto

termination by (relation "measure (\<lambda>(s, gs, e). 8 - length gs)") auto

declare ipv6Fields.simps [simp del]

definition expandEllipsis :: "string \<times> nat list \<times> nat option \<Rightarrow> nat list result" where
  "expandEllipsis = (\<lambda>(s, gs, ellipsis).
     if s \<noteq> [] then Inl (Msg ''trailing garbage after address'')
     else if length gs < 8 then
       (case ellipsis of
          None \<Rightarrow> Inl (Msg ''address string too short'')
        | Some k \<Rightarrow> Inr (take k gs @ replicate (8 - length gs) 0 @ drop k gs))
     else if ellipsis \<noteq> None then Inl (Msg ''the :: must expand to at least one field of zeros'')
     else Inr gs)"

definition parseIPv6Text :: "string \<Rightarrow> nat list result" where
  "parseIPv6Text s =
     (if s = ''::'' then Inr (replicate 8 0)
      else case (if HasPrefix s ''::'' then ipv6Fields (drop 2 s) [] (Some 0) else ipv6Fields s [] None) of
        Inl e \<Rightarrow> Inl e | Inr r \<Rightarrow> expandEllipsis r)"

definition parseIPv6 :: "string \<Rightarrow> Addr result" where
  "parseIPv6 text =
     (let (s, zone) = (case Cut text CHR ''%'' of None \<Rightarrow> (text, None) | Some (s, z) \<Rightarrow> (s, Some z))
      in if zone = Some [] then Inl (Msg ''zone must be a non-empty string'')
         else case parseIPv6Text s of
           Inl e \<Rightarrow> Inl e
         | Inr gs \<Rightarrow> Inr (V6 (of_nat (baseVal 65536 gs)) (case zone of None \<Rightarrow> [] | Some z \<Rightarrow> z)))"

definition ParseAddr :: "string \<Rightarrow> Addr result" where
  "ParseAddr s =
     (case find (\<lambda>c. c \<in> {CHR ''.'', CHR '':'', CHR ''%''}) s of
        None \<Rightarrow> Inl (Msg ''unable to parse IP'')
      | Some c \<Rightarrow>
          if c = CHR ''.'' then parseIPv4 s
          else if c = CHR '':'' then parseIPv6 s
          else Inl (Msg ''missing IPv6 address''))"

definition ParsePrefix :: "string \<Rightarrow> Prefix result" where
  "ParsePrefix s =
     (case CutLast s CHR ''/'' of
        None \<Rightarrow> Inl (Msg ''no / in prefix'')
      | Some (addrText, bitsStr) \<Rightarrow> (case ParseAddr addrText of
          Inl e \<Rightarrow> Inl e
        | Inr ip \<Rightarrow>
            if hasZone ip then Inl (Msg ''IPv6 zones cannot be present in a prefix'')
            else if length bitsStr > 1 \<and> (digit (hd bitsStr) = None \<or> hd bitsStr = CHR ''0'')
            then Inl (Msg ''bad bits after slash'')
            else (case ParseInt bitsStr of
              Inl e \<Rightarrow> Inl (Msg ''bad bits after slash'')
            | Inr bits \<Rightarrow>
                if bits < 0 \<or> bits > BitLen ip then Inl (Msg ''prefix length out of range'')
                else Inr (PrefixFrom ip bits))))"

section \<open>Reading back what was printed\<close>

subsection \<open>IPv4\<close>

lemma ipv4Fields_Itoa:
  "n < 256 \<Longrightarrow> ipv4Fields (Itoa n @ rest) 0 0 fs = ipv4Fields rest n (length (Itoa n)) fs"
proof (induction n arbitrary: rest rule: Itoa.induct)
  case (1 n)
  show ?case
  proof (cases "n < 10")
    case True
    then show ?thesis by (subst (1 2) Itoa.simps) (simp add: digit_char)
  next
    case False
    then have "n div 10 \<noteq> 0" by (simp add: div_eq_0_iff)
    have d: "digit (char_of (48 + n mod 10)) = Some (int (n mod 10))" by (rule digit_char) simp
    have "ipv4Fields (Itoa n @ rest) 0 0 fs = ipv4Fields (Itoa (n div 10) @ char_of (48 + n mod 10) # rest) 0 0 fs"
      using False by (subst Itoa.simps) simp
    also have "\<dots> = ipv4Fields (char_of (48 + n mod 10) # rest) (n div 10) (length (Itoa (n div 10))) fs"
      using 1 False by simp
    also have "\<dots> = ipv4Fields rest n (length (Itoa n)) fs"
      using False 1(2) d \<open>n div 10 \<noteq> 0\<close> by (subst (2) Itoa.simps) (simp add: nat_mod_distrib)
    finally show ?thesis .
  qed
qed

lemma octets_cases:
  obtains w x y z where "octets a = [w, x, y, z]" "w < 256" "x < 256" "y < 256" "z < 256"
proof -
  have "length (octets a) = 4" by (simp add: octets_def)
  then obtain w x y z where o: "octets a = [w, x, y, z]"
    by (auto simp: numeral_eq_Suc length_Suc_conv)
  moreover have "\<forall>d \<in> set (octets a). d < 256" by (simp add: octets_def baseDigits_bound)
  ultimately show thesis using that by simp
qed

lemma string4_fields: "ipv4Fields (string4 a) 0 0 [] = Inr (octets a)"
proof -
  obtain w x y z where o: "octets a = [w, x, y, z]" and b: "w < 256" "x < 256" "y < 256" "z < 256"
    by (rule octets_cases)
  have "string4 a = Itoa w @ CHR ''.'' # Itoa x @ CHR ''.'' # Itoa y @ CHR ''.'' # Itoa z @ []"
    by (simp add: string4_def o)
  then show ?thesis by (simp only:) (simp add: o b ipv4Fields_Itoa ipv4Fields_Itoa [of _ "[]", simplified])
qed

lemma string4_chars: "c \<in> set (string4 a) \<Longrightarrow> c = CHR ''.'' \<or> digit c \<noteq> None"
  using set_Join [of "map Itoa (octets a)" "CHR ''.''"] Itoa_chars by (auto simp: string4_def)

lemma string4_split: obtains w r where "w < 256" "string4 a = Itoa w @ CHR ''.'' # r"
proof -
  obtain w x y z where "octets a = [w, x, y, z]" "w < 256" by (rule octets_cases)
  then show thesis using that by (simp add: string4_def)
qed

lemma ParseAddr_string4: "ParseAddr (string4 a) = Inr (V4 a)"
proof -
  obtain w r where s: "string4 a = Itoa w @ CHR ''.'' # r" by (rule string4_split)
  have "\<forall>c \<in> set (Itoa w). c \<notin> {CHR ''.'', CHR '':'', CHR ''%''}"
    using Itoa_chars [of _ w] digit_special by blast
  then have "find (\<lambda>c. c \<in> {CHR ''.'', CHR '':'', CHR ''%''}) (Itoa w @ CHR ''.'' # r) = Some CHR ''.''"
    by (rule find_first) simp
  then show ?thesis by (simp only: s [symmetric] ParseAddr_def) (simp add: parseIPv4_def string4_fields octets_val)
qed

lemma ParseAddr_dotted:
  "ipv4Fields s 0 0 [] = Inr fs \<Longrightarrow> find (\<lambda>c. c \<in> {CHR ''.'', CHR '':'', CHR ''%''}) s = Some CHR ''.'' \<Longrightarrow>
   ParseAddr s = Inr (V4 (of_nat (baseVal 256 fs)))"
  unfolding ParseAddr_def by (simp only: option.case) (simp add: parseIPv4_def)

subsection \<open>IPv6\<close>

lemma hexDigit_hexChar: "n < 16 \<Longrightarrow> hexDigit (hexChar n) = Some n"
  by (simp add: hexDigit_def hexChar_def)

lemma hexText_value:
  "0 < k \<Longrightarrow> n < 16 ^ k \<Longrightarrow>
   hexText n \<noteq> [] \<and> length (hexText n) \<le> k \<and> list_all isHex (hexText n) \<and> hexVal (hexText n) = n"
proof (induction n arbitrary: k rule: hexText.induct)
  case (1 n)
  show ?case
  proof (cases "n < 16")
    case True
    with 1(2) show ?thesis by (subst (1 2 3 4) hexText.simps) (simp add: isHex_def hexVal_def hexDigit_hexChar baseVal_def)
  next
    case False
    with 1(2,3) obtain j where k: "k = Suc j" "0 < j" by (cases k; cases "k - 1") auto
    with 1(3) have "n div 16 < 16 ^ j" by (simp add: less_mult_imp_div_less mult.commute)
    with 1(1) False k have "hexText (n div 16) \<noteq> [] \<and> length (hexText (n div 16)) \<le> j \<and>
      list_all isHex (hexText (n div 16)) \<and> hexVal (hexText (n div 16)) = n div 16" by blast
    with False k show ?thesis
      by (subst (1 2 3 4) hexText.simps) (simp add: isHex_def hexVal_def hexDigit_hexChar)
  qed
qed

definition group :: "nat \<Rightarrow> bool" where "group g \<longleftrightarrow> g < 65536"

lemma hexText_group:
  assumes "group g"
  shows "hexText g \<noteq> []" "length (hexText g) \<le> 4" "\<forall>c \<in> set (hexText g). isHex c" "hexVal (hexText g) = g"
  using hexText_value [of 4 g] assms by (simp_all add: group_def list_all_iff)

lemma isHex_special [simp]: "\<not> isHex CHR ''.''" "\<not> isHex CHR '':''" "\<not> isHex CHR ''%''" "\<not> isHex CHR ''/''"
  by (simp_all add: isHex_def hexDigit_def)

lemma ipv6Fields_group:
  assumes "group g" "length gs < 8"
  shows "ipv6Fields (hexText g) gs e = Inr ([], gs @ [g], e)"
    "c \<noteq> CHR '':'' \<Longrightarrow> ipv6Fields (hexText g @ CHR '':'' # c # r) gs e = ipv6Fields (c # r) (gs @ [g]) e"
    "ipv6Fields (hexText g @ CHR '':'' # CHR '':'' # r) gs None =
       (if r = [] then Inr ([], gs @ [g], Some (Suc (length gs)))
        else ipv6Fields r (gs @ [g]) (Some (Suc (length gs))))"
proof -
  note H = hexText_group [OF assms(1)]
  have t: "takeWhile isHex (hexText g @ CHR '':'' # r) = hexText g" "dropWhile isHex (hexText g @ CHR '':'' # r) = CHR '':'' # r" for r
    using takeWhile_first [OF H(3), of "CHR '':'' # r"] by simp_all
  have t0: "takeWhile isHex (hexText g) = hexText g" "dropWhile isHex (hexText g) = []"
    using takeWhile_first [OF H(3), of "[]"] by simp_all
  have p: "\<not> HasPrefix [] ''.''" "\<not> HasPrefix (CHR '':'' # r) ''.''" for r by (simp_all add: HasPrefix_def)
  show "ipv6Fields (hexText g) gs e = Inr ([], gs @ [g], e)"
    using assms(2) H by (subst ipv6Fields.simps) (simp add: t0 p)
  show "c \<noteq> CHR '':'' \<Longrightarrow> ipv6Fields (hexText g @ CHR '':'' # c # r) gs e = ipv6Fields (c # r) (gs @ [g]) e"
    using assms(2) H by (subst ipv6Fields.simps) (simp add: t p)
  show "ipv6Fields (hexText g @ CHR '':'' # CHR '':'' # r) gs None =
       (if r = [] then Inr ([], gs @ [g], Some (Suc (length gs)))
        else ipv6Fields r (gs @ [g]) (Some (Suc (length gs))))"
    using assms(2) H by (subst ipv6Fields.simps) (simp add: t p)
qed

abbreviation hexJoin :: "nat list \<Rightarrow> string" where "hexJoin gs \<equiv> Join (map hexText gs) CHR '':''"

lemma hexJoin_hd:
  assumes "\<forall>g \<in> set gs. group g" "gs \<noteq> []"
  obtains c r where "hexJoin gs = c # r" "isHex c"
proof -
  obtain g hs where g: "gs = g # hs" using assms(2) by (cases gs) auto
  with assms(1) have H: "group g" by simp
  obtain c r where "hexText g = c # r" using hexText_group(1) [OF H] by (cases "hexText g") auto
  moreover from this hexText_group(3) [OF H] have "isHex c" by simp
  ultimately show thesis using that g by (cases hs) simp_all
qed

lemma ipv6Fields_join:
  "\<forall>h \<in> set hs. group h \<Longrightarrow> hs \<noteq> [] \<Longrightarrow> length gs + length hs \<le> 8 \<Longrightarrow>
   ipv6Fields (hexJoin hs) gs e = Inr ([], gs @ hs, e)"
proof (induction hs arbitrary: gs)
  case (Cons h hs)
  show ?case
  proof (cases "hs = []")
    case True
    with Cons.prems show ?thesis by (simp add: ipv6Fields_group)
  next
    case False
    with Cons.prems obtain c r where c: "hexJoin hs = c # r" "isHex c" by (auto elim: hexJoin_hd [of hs])
    then have "c \<noteq> CHR '':''" by auto
    with False c Cons.prems Cons.IH [of "gs @ [h]"] show ?thesis by (simp add: Join_Cons ipv6Fields_group)
  qed
qed simp

lemma ipv6Fields_ellipsis:
  "\<forall>h \<in> set hs. group h \<Longrightarrow> hs \<noteq> [] \<Longrightarrow> length gs + length hs \<le> 8 \<Longrightarrow>
   ipv6Fields (hexJoin hs @ CHR '':'' # CHR '':'' # t) gs None =
     (if t = [] then Inr ([], gs @ hs, Some (length (gs @ hs)))
      else ipv6Fields t (gs @ hs) (Some (length (gs @ hs))))"
proof (induction hs arbitrary: gs)
  case (Cons h hs)
  show ?case
  proof (cases "hs = []")
    case True
    with Cons.prems show ?thesis by (simp add: ipv6Fields_group)
  next
    case False
    with Cons.prems obtain c r where c: "hexJoin hs = c # r" "isHex c" by (auto elim: hexJoin_hd [of hs])
    then have "c \<noteq> CHR '':''" by auto
    with False c Cons.prems Cons.IH [of "gs @ [h]"] show ?thesis by (simp add: Join_Cons ipv6Fields_group)
  qed
qed simp

lemma zeroRun_spec:
  assumes "zeroRun (length xs) gs best = (s, l)"
    and "snd best = 0 \<or> 2 \<le> snd best \<and> (\<exists>ys zs. xs @ gs = ys @ replicate (snd best) 0 @ zs \<and> length ys = fst best)"
  shows "l = 0 \<or> 2 \<le> l \<and> (\<exists>ys zs. xs @ gs = ys @ replicate l 0 @ zs \<and> length ys = s)"
  using assms
proof (induction gs arbitrary: xs best)
  case (Cons g gs)
  let ?n = "length (takeWhile (\<lambda>x. x = 0) (g # gs))"
  let ?best = "if 2 \<le> ?n \<and> snd best < ?n then (length xs, ?n) else best"
  have run: "takeWhile (\<lambda>x. x = 0) (g # gs) = replicate ?n 0"
    by (rule replicate_eqI) (auto dest: set_takeWhileD)
  have "g # gs = takeWhile (\<lambda>x. x = 0) (g # gs) @ dropWhile (\<lambda>x. x = 0) (g # gs)"
    by (rule takeWhile_dropWhile_id [symmetric])
  then have split: "xs @ g # gs = xs @ replicate ?n 0 @ dropWhile (\<lambda>x. x = 0) (g # gs)"
    unfolding run [symmetric] by simp
  have "zeroRun (length (xs @ [g])) gs ?best = (s, l)" using Cons.prems(1) by (simp only: zeroRun.simps Let_def length_append_singleton)
  moreover have "snd ?best = 0 \<or> 2 \<le> snd ?best \<and>
      (\<exists>ys zs. (xs @ [g]) @ gs = ys @ replicate (snd ?best) 0 @ zs \<and> length ys = fst ?best)"
  proof (cases "2 \<le> ?n \<and> snd best < ?n")
    case True
    from split have "\<exists>ys zs. (xs @ [g]) @ gs = ys @ replicate ?n 0 @ zs \<and> length ys = length xs"
      unfolding append_assoc append_Cons append_Nil by blast
    with True show ?thesis by (simp only: if_True fst_conv snd_conv) simp
  next
    case False
    then show ?thesis using Cons.prems(2) by (simp only: if_False append_assoc append_Cons append_Nil)
  qed
  ultimately show ?case using Cons.IH [of "xs @ [g]" ?best] by simp
qed auto

lemma parseIPv6Text_string6:
  assumes "length gs = 8" "\<forall>g \<in> set gs. group g"
  shows "parseIPv6Text (string6 gs) = Inr gs"
proof -
  obtain s l where z: "zeroRun 0 gs (0, 0) = (s, l)" by (metis surj_pair)
  from zeroRun_spec [of "[]" gs "(0, 0)" s l] z consider
    (plain) "l = 0" | (run) ys zs where "2 \<le> l" "gs = ys @ replicate l 0 @ zs" "length ys = s" by auto
  then show ?thesis
  proof cases
    case plain
    with z have s: "string6 gs = hexJoin gs" by (simp add: string6_def)
    from assms obtain c r where c: "hexJoin gs = c # r" "isHex c" by (auto elim: hexJoin_hd [of gs])
    then have "c \<noteq> CHR '':''" by auto
    with c have "\<not> HasPrefix (string6 gs) ''::''" "string6 gs \<noteq> ''::''" by (simp_all add: s HasPrefix_def)
    moreover have "ipv6Fields (string6 gs) [] None = Inr ([], gs, None)"
      unfolding s using ipv6Fields_join [of gs "[]" None] assms by force
    ultimately show ?thesis using assms(1) by (simp add: parseIPv6Text_def expandEllipsis_def)
  next
    case run
    then have s: "string6 gs = hexJoin ys @ CHR '':'' # CHR '':'' # hexJoin zs"
      using z by (simp add: string6_def)
    have len: "length ys + l + length zs = 8" using assms(1) run by simp
    have g: "\<forall>g \<in> set ys. group g" "\<forall>g \<in> set zs. group g" using assms(2) run by simp_all
    have zs: "ipv6Fields (hexJoin zs) ys (Some (length ys)) = Inr ([], ys @ zs, Some (length ys))" if "zs \<noteq> []"
      using ipv6Fields_join [OF g(2) that, of ys] len by simp
    have ne: "hexJoin zs = [] \<longleftrightarrow> zs = []" using g(2) by (cases "zs = []") (auto elim: hexJoin_hd [of zs])
    have ex: "expandEllipsis ([], ys @ zs, Some (length ys)) = Inr gs"
    proof -
      have "8 - (length ys + length zs) = l" using len by simp
      then show ?thesis using run len by (simp add: expandEllipsis_def)
    qed
    show ?thesis
    proof (cases "ys = []")
      case True
      then have "string6 gs = ''::'' @ hexJoin zs" by (simp add: s)
      moreover have "gs = replicate 8 0" if "zs = []" using run len True that by simp
      ultimately show ?thesis using zs ex ne True by (auto simp: parseIPv6Text_def HasPrefix_Cons)
    next
      case False
      then obtain c r where c: "hexJoin ys = c # r" "isHex c" using g(1) by (auto elim: hexJoin_hd [of ys])
      then have "c \<noteq> CHR '':''" by auto
      with c have "\<not> HasPrefix (string6 gs) ''::''" "string6 gs \<noteq> ''::''" by (simp_all add: s HasPrefix_def)
      moreover have "ipv6Fields (string6 gs) [] None = Inr ([], ys @ zs, Some (length ys))"
        unfolding s using ipv6Fields_ellipsis [OF g(1) False, of "[]" "hexJoin zs"] len zs ne by simp
      ultimately show ?thesis using ex by (simp add: parseIPv6Text_def)
    qed
  qed
qed


lemma groups_group: "length (groups a) = 8" "\<forall>g \<in> set (groups a). group g"
  by (simp_all add: groups_def group_def baseDigits_bound)

lemma string4_hex: "c \<in> set (string4 a) \<Longrightarrow> c \<notin> {CHR '':'', CHR ''%'', CHR ''/''}"
  using string4_chars digit_special by blast

lemma digit_isHex: "digit c \<noteq> None \<Longrightarrow> isHex c"
  by (auto simp: digit_def isHex_def hexDigit_def Let_def split: if_splits)

text \<open>The mapped form, \<open>::ffff:a.b.c.d\<close>.\<close>

lemma parseIPv6Text_mapped: "parseIPv6Text (''::ffff:'' @ string4 b) = Inr (replicate 5 0 @ [65535, unat b div 65536, unat b mod 65536])"
proof -
  obtain w r where w: "w < 256" "string4 b = Itoa w @ CHR ''.'' # r" by (rule string4_split)
  let ?d = "Itoa w"
  obtain c cs where c: "string4 b = c # cs" "digit c \<noteq> None"
    using w(2) Itoa_chars [of _ w] by (cases "Itoa w") auto
  have h: "\<forall>x \<in> set ?d. isHex x" using Itoa_chars digit_isHex by blast
  have t: "takeWhile isHex (string4 b) = ?d" "dropWhile isHex (string4 b) = CHR ''.'' # r"
    using takeWhile_first [OF h, of "CHR ''.'' # r"] w(2) by simp_all
  have l: "length ?d \<le> 4"
  proof -
    have "w < 10 \<or> 10 \<le> w \<and> w < 100 \<or> 100 \<le> w" "w div 10 div 10 < 10" using w(1) by auto
    then show ?thesis by (auto simp: Itoa.simps)
  qed
  have "hexText 65535 = ''ffff''" by (simp add: hexText.simps hexChar_def char_of_eq_iff)
  moreover have "c \<noteq> CHR '':''" using c(2) by auto
  ultimately have 1: "ipv6Fields (''ffff:'' @ string4 b) [] (Some 0) = ipv6Fields (string4 b) [65535] (Some 0)"
    using ipv6Fields_group(2) [of 65535 "[]" c cs "Some 0"] by (simp add: group_def c(1))
  have 2: "\<dots> = Inr ([], [65535, unat b div 65536, unat b mod 65536], Some 0)"
    using l by (subst ipv6Fields.simps) (simp add: t Let_def HasPrefix_def string4_fields octets_def baseVal_baseDigits unsigned_less [where 'a = nat, of b, simplified])
  have "drop 2 (''::ffff:'' @ string4 b) = ''ffff:'' @ string4 b" "HasPrefix (''::ffff:'' @ string4 b) ''::''"
    "''::ffff:'' @ string4 b \<noteq> ''::''" by (simp_all add: HasPrefix_def)
  then have "parseIPv6Text (''::ffff:'' @ string4 b) = expandEllipsis ([], [65535, unat b div 65536, unat b mod 65536], Some 0)"
    unfolding parseIPv6Text_def by (simp only: 1 2 if_True if_False sum.case)
  then show ?thesis by (simp add: expandEllipsis_def)
qed

subsection \<open>Addresses with zones\<close>

lemma parseIPv6_zone:
  assumes "parseIPv6Text s = Inr gs" "CHR ''%'' \<notin> set s"
  shows "parseIPv6 (s @ zoneText zone) = Inr (V6 (of_nat (baseVal 65536 gs)) zone)"
proof (cases "zone = []")
  case True
  have "Cut s CHR ''%'' = None" using assms(2) by simp
  with True assms(1) show ?thesis by (simp add: parseIPv6_def zoneText_def)
next
  case False
  then show ?thesis using assms by (simp add: parseIPv6_def zoneText_def Cut_append)
qed

lemma hexJoin_chars: "\<forall>g \<in> set gs. group g \<Longrightarrow> c \<in> set (hexJoin gs) \<Longrightarrow> c = CHR '':'' \<or> isHex c"
  using set_Join [of "map hexText gs" "CHR '':''"] hexText_group(3) by auto

lemma string6_chars:
  assumes "\<forall>g \<in> set gs. group g" "c \<in> set (string6 gs)"
  shows "c = CHR '':'' \<or> isHex c"
proof -
  have "\<forall>g \<in> set (take n gs). group g" "\<forall>g \<in> set (drop n gs). group g" for n
    using assms(1) by (meson in_set_takeD in_set_dropD)+
  with assms hexJoin_chars [of gs c] hexJoin_chars [of "take n gs" c for n] hexJoin_chars [of "drop n gs" c for n]
  show ?thesis by (auto simp: string6_def split: prod.splits if_splits)
qed

lemma string6_colon: "length gs = 8 \<Longrightarrow> CHR '':'' \<in> set (string6 gs)"
proof (cases "zeroRun 0 gs (0, 0)")
  case (Pair s l)
  assume "length gs = 8"
  then obtain g h hs where "gs = g # h # hs" by (auto simp: numeral_eq_Suc length_Suc_conv)
  with Pair show ?thesis by (cases "l = 0") (simp_all add: string6_def)
qed

lemma ParseAddr_colon:
  assumes "CHR '':'' \<in> set s" "\<forall>c \<in> set s. c = CHR '':'' \<or> isHex c"
  shows "ParseAddr (s @ t) = parseIPv6 (s @ t)"
proof -
  obtain a b where s: "s = a @ CHR '':'' # b" "CHR '':'' \<notin> set a" using assms(1) by (meson split_list_first)
  then have "\<forall>c \<in> set a. c \<notin> {CHR ''.'', CHR '':'', CHR ''%''}" 
    using assms(2) s isHex_special by (metis Un_iff empty_iff insert_iff set_append)
  then have "find (\<lambda>c. c \<in> {CHR ''.'', CHR '':'', CHR ''%''}) (a @ CHR '':'' # (b @ t)) = Some CHR '':''"
    by (rule find_first) simp
  then show ?thesis unfolding ParseAddr_def s append_assoc append_Cons by (simp only: option.case) simp
qed

lemma mapped_val:
  fixes a :: "128 word"
  assumes "drop_bit 32 a = 0xFFFF"
  shows "of_nat (baseVal 65536 (replicate 5 0 @ [65535, unat (ucast a :: 32 word) div 65536, unat (ucast a :: 32 word) mod 65536])) = a"
proof -
  have "unat a div 2 ^ 32 = unat (drop_bit 32 a)" using unat_drop_bit_eq [of 32 a] drop_bit_eq_div [of 32 "unat a"] by simp
  then have hi: "unat a div 2 ^ 32 = 65535" by (simp add: assms)
  have lo: "unat (ucast a :: 32 word) = unat a mod 2 ^ 32" by (simp add: unsigned_ucast_eq take_bit_eq_mod)
  have r5: "replicate 5 (0::nat) = [0, 0, 0, 0, 0]" by (simp add: numeral_eq_Suc)
  have "baseVal 65536 (replicate 5 0 @ [65535, x div 65536, x mod 65536]) = 65535 * 2 ^ 32 + x" for x
    using div_mult_mod_eq [of x 65536] unfolding r5 by (simp add: baseVal_def)
  then have "baseVal 65536 (replicate 5 0 @ [65535, unat (ucast a :: 32 word) div 65536, unat (ucast a :: 32 word) mod 65536]) = unat a"
    unfolding lo using hi by (metis div_mult_mod_eq)
  then show ?thesis by simp
qed

lemma ParseAddr_String:
  assumes "a \<noteq> InvalidAddr"
  shows "ParseAddr (AddrString a) = Inr a"
proof (cases a)
  case (V6 w zone)
  show ?thesis
  proof (cases "drop_bit 32 w = 0xFFFF")
    case True
    have "CHR ''%'' \<notin> set (''::ffff:'' @ string4 (ucast w))" using string4_hex by force
    note P = parseIPv6_zone [OF parseIPv6Text_mapped this]
    have "ParseAddr (AddrString a) = parseIPv6 ((''::ffff:'' @ string4 (ucast w)) @ zoneText zone)"
      using True by (simp add: V6 ParseAddr_def)
    then show ?thesis unfolding P using mapped_val [OF True] by (simp add: V6)
  next
    case False
    have "CHR ''%'' \<notin> set (string6 (groups w))" using string6_chars [OF groups_group(2)] isHex_special by blast
    note P = parseIPv6_zone [OF parseIPv6Text_string6 [OF groups_group] this]
    have "ParseAddr (AddrString a) = parseIPv6 (string6 (groups w) @ zoneText zone)"
      using False ParseAddr_colon [OF string6_colon [OF groups_group(1)]] string6_chars [OF groups_group(2)]
      by (simp add: V6)
    then show ?thesis unfolding P using groups_val [of w] by (simp add: V6)
  qed
qed (use assms ParseAddr_string4 in simp_all)

lemma AddrString_inj: "a \<noteq> InvalidAddr \<Longrightarrow> b \<noteq> InvalidAddr \<Longrightarrow> AddrString a = AddrString b \<longleftrightarrow> a = b"
  by (metis ParseAddr_String sum.inject(2))

subsection \<open>Prefixes\<close>

definition valid_prefix :: "Prefix \<Rightarrow> bool" where
  "valid_prefix p \<longleftrightarrow> pf_Addr p \<noteq> InvalidAddr \<and> 0 \<le> pf_Bits p \<and> pf_Bits p \<le> BitLen (pf_Addr p) \<and> \<not> hasZone (pf_Addr p)"

lemma BitLen_bound: "BitLen a \<le> 128" by (cases a) simp_all

lemma ParseInt_Itoa_bits: "0 \<le> n \<Longrightarrow> n \<le> 128 \<Longrightarrow> ParseInt (Itoa (nat n)) = Inr n"
  using ParseInt_Itoa [of "nat n"] by (simp add: maxInt64_def)

lemma ParsePrefix_String:
  assumes "valid_prefix p"
  shows "ParsePrefix (PrefixString p) = Inr p"
proof -
  from assms have v: "pf_Addr p \<noteq> InvalidAddr" "0 \<le> pf_Bits p" "pf_Bits p \<le> BitLen (pf_Addr p)" "\<not> hasZone (pf_Addr p)"
    by (simp_all add: valid_prefix_def)
  let ?b = "Itoa (nat (pf_Bits p))"
  have "CHR ''/'' \<notin> set ?b" using Itoa_chars [of "CHR ''/''"] by auto
  then have c: "CutLast (PrefixString p) CHR ''/'' = Some (AddrString (pf_Addr p), ?b)"
    using v(2) by (simp add: PrefixString_def CutLast_append)
  have "\<not> (length ?b > 1 \<and> (digit (hd ?b) = None \<or> hd ?b = CHR ''0''))"
    using Itoa_no_zero [of "nat (pf_Bits p)"] Itoa_chars [of "hd ?b" "nat (pf_Bits p)"] by auto
  moreover have "ParseInt ?b = Inr (pf_Bits p)"
    using v(2,3) BitLen_bound [of "pf_Addr p"] by (intro ParseInt_Itoa_bits) simp_all
  moreover have "PrefixFrom (pf_Addr p) (pf_Bits p) = p"
    using v by (cases "pf_Addr p") (simp_all add: PrefixFrom_def)
  ultimately show ?thesis using v by (simp add: ParsePrefix_def c ParseAddr_String)
qed

section \<open>The rate-limit key of an address\<close>

definition clientKey :: "Addr \<Rightarrow> string" where
  "clientKey a =
     (let a = Unmap a
      in if Is4 a then AddrString a else PrefixString (Masked (PrefixFrom a 64)))"

text \<open>The bucket of a client: its IPv4 address, or the first 64 bits of its IPv6 address.\<close>

fun client_class :: "Addr \<Rightarrow> nat + nat" where
  "client_class (V4 a) = Inl (unat a)"
| "client_class (V6 a z) = Inr (unat a div 2 ^ 64)"
| "client_class InvalidAddr = Inr 0"

lemma PrefixString_inj:
  "valid_prefix p \<Longrightarrow> valid_prefix q \<Longrightarrow> PrefixString p = PrefixString q \<longleftrightarrow> p = q"
  by (metis ParsePrefix_String sum.inject(2))

lemma clientKey_V6:
  "PrefixString (Masked (PrefixFrom (V6 a z) 64)) = PrefixString (Masked (PrefixFrom (V6 b y) 64)) \<longleftrightarrow>
    unat a div 2 ^ 64 = unat b div 2 ^ 64"
  by (subst PrefixString_inj)
    (simp_all add: valid_prefix_def PrefixFrom_def Masked_def clearLow_eq_iff drop_bit_word_eq_iff)

lemma AddrString_not_prefix:
  assumes "Is4 a" "0 \<le> pf_Bits p"
  shows "AddrString a \<noteq> PrefixString p"
proof -
  obtain w where "a = V4 w" using assms(1) by (cases a) simp_all
  then have "CHR ''/'' \<notin> set (AddrString a)" using string4_hex by force
  moreover have "CHR ''/'' \<in> set (PrefixString p)" using assms(2) by (simp add: PrefixString_def)
  ultimately show ?thesis by metis
qed

section \<open>Properties\<close>

text \<open>C35: two clients share a rate-limit key exactly when they have the same IPv4 address or
  the same first 64 bits of an IPv6 address; the IPv4-mapped form of an address counts as
  that address, zones are ignored.\<close>

theorem clientKey_iff:
  assumes "Unmap a \<noteq> InvalidAddr" "Unmap b \<noteq> InvalidAddr"
  shows "clientKey a = clientKey b \<longleftrightarrow> client_class (Unmap a) = client_class (Unmap b)"
proof -
  have m: "0 \<le> pf_Bits (Masked (PrefixFrom (V6 x z) 64))" for x z
    by (simp add: PrefixFrom_def Masked_def)
  show ?thesis
  proof (cases "Unmap a"; cases "Unmap b")
    fix x y assume "Unmap a = V4 x" "Unmap b = V4 y"
    then show ?thesis using AddrString_inj [of "V4 x" "V4 y"] by (simp add: clientKey_def word_unat_eq_iff)
  next
    fix x y z assume "Unmap a = V4 x" "Unmap b = V6 y z"
    then show ?thesis using AddrString_not_prefix [of "V4 x", OF _ m] by (simp add: clientKey_def)
  next
    fix x y z assume "Unmap a = V6 y z" "Unmap b = V4 x"
    then show ?thesis using AddrString_not_prefix [of "V4 x", OF _ m, symmetric] by (simp add: clientKey_def)
  next
    fix x z y z' assume "Unmap a = V6 x z" "Unmap b = V6 y z'"
    then show ?thesis by (simp add: clientKey_def clientKey_V6)
  qed (use assms in simp_all)
qed

theorem clientKey_iff_witness:
  "clientKey (V6 (0x20010db8 * 2 ^ 96 + 1) []) = clientKey (V6 (0x20010db8 * 2 ^ 96 + 2) ''eth0'')"
proof -
  have "clientKey (V6 (0x20010db8 * 2 ^ 96 + 1) []) = clientKey (V6 (0x20010db8 * 2 ^ 96 + 2) ''eth0'') \<longleftrightarrow>
    client_class (Unmap (V6 (0x20010db8 * 2 ^ 96 + 1) [])) = client_class (Unmap (V6 (0x20010db8 * 2 ^ 96 + 2) ''eth0''))"
    by (rule clientKey_iff) simp_all
  then show ?thesis by simp
qed

end
