(* ===== verification/GoURL.thy ===== *)
theory GoURL
  imports AddrText
begin

text \<open>
  \<open>net/url.Parse\<close> of the standard library, as far as its result is read: scheme, host,
  presence of a user, path, query and fragment.
\<close>

record URL =
  url_Scheme :: string
  url_Host :: string
  url_HasUser :: bool
  url_Path :: string
  url_RawQuery :: string
  url_Fragment :: string

section \<open>Escapes\<close>

datatype encoding = encodeHost | encodeZone | encodePath | encodeUserPassword | encodeFragment

definition isLetter :: "char \<Rightarrow> bool" where
  "isLetter c \<longleftrightarrow> (let n = of_char c :: nat in 65 \<le> n \<and> n \<le> 90 \<or> 97 \<le> n \<and> n \<le> 122)"

definition isAlnum :: "char \<Rightarrow> bool" where
  "isAlnum c \<longleftrightarrow> isLetter c \<or> digit c \<noteq> None"

text \<open>The bytes that \<open>shouldEscape\<close> lets stand in a host or a zone; bytes outside ASCII are not
  asked about.\<close>

definition hostPunctuation :: string where
  "hostPunctuation = ''!$&()*+,;=:[]<>-_.~'' @ [CHR 0x22, CHR 0x27]"

definition hostByte :: "char \<Rightarrow> bool" where
  "hostByte c \<longleftrightarrow> isAlnum c \<or> c \<in> set hostPunctuation"

definition badEscape :: "encoding \<Rightarrow> nat \<Rightarrow> nat \<Rightarrow> bool" where
  "badEscape mode hi lo \<longleftrightarrow>
     (mode = encodeHost \<and> hi < 8 \<and> \<not> (hi = 2 \<and> lo = 5)) \<or>
     (mode = encodeZone \<and> \<not> (hi = 2 \<and> lo = 5) \<and> char_of (16 * hi + lo) \<noteq> CHR '' '' \<and>
        \<not> hostByte (char_of (16 * hi + lo)))"

fun unescape :: "encoding \<Rightarrow> string \<Rightarrow> string result" where
  "unescape mode [] = Inr []"
| "unescape mode (c # cs) =
     (if c = CHR ''%'' then
        (case cs of
           a # b # rest \<Rightarrow>
             (case (hexDigit a, hexDigit b) of
                (Some hi, Some lo) \<Rightarrow>
                  if badEscape mode hi lo then Inl (Msg ''invalid URL escape '')
                  else (case unescape mode rest of Inl e \<Rightarrow> Inl e | Inr r \<Rightarrow> Inr (char_of (16 * hi + lo) # r))
              | _ \<Rightarrow> Inl (Msg ''invalid URL escape ''))
         | _ \<Rightarrow> Inl (Msg ''invalid URL escape ''))
      else if (mode = encodeHost \<or> mode = encodeZone) \<and> ascii c \<and> \<not> hostByte c
      then Inl (Msg ''invalid character in host name'')
      else (case unescape mode cs of Inl e \<Rightarrow> Inl e | Inr r \<Rightarrow> Inr (c # r)))"

section \<open>Authority\<close>

definition validOptionalPort :: "string \<Rightarrow> bool" where
  "validOptionalPort port \<longleftrightarrow>
     (case port of [] \<Rightarrow> True | c # cs \<Rightarrow> c = CHR '':'' \<and> list_all (\<lambda>d. digit d \<noteq> None) cs)"

text \<open>The text before the first occurrence of a substring, and from there on.\<close>

fun SplitAt :: "string \<Rightarrow> string \<Rightarrow> string \<times> string" where
  "SplitAt [] sub = ([], [])"
| "SplitAt (c # cs) sub =
     (if HasPrefix (c # cs) sub then ([], c # cs) else case SplitAt cs sub of (a, b) \<Rightarrow> (c # a, b))"

definition unescapeIPLiteral :: "string \<Rightarrow> string result" where
  "unescapeIPLiteral hostname =
     (case SplitAt hostname ''%25'' of
        (hostPart, []) \<Rightarrow> unescape encodeHost hostname
      | (hostPart, zonePart) \<Rightarrow> (case unescape encodeHost hostPart of
          Inl e \<Rightarrow> Inl e
        | Inr h \<Rightarrow> (case unescape encodeZone zonePart of Inl e \<Rightarrow> Inl e | Inr z \<Rightarrow> Inr (h @ z))))"

definition parseIPLiteral :: "string \<Rightarrow> string result" where
  "parseIPLiteral host =
     (case CutLast host CHR '']'' of
        None \<Rightarrow> Inl (Msg ''missing ']' in host'')
      | Some (before, colonPort) \<Rightarrow>
          if \<not> validOptionalPort colonPort then Inl (Msg ''invalid port after host'')
          else (case unescape encodeHost colonPort of
            Inl e \<Rightarrow> Inl e
          | Inr port \<Rightarrow> (case unescapeIPLiteral (drop 1 before) of
              Inl e \<Rightarrow> Inl e
            | Inr hostname \<Rightarrow> (case ParseAddr hostname of
                Inl e \<Rightarrow> Inl (Wrap ''invalid host: %w'' e)
              | Inr addr \<Rightarrow>
                  if Is4 addr then Inl (Msg ''invalid IP-literal'')
                  else Inr (''['' @ hostname @ '']'' @ port)))))"

definition parseHost :: "string \<Rightarrow> string \<Rightarrow> string result" where
  "parseHost scheme host =
     (case CutLast host CHR ''['' of
        Some (c # cs, _) \<Rightarrow> Inl (Msg ''invalid IP-literal'')
      | Some ([], _) \<Rightarrow> parseIPLiteral host
      | None \<Rightarrow>
          (case (Cut host CHR '':'', CutLast host CHR '':'') of
             (Some (_, afterFirst), Some (_, afterLast)) \<Rightarrow>
               if validOptionalPort (CHR '':'' # (if scheme = ''http'' \<or> scheme = ''https'' then afterFirst else afterLast))
               then unescape encodeHost host else Inl (Msg ''invalid port after host'')
           | _ \<Rightarrow> unescape encodeHost host))"

definition validUserinfo :: "string \<Rightarrow> bool" where
  "validUserinfo s \<longleftrightarrow> list_all (\<lambda>c. isAlnum c \<or> c \<in> set (''-._:~!$&()*+,;=%@'' @ [CHR 0x27])) s"

definition parseUserinfo :: "string \<Rightarrow> unit result" where
  "parseUserinfo userinfo =
     (if \<not> validUserinfo userinfo then Inl (Msg ''net/url: invalid userinfo'')
      else case Cut userinfo CHR '':'' of
        None \<Rightarrow> (case unescape encodeUserPassword userinfo of Inl e \<Rightarrow> Inl e | Inr _ \<Rightarrow> Inr ())
      | Some (username, password) \<Rightarrow> (case unescape encodeUserPassword username of
          Inl e \<Rightarrow> Inl e
        | Inr _ \<Rightarrow> (case unescape encodeUserPassword password of Inl e \<Rightarrow> Inl e | Inr _ \<Rightarrow> Inr ())))"

text \<open>Whether there is a user, and the host.\<close>

definition parseAuthority :: "string \<Rightarrow> string \<Rightarrow> (bool \<times> string) result" where
  "parseAuthority scheme authority =
     (case CutLast authority CHR ''@'' of
        None \<Rightarrow> (case parseHost scheme authority of Inl e \<Rightarrow> Inl e | Inr host \<Rightarrow> Inr (False, host))
      | Some (userinfo, rest) \<Rightarrow> (case parseHost scheme rest of
          Inl e \<Rightarrow> Inl e
        | Inr host \<Rightarrow> (case parseUserinfo userinfo of Inl e \<Rightarrow> Inl e | Inr _ \<Rightarrow> Inr (True, host))))"

section \<open>The whole URL\<close>

text \<open>\<open>getScheme\<close>: the scheme, empty when there is none, and the rest; \<open>acc\<close> is what was
  read before.\<close>

fun getScheme :: "string \<Rightarrow> string \<Rightarrow> (string \<times> string) result" where
  "getScheme acc [] = Inr ([], acc)"
| "getScheme acc (c # cs) =
     (if isLetter c then getScheme (acc @ [c]) cs
      else if digit c \<noteq> None \<or> c \<in> {CHR ''+'', CHR ''-'', CHR ''.''} then
        (if acc = [] then Inr ([], c # cs) else getScheme (acc @ [c]) cs)
      else if c = CHR '':'' then
        (if acc = [] then Inl (Msg ''missing protocol scheme'') else Inr (acc, cs))
      else Inr ([], acc @ c # cs))"

definition hasControl :: "string \<Rightarrow> bool" where
  "hasControl s \<longleftrightarrow> list_ex (\<lambda>c. (of_char c :: nat) < 32 \<or> (of_char c :: nat) = 127) s"

definition cutQuery :: "string \<Rightarrow> string \<times> string" where
  "cutQuery s = (case Cut s CHR ''?'' of None \<Rightarrow> (s, []) | Some (rest, query) \<Rightarrow> (rest, query))"

definition parsePath :: "string \<Rightarrow> URL \<Rightarrow> URL result" where
  "parsePath rest u = (case unescape encodePath rest of Inl e \<Rightarrow> Inl e | Inr path \<Rightarrow> Inr (u\<lparr>url_Path := path\<rparr>))"

text \<open>The text after the scheme and before the query: \<open>authority\<close> and path. A text that starts with
  three slashes has an authority, an empty one, only after a scheme.\<close>

definition parseHierarchy :: "string \<Rightarrow> string \<Rightarrow> URL \<Rightarrow> URL result" where
  "parseHierarchy scheme rest u =
     (if HasPrefix rest ''//'' \<and> (scheme \<noteq> [] \<or> \<not> HasPrefix rest ''///'') then
        (let (authority, path) =
               (case Cut (drop 2 rest) CHR ''/'' of None \<Rightarrow> (drop 2 rest, []) | Some (a, p) \<Rightarrow> (a, CHR ''/'' # p))
         in case parseAuthority scheme authority of
              Inl e \<Rightarrow> Inl e
            | Inr (hasUser, host) \<Rightarrow> parsePath path (u\<lparr>url_HasUser := hasUser, url_Host := host\<rparr>))
      else parsePath rest u)"

definition parseURL :: "string \<Rightarrow> URL result" where
  "parseURL raw =
     (let u = \<lparr>url_Scheme = [], url_Host = [], url_HasUser = False, url_Path = [], url_RawQuery = [], url_Fragment = []\<rparr>
      in if hasControl raw then Inl (Msg ''net/url: invalid control character in URL'')
         else if raw = ''*'' then Inr (u\<lparr>url_Path := ''*''\<rparr>)
         else case getScheme [] raw of
           Inl e \<Rightarrow> Inl e
         | Inr (scheme0, rest0) \<Rightarrow>
             (let scheme = ToLower scheme0; (rest, query) = cutQuery rest0;
                  u = u\<lparr>url_Scheme := scheme, url_RawQuery := query\<rparr>
              in if \<not> HasPrefix rest ''/'' \<and> scheme \<noteq> [] then Inr u
                 else if \<not> HasPrefix rest ''/'' \<and> CHR '':'' \<in> set (hd (Split rest CHR ''/''))
                 then Inl (Msg ''first path segment in URL cannot contain colon'')
                 else parseHierarchy scheme rest u))"

definition url_Parse :: "string \<Rightarrow> URL result" where
  "url_Parse raw =
     (let (s, frag) = (case Cut raw CHR ''#'' of None \<Rightarrow> (raw, []) | Some (s, frag) \<Rightarrow> (s, frag))
      in case parseURL s of
           Inl e \<Rightarrow> Inl (Wrap ''parse'' e)
         | Inr u \<Rightarrow>
             if frag = [] then Inr u
             else (case unescape encodeFragment frag of
               Inl e \<Rightarrow> Inl (Wrap ''parse'' e) | Inr f \<Rightarrow> Inr (u\<lparr>url_Fragment := f\<rparr>)))"

section \<open>Hosts\<close>

text \<open>What a host can consist of: the bytes that need no escape, bytes outside ASCII, and inside
  brackets a per cent sign or a space of a zone.\<close>

definition hostText :: "string \<Rightarrow> bool" where
  "hostText s \<longleftrightarrow> list_all (\<lambda>c. hostByte c \<or> \<not> ascii c \<or> c \<in> {CHR ''%'', CHR '' ''}) s"

lemma hostText_append [simp]: "hostText (a @ b) \<longleftrightarrow> hostText a \<and> hostText b"
  by (simp add: hostText_def)

lemma hostText_brackets [simp]: "hostText ''[''" "hostText '']''" "hostText []"
  by (simp_all add: hostText_def hostByte_def hostPunctuation_def)

lemma hexDigit_bound: "hexDigit c = Some n \<Longrightarrow> n < 16"
  by (auto simp: hexDigit_def Let_def split: if_splits)

lemma goodEscape_hostText:
  assumes "\<not> badEscape mode hi lo" "mode \<in> {encodeHost, encodeZone}" "hi < 16" "lo < 16"
  shows "hostByte (char_of (16 * hi + lo)) \<or> \<not> ascii (char_of (16 * hi + lo)) \<or> char_of (16 * hi + lo) \<in> {CHR ''%'', CHR '' ''}"
proof (cases "mode = encodeHost")
  case True
  with assms consider "8 \<le> hi" | "hi = 2" "lo = 5" by (fastforce simp: badEscape_def)
  then show ?thesis
  proof cases
    case 1
    with assms(3,4) have "(of_char (char_of (16 * hi + lo) :: char) :: nat) \<ge> 128" by (simp add: take_bit_eq_mod)
    then show ?thesis by (simp add: ascii_def)
  qed (simp add: char_of_eq_iff)
next
  case False
  with assms have "hi = 2 \<and> lo = 5 \<or> char_of (16 * hi + lo) = CHR '' '' \<or> hostByte (char_of (16 * hi + lo))"
    by (auto simp: badEscape_def)
  then show ?thesis by (auto simp: char_of_eq_iff)
qed

lemma unescape_hostText:
  "unescape mode s = Inr r \<Longrightarrow> mode \<in> {encodeHost, encodeZone} \<Longrightarrow> hostText r"
proof (induction mode s arbitrary: r rule: unescape.induct)
  case (2 mode c cs)
  show ?case
  proof (cases "c = CHR ''%''")
    case True
    with 2(3) obtain a b rest hi lo r' where p: "cs = a # b # rest" "hexDigit a = Some hi" "hexDigit b = Some lo"
      "\<not> badEscape mode hi lo" "unescape mode rest = Inr r'" "r = char_of (16 * hi + lo) # r'"
      by (auto split: list.splits option.splits if_splits sum.splits)
    have "hostText r'" by (rule 2(1) [OF True p(1) refl refl p(2,3,4,5) 2(4)])
    moreover have "hi < 16" "lo < 16" using p(2,3) hexDigit_bound by blast+
    ultimately show ?thesis using goodEscape_hostText [OF p(4) 2(4)] p(6) by (simp add: hostText_def)
  next
    case False
    with 2(3,4) obtain r' where "unescape mode cs = Inr r'" "r = c # r'" "ascii c \<longrightarrow> hostByte c"
      by (auto split: if_splits sum.splits)
    with 2(2) [OF False] 2(3,4) show ?thesis using False by (auto simp: hostText_def split: if_splits)
  qed
qed simp

lemma unescapeHost: "unescape encodeHost s = Inr r \<Longrightarrow> hostText r"
  by (erule unescape_hostText) simp

lemma unescapeZone: "unescape encodeZone s = Inr r \<Longrightarrow> hostText r"
  by (erule unescape_hostText) simp

lemma unescapeIPLiteral_hostText:
  assumes "unescapeIPLiteral s = Inr h"
  shows "hostText h"
proof -
  obtain a z where p: "SplitAt s ''%25'' = (a, z)" by (metis surj_pair)
  show ?thesis
  proof (cases z)
    case Nil
    with assms p show ?thesis by (auto simp: unescapeIPLiteral_def intro: unescapeHost)
  next
    case (Cons x xs)
    with assms p show ?thesis
      by (auto simp: unescapeIPLiteral_def simp del: unescape.simps split: sum.split_asm intro: unescapeHost unescapeZone)
  qed
qed

lemma parseIPLiteral_hostText:
  assumes "parseIPLiteral host = Inr h"
  shows "hostText h"
proof -
  from assms obtain before port0 port name where
    "unescape encodeHost port0 = Inr port" "unescapeIPLiteral (drop 1 before) = Inr name" "h = ''['' @ name @ '']'' @ port"
    unfolding parseIPLiteral_def by (auto split: option.split_asm if_split_asm sum.split_asm)
  then show ?thesis using unescapeHost unescapeIPLiteral_hostText by (simp del: append_Cons)
qed

lemma parseHost_hostText:
  assumes "parseHost scheme host = Inr h"
  shows "hostText h"
proof (cases "CutLast host CHR ''[''")
  case None
  with assms have "unescape encodeHost host = Inr h"
    by (auto simp: parseHost_def split: option.split_asm if_split_asm prod.split_asm)
  then show ?thesis by (rule unescapeHost)
next
  case (Some p)
  with assms have "parseIPLiteral host = Inr h"
    by (cases p; cases "fst p") (auto simp: parseHost_def)
  then show ?thesis by (rule parseIPLiteral_hostText)
qed

lemma parseAuthority_hostText: "parseAuthority scheme a = Inr (user, h) \<Longrightarrow> hostText h"
  by (auto simp: parseAuthority_def dest: parseHost_hostText split: option.splits sum.splits)

lemma parsePath_host: "parsePath rest u = Inr v \<Longrightarrow> url_Host v = url_Host u"
  by (auto simp: parsePath_def split: sum.splits)

lemma parseHierarchy_hostText: "parseHierarchy scheme rest u = Inr v \<Longrightarrow> url_Host u = [] \<Longrightarrow> hostText (url_Host v)"
  by (auto simp: parseHierarchy_def dest!: parsePath_host dest: parseAuthority_hostText
      split: if_splits option.splits sum.splits prod.splits)

lemma url_Parse_hostText:
  assumes "url_Parse raw = Inr u"
  shows "hostText (url_Host u)"
proof -
  have p: "hostText (url_Host v)" if "parseURL s = Inr v" for s v
    using that by (auto simp: parseURL_def Let_def dest: parseHierarchy_hostText split: if_splits sum.splits prod.splits)
  from assms obtain s v where "parseURL s = Inr v" "url_Host u = url_Host v"
    by (auto simp: url_Parse_def split: option.splits sum.splits if_splits)
  with p show ?thesis by simp
qed

text \<open>A host of letters, digits, hyphens and dots is taken as it is.\<close>

definition plainHost :: "string \<Rightarrow> bool" where
  "plainHost host \<longleftrightarrow> host \<noteq> [] \<and> list_all (\<lambda>c. isAlnum c \<or> c = CHR ''-'' \<or> c = CHR ''.'') host"

lemma plainHost_bytes:
  assumes "plainHost host" "c \<in> set host"
  shows "c \<notin> set ''#?/@[:%''" "hostByte c" "32 \<le> (of_char c :: nat)" "(of_char c :: nat) \<noteq> 127"
proof -
  from assms have c: "isAlnum c \<or> c = CHR ''-'' \<or> c = CHR ''.''" by (auto simp: plainHost_def list_all_iff)
  then show "hostByte c" by (auto simp: hostByte_def hostPunctuation_def)
  from c have "48 \<le> (of_char c :: nat) \<and> (of_char c :: nat) \<le> 57 \<or> 65 \<le> (of_char c :: nat) \<and> (of_char c :: nat) \<le> 90 \<or>
      97 \<le> (of_char c :: nat) \<and> (of_char c :: nat) \<le> 122 \<or> c = CHR ''-'' \<or> c = CHR ''.''"
    unfolding isAlnum_def isLetter_def Let_def digit_range by blast
  then show "c \<notin> set ''#?/@[:%''" "32 \<le> (of_char c :: nat)" "(of_char c :: nat) \<noteq> 127" by auto
qed

lemma unescape_plain: "\<forall>c \<in> set s. c \<noteq> CHR ''%'' \<and> hostByte c \<Longrightarrow> unescape mode s = Inr s"
  by (induction s) auto

lemma url_Parse_https:
  assumes "plainHost host"
  shows "url_Parse (''https://'' @ host) = Inr \<lparr>url_Scheme = ''https'', url_Host = host, url_HasUser = False,
    url_Path = [], url_RawQuery = [], url_Fragment = []\<rparr>"
proof -
  note B = plainHost_bytes [OF assms]
  have n: "CHR ''#'' \<notin> set host" "CHR ''?'' \<notin> set host" "CHR ''/'' \<notin> set host" "CHR ''@'' \<notin> set host"
    "CHR ''['' \<notin> set host" "CHR '':'' \<notin> set host" using B(1) by auto
  have "unescape encodeHost host = Inr host" by (rule unescape_plain) (use B in auto)
  with n have a: "parseAuthority ''https'' host = Inr (False, host)"
    by (simp add: parseAuthority_def parseHost_def)
  have c: "\<not> hasControl (''https://'' @ host)" using B(3,4) by (force simp: hasControl_def list_ex_iff)
  have g: "getScheme [] (''https://'' @ host) = Inr (''https'', ''//'' @ host)"
    by (simp add: isLetter_def)
  have l: "ToLower ''https'' = ''https''" by (subst ToLower_ascii) (simp_all add: ascii_def asciiLower_def)
  have "HasPrefix (''//'' @ host) ''/''" "HasPrefix (''//'' @ host) ''//''" "drop 2 (''//'' @ host) = host"
    by (simp_all add: HasPrefix_def)
  then have "parseURL (''https://'' @ host) = Inr \<lparr>url_Scheme = ''https'', url_Host = host, url_HasUser = False,
    url_Path = [], url_RawQuery = [], url_Fragment = []\<rparr>"
    using c n unfolding parseURL_def g Let_def sum.case prod.case l
    by (simp add: cutQuery_def parseHierarchy_def a parsePath_def)
  with n show ?thesis by (simp add: url_Parse_def)
qed

end
