(* ===== verification/GoDuration.thy ===== *)
theory GoDuration
  imports GoText Complex_Main "HOL-Library.Log_Nat"
begin

text \<open>
  \<open>float64\<close> arithmetic as rounding of exact rationals to 53 significant bits, half to even,
  and \<open>time.ParseDuration\<close> of the standard library, with its \<open>uint64\<close> arithmetic.
\<close>

section \<open>Floating point\<close>

definition scale2 :: "int \<Rightarrow> rat \<Rightarrow> rat" where
  "scale2 k x = (if 0 \<le> k then x * 2 ^ nat k else x / 2 ^ nat (- k))"

definition roundEven :: "rat \<Rightarrow> int" where
  "roundEven x =
     (let f = \<lfloor>x\<rfloor>; d = x - of_int f
      in if d < 1 / 2 then f else if d > 1 / 2 then f + 1 else if even f then f else f + 1)"

definition binExponent :: "rat \<Rightarrow> int" where
  "binExponent x =
     (case quotient_of x of (p, q) \<Rightarrow>
        (let e = bitlen p - bitlen q in if scale2 (- e) x < 1 then e - 1 else e))"

text \<open>The \<open>float64\<close> nearest to a rational, and the conversion back to an integer; the
  exponents that occur are far from overflow and underflow.\<close>

definition float64 :: "rat \<Rightarrow> rat" where
  "float64 x =
     (let a = \<bar>x\<bar>; e = binExponent a; y = scale2 (e - 52) (of_int (roundEven (scale2 (52 - e) a)))
      in if x = 0 then 0 else if x < 0 then - y else y)"

definition float_to_int :: "rat \<Rightarrow> int" where
  "float_to_int x = (if x < 0 then - \<lfloor>- x\<rfloor> else \<lfloor>x\<rfloor>)"

section \<open>Durations\<close>

definition uint64 :: "int \<Rightarrow> int" where
  "uint64 x = x mod 2 ^ 64"

text \<open>\<open>leadingInt\<close> fails on overflow; \<open>leadingFraction\<close> drops the digits it has no room for.\<close>

fun leadingInt :: "int \<Rightarrow> string \<Rightarrow> (int \<times> string) option" where
  "leadingInt x [] = Some (x, [])"
| "leadingInt x (c # cs) =
     (case digit c of
        None \<Rightarrow> Some (x, c # cs)
      | Some d \<Rightarrow>
          if x > 2 ^ 63 div 10 then None
          else (let x = uint64 (x * 10 + d) in if x > 2 ^ 63 then None else leadingInt x cs))"

fun leadingFraction :: "int \<Rightarrow> rat \<Rightarrow> bool \<Rightarrow> string \<Rightarrow> int \<times> rat \<times> string" where
  "leadingFraction x scale overflow [] = (x, scale, [])"
| "leadingFraction x scale overflow (c # cs) =
     (case digit c of
        None \<Rightarrow> (x, scale, c # cs)
      | Some d \<Rightarrow>
          if overflow then leadingFraction x scale True cs
          else if x > (2 ^ 63 - 1) div 10 then leadingFraction x scale True cs
          else (let y = uint64 (x * 10 + d)
                in if y > 2 ^ 63 then leadingFraction x scale True cs
                   else leadingFraction y (float64 (scale * 10)) False cs))"

definition unitMap :: "(string \<times> int) list" where
  "unitMap = [(''ns'', Nanosecond), (''us'', 1000), (byte 0xC2 # byte 0xB5 # ''s'', 1000), (byte 0xCE # byte 0xBC # ''s'', 1000),
     (''ms'', 1000000), (''s'', Second), (''m'', Minute), (''h'', Hour)]"

definition isUnitByte :: "char \<Rightarrow> bool" where
  "isUnitByte c \<longleftrightarrow> c \<noteq> CHR ''.'' \<and> digit c = None"

text \<open>One number with its unit, and the rest of the text.\<close>

definition scaled :: "int \<Rightarrow> int \<Rightarrow> rat \<Rightarrow> int \<Rightarrow> int result" where
  "scaled v f scale unit =
     (if v > 2 ^ 63 div unit then Inl (Msg ''time: invalid duration '')
      else
        (let v = uint64 (v * unit)
         in if f > 0 then
              (let v = uint64 (v + float_to_int (float64 (float64 (of_int f) * float64 (float64 (of_int unit) / scale))))
               in if v > 2 ^ 63 then Inl (Msg ''time: invalid duration '') else Inr v)
            else Inr v))"

definition durationFraction :: "string \<Rightarrow> int \<times> rat \<times> string \<times> bool" where
  "durationFraction s =
     (if HasPrefix s ''.'' then
        (case leadingFraction 0 1 False (drop 1 s) of
           (f, scale, r) \<Rightarrow> (f, scale, r, length r \<noteq> length (drop 1 s)))
      else (0, 1, s, False))"

definition durationPart :: "string \<Rightarrow> (int \<times> string) result" where
  "durationPart s =
     (if s = [] \<or> hd s \<noteq> CHR ''.'' \<and> digit (hd s) = None then Inl (Msg ''time: invalid duration '')
      else case leadingInt 0 s of
        None \<Rightarrow> Inl (Msg ''time: invalid duration '')
      | Some (v, r) \<Rightarrow> (case durationFraction r of
          (f, scale, r2, post) \<Rightarrow>
            if length r = length s \<and> \<not> post then Inl (Msg ''time: invalid duration '')
            else if takeWhile isUnitByte r2 = [] then Inl (Msg ''time: missing unit in duration '')
            else case map_of unitMap (takeWhile isUnitByte r2) of
              None \<Rightarrow> Inl (Msg ''time: unknown unit '')
            | Some unit \<Rightarrow> (case scaled v f scale unit of
                Inl e \<Rightarrow> Inl e | Inr v \<Rightarrow> Inr (v, dropWhile isUnitByte r2))))"

lemma leadingInt_length: "leadingInt x s = Some (v, r) \<Longrightarrow> length r \<le> length s"
proof (induction s arbitrary: x)
  case (Cons c cs)
  show ?case
  proof (cases "digit c")
    case (Some d)
    with Cons.prems show ?thesis by (auto simp: Let_def split: if_split_asm dest!: Cons.IH)
  qed (use Cons.prems in simp)
qed simp

lemma leadingFraction_length: "leadingFraction x sc ov s = (f, sc', r) \<Longrightarrow> length r \<le> length s"
proof (induction s arbitrary: x sc ov)
  case (Cons c cs)
  show ?case
  proof (cases "digit c")
    case (Some d)
    with Cons.prems show ?thesis by (auto simp: Let_def split: if_split_asm dest!: Cons.IH)
  qed (use Cons.prems in simp)
qed simp

lemma durationFraction_length: "durationFraction s = (f, sc, r, post) \<Longrightarrow> length r \<le> length s"
  by (auto simp: durationFraction_def split: if_splits prod.splits dest!: leadingFraction_length)

lemma takeWhile_shorter: "takeWhile P s \<noteq> [] \<Longrightarrow> length (dropWhile P s) < length s"
  using arg_cong [OF takeWhile_dropWhile_id [of P s], of length] by (cases "takeWhile P s") simp_all

lemma durationPart_shorter:
  assumes "durationPart s = Inr (v, rest)"
  shows "length rest < length s"
proof -
  obtain w r where 1: "leadingInt 0 s = Some (w, r)"
    using assms unfolding durationPart_def by (cases "leadingInt 0 s") (auto split: if_split_asm)
  obtain f sc r2 post where 2: "durationFraction r = (f, sc, r2, post)" by (metis surj_pair)
  have "takeWhile isUnitByte r2 \<noteq> [] \<and> rest = dropWhile isUnitByte r2"
    using assms unfolding durationPart_def 1 2 option.case prod.case
    by (auto split: if_split_asm option.split_asm sum.split_asm)
  moreover have "length r2 \<le> length s"
    using durationFraction_length [OF 2] leadingInt_length [OF 1] by simp
  ultimately show ?thesis using takeWhile_shorter [of isUnitByte r2] by simp
qed

text \<open>The sum can wrap around when both summands are \<open>2 ^ 63\<close>.\<close>

function durationSum :: "int \<Rightarrow> string \<Rightarrow> int result" where
  "durationSum d s =
     (if s = [] then Inr d
      else case durationPart s of
        Inl e \<Rightarrow> Inl e
      | Inr (v, rest) \<Rightarrow>
          (let d = uint64 (d + v) in if d > 2 ^ 63 then Inl (Msg ''time: invalid duration '') else durationSum d rest))"
  by pat_completeness auto

termination by (relation "measure (\<lambda>(d, s). length s)") (auto dest: durationPart_shorter)

declare durationSum.simps [simp del]

definition ParseDuration :: "string \<Rightarrow> duration result" where
  "ParseDuration s0 =
     (let signed = (s0 \<noteq> [] \<and> (hd s0 = CHR ''-'' \<or> hd s0 = CHR ''+''));
          neg = (signed \<and> hd s0 = CHR ''-''); s = (if signed then tl s0 else s0)
      in if s = ''0'' then Inr 0
         else if s = [] then Inl (Msg ''time: invalid duration '')
         else case durationSum 0 s of
           Inl e \<Rightarrow> Inl e
         | Inr d \<Rightarrow>
             if neg then Inr (int64 (- int64 d))
             else if d > 2 ^ 63 - 1 then Inl (Msg ''time: invalid duration '')
             else Inr (int64 d))"

section \<open>Whole numbers of a unit\<close>

lemma digitsVal_mono: "0 \<le> acc \<Longrightarrow> digitsVal acc s = Some v \<Longrightarrow> acc \<le> v"
proof (induction s arbitrary: acc)
  case (Cons c cs)
  then obtain d where d: "digit c = Some d" "digitsVal (acc * 10 + d) cs = Some v" by (auto split: option.splits)
  then have "0 \<le> d" by (auto simp: digit_def Let_def split: if_splits)
  then show ?case using Cons.IH [OF _ d(2)] Cons.prems(1) by simp
qed simp

lemma leadingInt_digits:
  "digitsVal acc ds = Some v \<Longrightarrow> 0 \<le> acc \<Longrightarrow> v \<le> maxInt64 \<Longrightarrow> r = [] \<or> digit (hd r) = None \<Longrightarrow>
   leadingInt acc (ds @ r) = Some (v, r)"
proof (induction ds arbitrary: acc)
  case Nil
  then show ?case by (cases r) simp_all
next
  case (Cons c cs)
  then obtain d where d: "digit c = Some d" "digitsVal (acc * 10 + d) cs = Some v" by (auto split: option.splits)
  then have "0 \<le> d" by (auto simp: digit_def Let_def split: if_splits)
  with digitsVal_mono [OF _ d(2)] Cons.prems have b: "acc * 10 + d \<le> v" "0 \<le> acc * 10 + d" by simp_all
  then have "uint64 (acc * 10 + d) = acc * 10 + d" using Cons.prems(3) by (simp add: uint64_def maxInt64_def)
  moreover have "leadingInt (acc * 10 + d) (cs @ r) = Some (v, r)"
    using Cons.IH [OF d(2) b(2)] Cons.prems by simp
  moreover have "\<not> acc > 2 ^ 63 div 10" "\<not> acc * 10 + d > 2 ^ 63" using b Cons.prems(3) \<open>0 \<le> d\<close> by (simp_all add: maxInt64_def)
  ultimately show ?case using d(1) by simp
qed

lemma units:
  assumes "(u, unit) \<in> set unitMap"
  shows "u \<noteq> []" "\<forall>c \<in> set u. isUnitByte c" "0 < unit" "map_of unitMap u = Some unit"
  using assms by (auto simp: unitMap_def isUnitByte_def digit_def of_char_byte eq_byte duration_values)

lemma ParseDuration_number:
  assumes "(u, unit) \<in> set unitMap" "int n * unit \<le> maxInt64"
  shows "ParseDuration (Itoa n @ u) = Inr (int n * unit)"
proof -
  note U = units [OF assms(1)]
  let ?s = "Itoa n @ u"
  obtain c cs where c: "Itoa n = c # cs" "digit c \<noteq> None" using Itoa_chars [of _ n] by (cases "Itoa n") auto
  have u: "digit (hd u) = None" "hd u \<noteq> CHR ''.''" using U(1,2) by (auto simp: isUnitByte_def)
  have "int n * 1 \<le> int n * unit" using U(3) by (intro mult_left_mono) simp_all
  then have n: "int n \<le> maxInt64" using assms(2) by simp
  have li: "leadingInt 0 ?s = Some (int n, u)"
    by (rule leadingInt_digits [OF Itoa_digits(1)]) (use n u in simp_all)
  have "int n \<le> maxInt64 div unit" using zdiv_mono1 [OF assms(2) U(3)] U(3) by simp
  also have "\<dots> \<le> 2 ^ 63 div unit" using U(3) by (intro zdiv_mono1) (simp_all add: maxInt64_def)
  finally have sc: "scaled (int n) 0 1 unit = Inr (int n * unit)"
    using assms(2) U(3) by (simp add: scaled_def uint64_def maxInt64_def)
  have tw: "takeWhile isUnitByte u = u" "dropWhile isUnitByte u = []" using U(2) by simp_all
  have "\<not> HasPrefix u ''.''" using u(2) U(1) by (cases u) (simp_all add: HasPrefix_def)
  then have "durationPart ?s = Inr (int n * unit, [])"
    using c li sc U(1) by (simp add: durationPart_def durationFraction_def U(4) tw del: leadingInt.simps)
  then have "durationSum 0 ?s = Inr (int n * unit)"
    using assms(2) U(3) c by (subst durationSum.simps) (simp add: durationSum.simps uint64_def maxInt64_def)
  moreover have i64: "int64 (int n * unit) = int n * unit"
    using assms(2) U(3) by (intro int64_id) (simp_all add: minInt64_def order_trans [of _ 0])
  moreover have "c \<noteq> CHR ''-''" "c \<noteq> CHR ''+''" using c(2) digit_facts(4) [of c] by auto
  moreover have "?s \<noteq> ''0''" using c(1) U(1) by (cases u) auto
  ultimately show ?thesis
    using c i64 U(1) assms(2) by (simp add: ParseDuration_def Let_def maxInt64_def)
qed

end
