(* ===== verification/Config.thy ===== *)
theory Config
  imports GoURL GoDuration
begin

text \<open>
  \<open>config.go\<close>: the configuration read from environment variables. \<open>url.Parse\<close>,
  \<open>time.ParseDuration\<close>, \<open>netip.ParseAddr\<close> and \<open>netip.ParsePrefix\<close> are those of the theories
  \<open>GoURL\<close>, \<open>GoDuration\<close> and \<open>AddrText\<close>.
\<close>

section \<open>Constants\<close>

definition envCleanupInterval :: string where "envCleanupInterval = ''NOTE_CLEANUP_INTERVAL''"
definition envDBPath :: string where "envDBPath = ''NOTE_DB_PATH''"
definition envDisplayName :: string where "envDisplayName = ''NOTE_DISPLAY_NAME''"
definition envEnvironment :: string where "envEnvironment = ''NOTE_ENVIRONMENT''"
definition envFooterText :: string where "envFooterText = ''NOTE_FOOTER_TEXT''"
definition envGracePeriod :: string where "envGracePeriod = ''NOTE_GRACE_PERIOD''"
definition envHealthCheckSources :: string where "envHealthCheckSources = ''NOTE_HEALTH_CHECK_SOURCES''"
definition envHideGitHubLink :: string where "envHideGitHubLink = ''NOTE_HIDE_GITHUB_LINK''"
definition envHost :: string where "envHost = ''NOTE_HOST''"
definition envMaxDBSize :: string where "envMaxDBSize = ''NOTE_MAX_DB_SIZE''"
definition envMaxNoteSize :: string where "envMaxNoteSize = ''NOTE_MAX_NOTE_SIZE''"
definition envPort :: string where "envPort = ''NOTE_PORT''"
definition envPublicOrigin :: string where "envPublicOrigin = ''NOTE_PUBLIC_ORIGIN''"
definition envRateLimit :: string where "envRateLimit = ''NOTE_RATE_LIMIT''"
definition envTrustedProxies :: string where "envTrustedProxies = ''NOTE_TRUSTED_PROXIES''"

definition environmentDevelopment :: string where "environmentDevelopment = ''development''"
definition environmentProduction :: string where "environmentProduction = ''production''"
definition defaultDisplayName :: string where "defaultDisplayName = ''One Time Note''"
definition defaultGitHubURL :: string where "defaultGitHubURL = ''https://github.com/stkom/one-time-note''"
definition defaultMaxDBSize :: int where "defaultMaxDBSize = 1 * 1024 * 1024 * 1024"
definition defaultMaxNoteSize :: int where "defaultMaxNoteSize = 1 * 1024"
definition hardMaxDBSize :: int where "hardMaxDBSize = 10 * 1024 * 1024 * 1024"
definition hardMaxNoteSize :: int where "hardMaxNoteSize = 10 * 1024 * 1024"
definition maxConfiguredLinks :: nat where "maxConfiguredLinks = 5"

lemmas config_constants = defaultMaxDBSize_def defaultMaxNoteSize_def hardMaxDBSize_def hardMaxNoteSize_def
  maxConfiguredLinks_def

section \<open>Data\<close>

record StartupOptions =
  so_Development :: bool

record LegalLink =
  ll_Label :: string
  ll_URL :: string

record Brand =
  br_DisplayName :: string
  br_FooterText :: string
  br_GitHubURL :: string
  br_LegalLinks :: "LegalLink list"

record RateSpec =
  rs_Requests :: int
  rs_Window :: duration
  rs_Burst :: int

record Config =
  cfg_Brand :: Brand
  cfg_CleanupInterval :: duration
  cfg_DBPath :: string
  cfg_Environment :: string
  cfg_GracePeriod :: duration
  cfg_HealthCheckSources :: "Prefix list"
  cfg_Host :: string
  cfg_IsDevelopment :: bool
  cfg_MaxNoteSize :: int
  cfg_MaxDBSize :: int
  cfg_Port :: string
  cfg_PublicOrigin :: string
  cfg_PublicOriginHost :: string
  cfg_RateLimit :: RateSpec
  cfg_TrustedProxies :: "Prefix list"

section \<open>Booleans, durations and sizes\<close>

definition ParseBool :: "string \<Rightarrow> bool result" where
  "ParseBool s =
     (if s \<in> {''1'', ''t'', ''T'', ''TRUE'', ''true'', ''True''} then Inr True
      else if s \<in> {''0'', ''f'', ''F'', ''FALSE'', ''false'', ''False''} then Inr False
      else Inl (Msg ''invalid syntax''))"

definition parseOptionalBool :: "string \<Rightarrow> bool \<Rightarrow> bool result" where
  "parseOptionalBool raw defaultValue =
     (let raw = TrimSpace raw in if raw = [] then Inr defaultValue else ParseBool raw)"

definition parseOptionalDuration ::
  "(string \<Rightarrow> string) \<Rightarrow> string \<Rightarrow> duration \<Rightarrow> duration \<Rightarrow> duration \<Rightarrow> duration result" where
  "parseOptionalDuration getenv name defaultValue minValue maxValue =
     (let tmp = TrimSpace (getenv name)
      in if tmp = [] then Inr defaultValue
         else case ParseDuration tmp of
           Inl e \<Rightarrow> Inl (Wrap ''error parsing %s: %w'' e)
         | Inr duration \<Rightarrow>
             if duration < minValue \<or> duration > maxValue then Inl (Msg ''%s must be between %s and %s'')
             else Inr duration)"

definition sizeSuffixes :: "(string \<times> int) list" where
  "sizeSuffixes = [(''gib'', 1024 * 1024 * 1024), (''gb'', 1000 * 1000 * 1000), (''mib'', 1024 * 1024),
     (''mb'', 1000 * 1000), (''kib'', 1024), (''kb'', 1000), (''b'', 1)]"

definition parseByteSize :: "string \<Rightarrow> int result" where
  "parseByteSize value =
     (let value = TrimSpace value
      in if value = [] then Inl (Msg ''value is empty'')
         else
           (let (multiplier, value) =
                  (case find (\<lambda>(text, m). HasSuffix (ToLower value) text) sizeSuffixes of
                     None \<Rightarrow> (1, value)
                   | Some (text, m) \<Rightarrow> (m, TrimSpace (take (length value - length text) value)))
            in if value = [] then Inl (Msg ''missing numeric value'')
               else case ParseInt value of
                 Inl e \<Rightarrow> Inl e
               | Inr amount \<Rightarrow>
                   if amount < 0 then Inl (Msg ''value must be positive'')
                   else if amount > maxInt64 div multiplier then Inl (Msg ''value is too large'')
                   else Inr (int64 (amount * multiplier))))"

definition parseOptionalByteSize ::
  "(string \<Rightarrow> string) \<Rightarrow> string \<Rightarrow> int \<Rightarrow> int \<Rightarrow> int \<Rightarrow> int result" where
  "parseOptionalByteSize getenv name defaultValue minValue maxValue =
     (let tmp = TrimSpace (getenv name)
      in if tmp = [] then Inr defaultValue
         else case parseByteSize tmp of
           Inl e \<Rightarrow> Inl (Wrap ''error parsing %s: %w'' e)
         | Inr value \<Rightarrow>
             if value < minValue \<or> value > maxValue then Inl (Msg ''%s must be between %d and %d bytes'')
             else Inr value)"

text \<open>The conversions between \<open>int\<close> and \<open>int64\<close> change nothing on a 64-bit platform.\<close>

definition parseOptionalByteSizeInt ::
  "(string \<Rightarrow> string) \<Rightarrow> string \<Rightarrow> int \<Rightarrow> int \<Rightarrow> int \<Rightarrow> int result" where
  "parseOptionalByteSizeInt getenv name defaultValue minValue maxValue =
     (case parseOptionalByteSize getenv name (int64 defaultValue) (int64 minValue) (int64 maxValue) of
        Inl e \<Rightarrow> Inl e | Inr value \<Rightarrow> Inr (int64 value))"

section \<open>Links and origins\<close>

definition linkTitleEnvName :: "nat \<Rightarrow> string" where
  "linkTitleEnvName index = ''NOTE_LINK_'' @ Itoa index @ ''_TITLE''"

definition linkURLEnvName :: "nat \<Rightarrow> string" where
  "linkURLEnvName index = ''NOTE_LINK_'' @ Itoa index @ ''_URL''"

definition parseLegalLinkURL :: "string \<Rightarrow> string result" where
  "parseLegalLinkURL raw =
     (if ContainsAny raw [CHR '' '', byte 9, byte 13, byte 10] then Inl (Msg ''%s must not contain whitespace'')
      else case url_Parse raw of
        Inl e \<Rightarrow> Inl (Wrap ''error parsing %s: %w'' e)
      | Inr parsed \<Rightarrow>
          if url_Scheme parsed \<noteq> [] then
            (let scheme = ToLower (url_Scheme parsed)
             in if (scheme = ''http'' \<or> scheme = ''https'') \<and> url_Host parsed \<noteq> [] then Inr raw
                else Inl (Msg ''%s must be an http URL, https URL, or root-relative path''))
          else if HasPrefix raw ''/'' \<and> \<not> HasPrefix raw ''//'' then Inr raw
          else Inl (Msg ''%s must be an http URL, https URL, or root-relative path''))"

text \<open>The loop over the numbered links: \<open>n\<close> is the number of indices left.\<close>

fun linksFrom :: "(string \<Rightarrow> string) \<Rightarrow> nat \<Rightarrow> nat \<Rightarrow> LegalLink list \<Rightarrow> LegalLink list result" where
  "linksFrom getenv index 0 links =
     (if TrimSpace (getenv (linkTitleEnvName (maxConfiguredLinks + 1))) \<noteq> [] \<or>
         TrimSpace (getenv (linkURLEnvName (maxConfiguredLinks + 1))) \<noteq> []
      then Inl (Msg ''configured links exceed maximum of %d'') else Inr links)"
| "linksFrom getenv index (Suc n) links =
     (let title = TrimSpace (getenv (linkTitleEnvName index));
          rawURL = TrimSpace (getenv (linkURLEnvName index))
      in if title = [] \<and> rawURL = [] then Inr links
         else if title = [] then Inl (Msg ''%s is required when %s is set'')
         else if rawURL = [] then Inl (Msg ''%s is required when %s is set'')
         else case parseLegalLinkURL rawURL of
           Inl e \<Rightarrow> Inl e
         | Inr linkURL \<Rightarrow> linksFrom getenv (Suc index) n (links @ [\<lparr>ll_Label = title, ll_URL = linkURL\<rparr>]))"

definition parseLegalLinks :: "(string \<Rightarrow> string) \<Rightarrow> LegalLink list result" where
  "parseLegalLinks getenv = linksFrom getenv 1 maxConfiguredLinks []"

definition parsePublicOrigin :: "string \<Rightarrow> bool \<Rightarrow> (string \<times> string) result" where
  "parsePublicOrigin raw isDevelopment =
     (case url_Parse raw of
        Inl e \<Rightarrow> Inl (Wrap ''error parsing %s: %w'' e)
      | Inr parsed \<Rightarrow>
          if url_Scheme parsed = [] \<or> url_Host parsed = [] \<or> url_HasUser parsed \<or>
             url_RawQuery parsed \<noteq> [] \<or> url_Fragment parsed \<noteq> []
          then Inl (Msg ''%s must be an absolute origin URL'')
          else if url_Path parsed \<noteq> [] \<and> url_Path parsed \<noteq> ''/'' then Inl (Msg ''%s must not include a path'')
          else if \<not> isDevelopment \<and> url_Scheme parsed \<noteq> ''https'' then Inl (Msg ''%s must use https in production'')
          else Inr (url_Scheme parsed @ ''://'' @ url_Host parsed, url_Host parsed))"


section \<open>Prefixes\<close>

definition defaultTrustedProxyPrefixes :: "Prefix list" where
  "defaultTrustedProxyPrefixes =
     [\<lparr>pf_Addr = V4 0x7F000000, pf_Bits = 8\<rparr>,
      \<lparr>pf_Addr = V6 1 [], pf_Bits = 128\<rparr>,
      \<lparr>pf_Addr = V4 0x0A000000, pf_Bits = 8\<rparr>,
      \<lparr>pf_Addr = V4 0xAC100000, pf_Bits = 12\<rparr>,
      \<lparr>pf_Addr = V4 0xC0A80000, pf_Bits = 16\<rparr>,
      \<lparr>pf_Addr = V4 0xA9FE0000, pf_Bits = 16\<rparr>,
      \<lparr>pf_Addr = V6 (push_bit 112 0xFE80) [], pf_Bits = 10\<rparr>,
      \<lparr>pf_Addr = V6 (push_bit 112 0xFC00) [], pf_Bits = 7\<rparr>]"

definition loopbackPrefixes :: "Prefix list" where
  "loopbackPrefixes = [\<lparr>pf_Addr = V4 0x7F000000, pf_Bits = 8\<rparr>, \<lparr>pf_Addr = V6 1 [], pf_Bits = 128\<rparr>]"

fun parsePrefixParts :: "string list \<Rightarrow> Prefix list \<Rightarrow> Prefix list result" where
  "parsePrefixParts [] prefixes = Inr prefixes"
| "parsePrefixParts (part # parts) prefixes =
     (let part = TrimSpace part
      in if part = [] then parsePrefixParts parts prefixes
         else if CHR ''/'' \<in> set part then
           (case ParsePrefix part of
              Inl e \<Rightarrow> Inl e
            | Inr prefix \<Rightarrow> parsePrefixParts parts (prefixes @ [Masked prefix]))
         else
           (case ParseAddr part of
              Inl e \<Rightarrow> Inl e
            | Inr addr \<Rightarrow> parsePrefixParts parts (prefixes @ [PrefixFrom addr (BitLen addr)])))"

definition parseOptionalPrefixes :: "string \<Rightarrow> Prefix list result" where
  "parseOptionalPrefixes raw =
     (let raw = TrimSpace raw
      in if raw = [] then Inr [] else parsePrefixParts (Split raw CHR '','') [])"

section \<open>The rate limit\<close>

definition validateRateSpec :: "RateSpec \<Rightarrow> unit result" where
  "validateRateSpec spec =
     (if rs_Requests spec \<le> 0 \<or> rs_Burst spec \<le> 0 \<or> rs_Window spec \<le> 0
      then Inl (Msg ''rate and burst must be positive'')
      else
        (let perMinute = float64 (float64 (float64 (of_int (rs_Requests spec)) * float64 (of_int Minute)) /
               float64 (of_int (rs_Window spec)))
         in if perMinute < 1 \<or> perMinute > 1000 then Inl (Msg ''rate limit must be between 1/minute and 1000/minute'')
            else if rs_Burst spec < 1 \<or> rs_Burst spec > 5000 then Inl (Msg ''burst must be between 1 and 5000'')
            else Inr ()))"

definition parseRateWindow :: "string \<Rightarrow> duration result" where
  "parseRateWindow value =
     (case ParseDuration value of
        Inl e \<Rightarrow> Inl e
      | Inr duration \<Rightarrow> if duration \<le> 0 then Inl (Msg ''window must be positive'') else Inr duration)"

definition parseOptionalRate :: "string \<Rightarrow> RateSpec \<Rightarrow> RateSpec result" where
  "parseOptionalRate raw defaultValue =
     (let raw = TrimSpace raw
      in if raw = [] then Inr defaultValue
         else case Split raw CHR '','' of
           [p0, p1] \<Rightarrow>
             (let ratePart = TrimSpace p0; burstPart = TrimSpace p1
              in case Split ratePart CHR ''/'' of
                   [r0, r1] \<Rightarrow>
                     (case ParseInt (TrimSpace r0) of
                        Inl e \<Rightarrow> Inl e
                      | Inr requests \<Rightarrow> (case parseRateWindow (TrimSpace r1) of
                          Inl e \<Rightarrow> Inl e
                        | Inr window \<Rightarrow> (case ParseInt burstPart of
                            Inl e \<Rightarrow> Inl e
                          | Inr burst \<Rightarrow>
                              (let spec = \<lparr>rs_Requests = requests, rs_Window = window, rs_Burst = burst\<rparr>
                               in case validateRateSpec spec of Inl e \<Rightarrow> Inl e | Inr _ \<Rightarrow> Inr spec))))
                 | _ \<Rightarrow> Inl (Msg ''expected rate format requests/window''))
         | _ \<Rightarrow> Inl (Msg ''expected rate format requests/window,burst''))"

section \<open>The configuration\<close>

definition chooseEnvironment :: "(string \<Rightarrow> string) \<Rightarrow> StartupOptions \<Rightarrow> string result" where
  "chooseEnvironment getenv options =
     (let env0 = ToLower (TrimSpace (getenv envEnvironment));
          env = (if env0 \<noteq> [] then env0
                 else if so_Development options then environmentDevelopment else environmentProduction)
      in if env \<noteq> environmentProduction \<and> env \<noteq> environmentDevelopment then Inl (Msg ''%s must be %q or %q'')
         else if so_Development options \<and> env = environmentProduction
         then Inl (Msg ''--dev cannot be used with %s=production'')
         else if \<not> so_Development options \<and> env = environmentDevelopment
         then Inl (Msg ''%s=development requires --dev'')
         else Inr env)"

definition defaultConfig :: "string \<Rightarrow> Config" where
  "defaultConfig env =
     \<lparr>cfg_Brand = \<lparr>br_DisplayName = defaultDisplayName, br_FooterText = [], br_GitHubURL = defaultGitHubURL, br_LegalLinks = []\<rparr>,
      cfg_CleanupInterval = 1 * Hour, cfg_DBPath = ''data.db'', cfg_Environment = env,
      cfg_GracePeriod = 3 * Second, cfg_HealthCheckSources = [], cfg_Host = ''127.0.0.1'',
      cfg_IsDevelopment = (env = environmentDevelopment), cfg_MaxNoteSize = defaultMaxNoteSize,
      cfg_MaxDBSize = defaultMaxDBSize, cfg_Port = ''8080'', cfg_PublicOrigin = [], cfg_PublicOriginHost = [],
      cfg_RateLimit = \<lparr>rs_Requests = 60, rs_Window = Minute, rs_Burst = 120\<rparr>, cfg_TrustedProxies = []\<rparr>"

definition orDefault :: "string \<Rightarrow> string \<Rightarrow> string" where
  "orDefault tmp d = (if tmp \<noteq> [] then tmp else d)"

definition withStrings :: "(string \<Rightarrow> string) \<Rightarrow> Config \<Rightarrow> Config" where
  "withStrings getenv cfg =
     (let get = (\<lambda>name. TrimSpace (getenv name)); brand = cfg_Brand cfg
      in cfg\<lparr>cfg_Host := orDefault (get envHost) (cfg_Host cfg),
             cfg_Port := orDefault (get envPort) (cfg_Port cfg),
             cfg_DBPath := orDefault (get envDBPath) (cfg_DBPath cfg),
             cfg_Brand := brand\<lparr>br_DisplayName := orDefault (get envDisplayName) (br_DisplayName brand),
               br_FooterText := orDefault (get envFooterText) (br_FooterText brand)\<rparr>\<rparr>)"

definition withBrand :: "(string \<Rightarrow> string) \<Rightarrow> Config \<Rightarrow> Config result" where
  "withBrand getenv cfg =
     (case parseOptionalBool (getenv envHideGitHubLink) False of
        Inl e \<Rightarrow> Inl (Wrap ''error parsing %s: %w'' e)
      | Inr hideGitHubLink \<Rightarrow> (case parseLegalLinks getenv of
          Inl e \<Rightarrow> Inl e
        | Inr legalLinks \<Rightarrow>
            (let brand = cfg_Brand cfg
             in Inr (cfg\<lparr>cfg_Brand := brand\<lparr>br_GitHubURL := (if hideGitHubLink then [] else br_GitHubURL brand),
                  br_LegalLinks := legalLinks\<rparr>\<rparr>))))"

definition withLimits :: "(string \<Rightarrow> string) \<Rightarrow> Config \<Rightarrow> Config result" where
  "withLimits getenv cfg =
     (case parseOptionalDuration getenv envGracePeriod (cfg_GracePeriod cfg) 0 (60 * Second) of
        Inl e \<Rightarrow> Inl e
      | Inr gracePeriod \<Rightarrow>
     (case parseOptionalDuration getenv envCleanupInterval (cfg_CleanupInterval cfg) Minute (24 * Hour) of
        Inl e \<Rightarrow> Inl e
      | Inr cleanupInterval \<Rightarrow>
     (case parseOptionalByteSizeInt getenv envMaxNoteSize (cfg_MaxNoteSize cfg) 1 hardMaxNoteSize of
        Inl e \<Rightarrow> Inl e
      | Inr maxNoteSize \<Rightarrow>
     (case parseOptionalByteSizeInt getenv envMaxDBSize (cfg_MaxDBSize cfg) (1 * 1024 * 1024) hardMaxDBSize of
        Inl e \<Rightarrow> Inl e
      | Inr maxDBSize \<Rightarrow>
          Inr (cfg\<lparr>cfg_GracePeriod := gracePeriod, cfg_CleanupInterval := cleanupInterval,
            cfg_MaxNoteSize := maxNoteSize, cfg_MaxDBSize := maxDBSize\<rparr>)))))"

definition originOption :: "(string \<Rightarrow> string) \<Rightarrow> Config \<Rightarrow> (string \<times> string) result" where
  "originOption getenv cfg =
     (let tmp = TrimSpace (getenv envPublicOrigin)
      in if tmp \<noteq> [] then parsePublicOrigin tmp (cfg_IsDevelopment cfg)
         else Inr (cfg_PublicOrigin cfg, cfg_PublicOriginHost cfg))"

definition proxiesOption :: "(string \<Rightarrow> string) \<Rightarrow> Config \<Rightarrow> Prefix list result" where
  "proxiesOption getenv cfg =
     (let tmp = TrimSpace (getenv envTrustedProxies)
      in if tmp \<noteq> [] then wrap_err ''error parsing %s: %w'' (parseOptionalPrefixes tmp)
         else if \<not> cfg_IsDevelopment cfg then Inr defaultTrustedProxyPrefixes
         else Inr (cfg_TrustedProxies cfg))"

definition sourcesOption :: "(string \<Rightarrow> string) \<Rightarrow> Prefix list \<Rightarrow> Prefix list result" where
  "sourcesOption getenv sources =
     (let tmp = TrimSpace (getenv envHealthCheckSources)
      in if tmp \<noteq> [] then
           (case parseOptionalPrefixes tmp of
              Inl e \<Rightarrow> Inl (Wrap ''error parsing %s: %w'' e)
            | Inr configured \<Rightarrow> Inr (sources @ configured))
         else Inr sources)"

definition withNetwork :: "(string \<Rightarrow> string) \<Rightarrow> Config \<Rightarrow> Config result" where
  "withNetwork getenv cfg =
     (case originOption getenv cfg of
        Inl e \<Rightarrow> Inl e
      | Inr (publicOrigin, publicOriginHost) \<Rightarrow> (case proxiesOption getenv cfg of
          Inl e \<Rightarrow> Inl e
        | Inr trustedProxies \<Rightarrow>
            (case sourcesOption getenv
                    (loopbackPrefixes @ (if \<not> cfg_IsDevelopment cfg then trustedProxies else [])) of
               Inl e \<Rightarrow> Inl e
             | Inr sources \<Rightarrow>
                 Inr (cfg\<lparr>cfg_PublicOrigin := publicOrigin, cfg_PublicOriginHost := publicOriginHost,
                   cfg_TrustedProxies := trustedProxies, cfg_HealthCheckSources := sources\<rparr>))))"

definition NewConfigWithOptions ::
  "(string \<Rightarrow> string) option \<Rightarrow> StartupOptions \<Rightarrow> Config result" where
  "NewConfigWithOptions getenv options =
     (case getenv of
        None \<Rightarrow> Inl (Msg ''getenv function cannot be nil'')
      | Some getenv \<Rightarrow> (case chooseEnvironment getenv options of
          Inl e \<Rightarrow> Inl e
        | Inr env \<Rightarrow> (case withBrand getenv (withStrings getenv (defaultConfig env)) of
            Inl e \<Rightarrow> Inl e
          | Inr cfg1 \<Rightarrow> (case withLimits getenv cfg1 of
              Inl e \<Rightarrow> Inl e
            | Inr cfg2 \<Rightarrow> (case withNetwork getenv cfg2 of
                Inl e \<Rightarrow> Inl e
              | Inr cfg3 \<Rightarrow> (case parseOptionalRate (getenv envRateLimit) (cfg_RateLimit cfg3) of
                  Inl e \<Rightarrow> Inl (Wrap ''error parsing %s: %w'' e)
                | Inr rateLimit \<Rightarrow> Inr (cfg3\<lparr>cfg_RateLimit := rateLimit\<rparr>)))))))"

definition NewConfig :: "(string \<Rightarrow> string) option \<Rightarrow> Config result" where
  "NewConfig getenv = NewConfigWithOptions getenv \<lparr>so_Development = False\<rparr>"

end
