(* ===== verification/ConfigProps.thy ===== *)
theory ConfigProps
  imports Config
begin

text \<open>
  What a configuration that \<open>NewConfigWithOptions\<close> accepts satisfies, and the byte sizes.
\<close>

section \<open>Ranges\<close>

lemma parseOptionalDuration_range:
  assumes "parseOptionalDuration g name d lo hi = Inr v" "lo \<le> d" "d \<le> hi"
  shows "lo \<le> v" "v \<le> hi"
  using assms by (auto simp: parseOptionalDuration_def Let_def split: if_splits sum.splits)

lemma parseOptionalByteSizeInt_range:
  assumes "parseOptionalByteSizeInt g name d lo hi = Inr v" "lo \<le> d" "d \<le> hi"
    and "minInt64 \<le> lo" "hi \<le> maxInt64"
  shows "lo \<le> v" "v \<le> hi"
proof -
  have i: "int64 lo = lo" "int64 d = d" "int64 hi = hi"
    using assms(2-5) by (simp_all add: int64_id)
  with assms(1) obtain u where u: "parseOptionalByteSize g name d lo hi = Inr u" "v = int64 u"
    by (auto simp: parseOptionalByteSizeInt_def split: sum.splits)
  then have "lo \<le> u" "u \<le> hi"
    using assms(2,3) by (auto simp: parseOptionalByteSize_def Let_def split: if_splits sum.splits)
  with u(2) assms(4,5) show "lo \<le> v" "v \<le> hi" by (simp_all add: int64_id)
qed

lemma linksFrom_length:
  "linksFrom g i n links = Inr ls \<Longrightarrow> length ls \<le> length links + n"
proof (induction g i n links rule: linksFrom.induct)
  case (2 g i n links)
  then show ?case by (fastforce simp: Let_def split: if_splits sum.splits)
qed (auto split: if_splits)

lemma linksFrom_set:
  assumes "linksFrom g i n links = Inr ls" "l \<in> set ls"
  shows "l \<in> set links \<or> (ll_Label l \<noteq> [] \<and> (\<exists>raw. parseLegalLinkURL raw = Inr (ll_URL l)))"
  using assms
proof (induction g i n links rule: linksFrom.induct)
  case (2 g i n links)
  let ?t = "TrimSpace (g (linkTitleEnvName i))" and ?u = "TrimSpace (g (linkURLEnvName i))"
  show ?case
  proof (cases "?t = [] \<or> ?u = []")
    case True
    with 2(2,3) show ?thesis by (auto simp: Let_def split: if_splits)
  next
    case False
    with 2(2) obtain url where u: "parseLegalLinkURL ?u = Inr url"
      "linksFrom g (Suc i) n (links @ [\<lparr>ll_Label = ?t, ll_URL = url\<rparr>]) = Inr ls"
      by (auto simp: Let_def split: sum.splits)
    with False 2(1) [of ?t ?u url] 2(3)
    have "l \<in> set (links @ [\<lparr>ll_Label = ?t, ll_URL = url\<rparr>]) \<or>
        (ll_Label l \<noteq> [] \<and> (\<exists>raw. parseLegalLinkURL raw = Inr (ll_URL l)))" by auto
    with u(1) False show ?thesis by auto
  qed
qed (auto split: if_splits)

text \<open>The links the pages show: absolute HTTP addresses or paths of this server, without
  white space.\<close>

definition safe_link :: "string \<Rightarrow> bool" where
  "safe_link raw \<longleftrightarrow> (\<exists>u. url_Parse raw = Inr u \<and>
     (if url_Scheme u = [] then HasPrefix raw ''/'' \<and> \<not> HasPrefix raw ''//''
      else ToLower (url_Scheme u) \<in> {''http'', ''https''} \<and> url_Host u \<noteq> []))"

lemma parseLegalLinkURL_Inr: "parseLegalLinkURL raw = Inr r \<Longrightarrow> r = raw \<and> safe_link raw"
  by (auto simp: parseLegalLinkURL_def safe_link_def Let_def split: if_splits sum.splits)

lemma validateRateSpec_Inr:
  "validateRateSpec s = Inr u \<Longrightarrow> 0 < rs_Requests s \<and> 0 < rs_Window s \<and> 1 \<le> rs_Burst s \<and> rs_Burst s \<le> 5000"
  by (auto simp: validateRateSpec_def Let_def split: if_splits)

lemma parseOptionalRate_Inr:
  "parseOptionalRate raw d = Inr s \<Longrightarrow> s = d \<or> validateRateSpec s = Inr ()"
  by (auto simp: parseOptionalRate_def Let_def split: if_splits list.splits sum.splits)

lemma parsePublicOrigin_Inr:
  assumes "parsePublicOrigin raw dev = Inr (origin, host)"
  obtains u where "url_Parse raw = Inr u" "origin = url_Scheme u @ ''://'' @ host" "host = url_Host u"
    "host \<noteq> []" "url_Scheme u \<noteq> []" "\<not> dev \<longrightarrow> url_Scheme u = ''https''" "\<not> url_HasUser u"
    "url_Path u \<in> {[], ''/''}" "url_RawQuery u = []" "url_Fragment u = []"
proof (cases "url_Parse raw")
  case (Inl e)
  with assms show thesis by (simp add: parsePublicOrigin_def)
next
  case (Inr u)
  with assms have "origin = url_Scheme u @ ''://'' @ host \<and> host = url_Host u \<and> host \<noteq> [] \<and> url_Scheme u \<noteq> [] \<and>
    (dev \<or> url_Scheme u = ''https'') \<and> \<not> url_HasUser u \<and> (url_Path u = [] \<or> url_Path u = ''/'') \<and>
    url_RawQuery u = [] \<and> url_Fragment u = []"
    unfolding parsePublicOrigin_def by (simp split: if_split_asm) blast
  with Inr that show thesis by blast
qed

section \<open>The stages\<close>

lemma env_guards:
  "(if x \<noteq> p \<and> x \<noteq> q then Inl a else if d \<and> x = p then Inl b else if \<not> d \<and> x = q then Inl c else Inr x) = Inr y \<Longrightarrow>
   y = (if d then q else p)"
  by (cases d; cases "x = p"; cases "x = q"; simp)

lemma chooseEnvironment_Inr:
  assumes "chooseEnvironment g opts = Inr env"
  shows "env = (if so_Development opts then environmentDevelopment else environmentProduction)"
  using assms unfolding chooseEnvironment_def Let_def by (rule env_guards)

lemma withBrand_Inr:
  assumes "withBrand g cfg = Inr cfg'"
  obtains brand where "cfg' = cfg\<lparr>cfg_Brand := brand\<rparr>" "parseLegalLinks g = Inr (br_LegalLinks brand)"
    "br_DisplayName brand = br_DisplayName (cfg_Brand cfg)"
proof -
  from assms obtain hide links where "parseLegalLinks g = Inr links"
    "cfg' = cfg\<lparr>cfg_Brand := cfg_Brand cfg\<lparr>br_GitHubURL := (if hide then [] else br_GitHubURL (cfg_Brand cfg)),
       br_LegalLinks := links\<rparr>\<rparr>"
    by (auto simp: withBrand_def Let_def split: sum.splits)
  then show thesis
    by (intro that [of "cfg_Brand cfg\<lparr>br_GitHubURL := (if hide then [] else br_GitHubURL (cfg_Brand cfg)),
       br_LegalLinks := links\<rparr>"]) simp_all
qed

lemma withLimits_Inr:
  assumes "withLimits g cfg = Inr cfg'"
  obtains gp ci ns ds where
    "parseOptionalDuration g envGracePeriod (cfg_GracePeriod cfg) 0 (60 * Second) = Inr gp"
    "parseOptionalDuration g envCleanupInterval (cfg_CleanupInterval cfg) Minute (24 * Hour) = Inr ci"
    "parseOptionalByteSizeInt g envMaxNoteSize (cfg_MaxNoteSize cfg) 1 hardMaxNoteSize = Inr ns"
    "parseOptionalByteSizeInt g envMaxDBSize (cfg_MaxDBSize cfg) (1024 * 1024) hardMaxDBSize = Inr ds"
    "cfg' = cfg\<lparr>cfg_GracePeriod := gp, cfg_CleanupInterval := ci, cfg_MaxNoteSize := ns, cfg_MaxDBSize := ds\<rparr>"
  using assms by (auto simp: withLimits_def split: sum.splits)

lemma withNetwork_Inr:
  assumes "withNetwork g cfg = Inr cfg'"
  obtains po ph tp hc where "originOption g cfg = Inr (po, ph)" "proxiesOption g cfg = Inr tp"
    "sourcesOption g (loopbackPrefixes @ (if \<not> cfg_IsDevelopment cfg then tp else [])) = Inr hc"
    "cfg' = cfg\<lparr>cfg_PublicOrigin := po, cfg_PublicOriginHost := ph, cfg_TrustedProxies := tp, cfg_HealthCheckSources := hc\<rparr>"
  using assms by (auto simp: withNetwork_def split: sum.splits prod.splits)

lemma sourcesOption_Inr: "sourcesOption g ps = Inr qs \<Longrightarrow> \<exists>rs. qs = ps @ rs"
  by (auto simp: sourcesOption_def Let_def split: if_splits sum.splits)

lemma originOption_Inr:
  "originOption g cfg = Inr (po, ph) \<Longrightarrow> cfg_PublicOrigin cfg = [] \<Longrightarrow> cfg_PublicOriginHost cfg = [] \<Longrightarrow>
   (po = [] \<and> ph = []) \<or> (\<exists>raw. parsePublicOrigin raw (cfg_IsDevelopment cfg) = Inr (po, ph))"
  by (auto simp: originOption_def Let_def split: if_splits)

lemma NewConfigWithOptions_stages:
  assumes "NewConfigWithOptions getenv opts = Inr cfg"
  obtains g env cfg1 cfg2 cfg3 where "getenv = Some g" "chooseEnvironment g opts = Inr env"
    "withBrand g (withStrings g (defaultConfig env)) = Inr cfg1" "withLimits g cfg1 = Inr cfg2"
    "withNetwork g cfg2 = Inr cfg3"
    "parseOptionalRate (g envRateLimit) (cfg_RateLimit cfg3) = Inr (cfg_RateLimit cfg)"
    "cfg = cfg3\<lparr>cfg_RateLimit := cfg_RateLimit cfg\<rparr>"
  using assms by (auto simp: NewConfigWithOptions_def split: option.splits sum.splits)

definition bounded_config :: "Config \<Rightarrow> bool" where
  "bounded_config cfg \<longleftrightarrow> 0 \<le> cfg_GracePeriod cfg \<and> cfg_GracePeriod cfg \<le> 60 * Second \<and>
     Minute \<le> cfg_CleanupInterval cfg \<and> cfg_CleanupInterval cfg \<le> 24 * Hour \<and>
     1 \<le> cfg_MaxNoteSize cfg \<and> cfg_MaxNoteSize cfg \<le> hardMaxNoteSize \<and>
     1024 * 1024 \<le> cfg_MaxDBSize cfg \<and> cfg_MaxDBSize cfg \<le> hardMaxDBSize \<and>
     0 < rs_Requests (cfg_RateLimit cfg) \<and> 0 < rs_Window (cfg_RateLimit cfg) \<and>
     1 \<le> rs_Burst (cfg_RateLimit cfg) \<and> rs_Burst (cfg_RateLimit cfg) \<le> 5000"

lemma withLimits_bounds:
  assumes "withLimits g cfg = Inr cfg'" "cfg_GracePeriod cfg = 3 * Second" "cfg_CleanupInterval cfg = 1 * Hour"
    "cfg_MaxNoteSize cfg = defaultMaxNoteSize" "cfg_MaxDBSize cfg = defaultMaxDBSize"
  shows "0 \<le> cfg_GracePeriod cfg'" "cfg_GracePeriod cfg' \<le> 60 * Second"
    "Minute \<le> cfg_CleanupInterval cfg'" "cfg_CleanupInterval cfg' \<le> 24 * Hour"
    "1 \<le> cfg_MaxNoteSize cfg'" "cfg_MaxNoteSize cfg' \<le> hardMaxNoteSize"
    "1024 * 1024 \<le> cfg_MaxDBSize cfg'" "cfg_MaxDBSize cfg' \<le> hardMaxDBSize"
proof -
  from assms(1) obtain gp ci ns ds where
    s: "parseOptionalDuration g envGracePeriod (cfg_GracePeriod cfg) 0 (60 * Second) = Inr gp"
    "parseOptionalDuration g envCleanupInterval (cfg_CleanupInterval cfg) Minute (24 * Hour) = Inr ci"
    "parseOptionalByteSizeInt g envMaxNoteSize (cfg_MaxNoteSize cfg) 1 hardMaxNoteSize = Inr ns"
    "parseOptionalByteSizeInt g envMaxDBSize (cfg_MaxDBSize cfg) (1024 * 1024) hardMaxDBSize = Inr ds"
    and c: "cfg' = cfg\<lparr>cfg_GracePeriod := gp, cfg_CleanupInterval := ci, cfg_MaxNoteSize := ns, cfg_MaxDBSize := ds\<rparr>"
    by (rule withLimits_Inr)
  from parseOptionalDuration_range [OF s(1)] assms(2) c
  show "0 \<le> cfg_GracePeriod cfg'" "cfg_GracePeriod cfg' \<le> 60 * Second" by (simp_all add: duration_values)
  from parseOptionalDuration_range [OF s(2)] assms(3) c
  show "Minute \<le> cfg_CleanupInterval cfg'" "cfg_CleanupInterval cfg' \<le> 24 * Hour"
    by (simp_all add: duration_values)
  from parseOptionalByteSizeInt_range [OF s(3)] assms(4) c
  show "1 \<le> cfg_MaxNoteSize cfg'" "cfg_MaxNoteSize cfg' \<le> hardMaxNoteSize"
    by (simp_all add: config_constants minInt64_def maxInt64_def)
  from parseOptionalByteSizeInt_range [OF s(4)] assms(5) c
  show "1024 * 1024 \<le> cfg_MaxDBSize cfg'" "cfg_MaxDBSize cfg' \<le> hardMaxDBSize"
    by (simp_all add: config_constants minInt64_def maxInt64_def)
qed


section \<open>Byte sizes\<close>

text \<open>The suffixes of the table do not hide one another behind a number.\<close>

lemma suffix_found:
  assumes "(text, m) \<in> set sizeSuffixes" "ds \<noteq> []" "digit (last ds) \<noteq> None"
  shows "find (\<lambda>(t, m). HasSuffix (ds @ text) t) sizeSuffixes = Some (text, m)"
proof -
  from assms(2) obtain es d where ds: "ds = es @ [d]" by (metis append_butlast_last_id)
  with assms(3) have "d \<notin> {CHR ''b'', CHR ''k'', CHR ''m'', CHR ''g'', CHR ''i'', CHR ''+'', CHR ''-''}"
    using digit_facts(4) by simp
  then have d: "d \<noteq> CHR ''b''" "d \<noteq> CHR ''k''" "d \<noteq> CHR ''m''" "d \<noteq> CHR ''g''" "d \<noteq> CHR ''i''" by simp_all
  from assms(1) have "text = ''gib'' \<and> m = 1073741824 \<or> text = ''gb'' \<and> m = 1000000000 \<or> text = ''mib'' \<and> m = 1048576 \<or>
    text = ''mb'' \<and> m = 1000000 \<or> text = ''kib'' \<and> m = 1024 \<or> text = ''kb'' \<and> m = 1000 \<or> text = ''b'' \<and> m = 1"
    by (simp add: sizeSuffixes_def)
  then show ?thesis
    by (elim disjE conjE) (simp_all add: sizeSuffixes_def ds HasSuffix_rev HasPrefix_Cons d)
qed

lemma size_text:
  assumes "(text, m) \<in> set sizeSuffixes"
  shows "\<forall>c \<in> set text. visible c \<and> ascii c \<and> asciiLower c = c" "text \<noteq> []" "0 < m"
  using assms by (auto simp: sizeSuffixes_def visible_def ascii_def asciiLower_def)


lemma suffix_none:
  assumes "ds \<noteq> []" "digit (last ds) \<noteq> None"
  shows "find (\<lambda>(t, m). HasSuffix ds t) sizeSuffixes = None"
proof -
  from assms(1) obtain es d where ds: "ds = es @ [d]" by (metis append_butlast_last_id)
  with assms(2) have "d \<noteq> CHR ''b''" using digit_facts(4) [of d] by simp
  then show ?thesis by (simp add: sizeSuffixes_def ds HasSuffix_rev HasPrefix_Cons)
qed

lemma ToLower_number:
  assumes "\<forall>c \<in> set text. ascii c \<and> asciiLower c = c"
  shows "ToLower (Itoa n @ text) = Itoa n @ text"
proof -
  have "\<forall>c \<in> set (Itoa n @ text). ascii c \<and> asciiLower c = c"
    using Itoa_digits(3) [of n] digit_facts(2,3) assms by auto
  then show ?thesis by (subst ToLower_ascii) (auto intro: map_idI)
qed

lemma TrimSpace_number:
  assumes "\<forall>c \<in> set text. visible c"
  shows "TrimSpace (Itoa n @ text) = Itoa n @ text"
proof -
  have "\<forall>c \<in> set (Itoa n @ text). visible c"
    using Itoa_digits(3) [of n] digit_facts(1) assms by auto
  moreover have "Itoa n @ text \<noteq> []" using Itoa_digits(2) by simp
  ultimately show ?thesis by (intro TrimSpace_id) (metis hd_in_set, metis last_in_set)
qed

section \<open>A sample environment\<close>

lemma ex_config:
  "NewConfigWithOptions (Some (\<lambda>_. [])) \<lparr>so_Development = False\<rparr> =
     Inr ((defaultConfig environmentProduction)\<lparr>cfg_TrustedProxies := defaultTrustedProxyPrefixes,
       cfg_HealthCheckSources := loopbackPrefixes @ defaultTrustedProxyPrefixes\<rparr>)"
proof -
  have "environmentProduction \<noteq> environmentDevelopment"
    by (simp add: environmentDevelopment_def environmentProduction_def)
  then show ?thesis
    by (simp add: NewConfigWithOptions_def chooseEnvironment_def withStrings_def orDefault_def withBrand_def
        parseOptionalBool_def parseLegalLinks_def maxConfiguredLinks_def numeral_eq_Suc withLimits_def
        parseOptionalDuration_def parseOptionalByteSizeInt_def parseOptionalByteSize_def withNetwork_def
        originOption_def proxiesOption_def sourcesOption_def parseOptionalRate_def defaultConfig_def Let_def)
      (simp add: defaultMaxNoteSize_def defaultMaxDBSize_def int64_def)
qed

lemma NewConfig_facts:
  assumes "NewConfigWithOptions getenv opts = Inr cfg"
  shows "bounded_config cfg \<and> cfg_IsDevelopment cfg = so_Development opts \<and>
    length (br_LegalLinks (cfg_Brand cfg)) \<le> 5 \<and>
    (\<forall>l \<in> set (br_LegalLinks (cfg_Brand cfg)). ll_Label l \<noteq> [] \<and> safe_link (ll_URL l)) \<and>
    (cfg_PublicOrigin cfg = [] \<or>
      (\<exists>scheme. cfg_PublicOrigin cfg = scheme @ ''://'' @ cfg_PublicOriginHost cfg \<and>
         (so_Development opts \<or> scheme = ''https''))) \<and>
    (\<exists>rest. cfg_HealthCheckSources cfg = loopbackPrefixes @ (if so_Development opts then [] else cfg_TrustedProxies cfg) @ rest)"
proof -
  from assms obtain g env cfg1 cfg2 cfg3 where env: "chooseEnvironment g opts = Inr env"
    and b: "withBrand g (withStrings g (defaultConfig env)) = Inr cfg1" and l: "withLimits g cfg1 = Inr cfg2"
    and n: "withNetwork g cfg2 = Inr cfg3"
    and r: "parseOptionalRate (g envRateLimit) (cfg_RateLimit cfg3) = Inr (cfg_RateLimit cfg)"
    and c: "cfg = cfg3\<lparr>cfg_RateLimit := cfg_RateLimit cfg\<rparr>"
    by (rule NewConfigWithOptions_stages)
  from b obtain brand where cfg1: "cfg1 = withStrings g (defaultConfig env)\<lparr>cfg_Brand := brand\<rparr>"
    and links: "linksFrom g 1 maxConfiguredLinks [] = Inr (br_LegalLinks brand)"
    unfolding parseLegalLinks_def [symmetric] by (rule withBrand_Inr)
  from l obtain gp ci ns ds where
    cfg2: "cfg2 = cfg1\<lparr>cfg_GracePeriod := gp, cfg_CleanupInterval := ci, cfg_MaxNoteSize := ns, cfg_MaxDBSize := ds\<rparr>"
    by (rule withLimits_Inr)
  from n obtain po ph tp hc where o: "originOption g cfg2 = Inr (po, ph)"
    and s: "sourcesOption g (loopbackPrefixes @ (if \<not> cfg_IsDevelopment cfg2 then tp else [])) = Inr hc"
    and cfg3: "cfg3 = cfg2\<lparr>cfg_PublicOrigin := po, cfg_PublicOriginHost := ph, cfg_TrustedProxies := tp, cfg_HealthCheckSources := hc\<rparr>"
    by (rule withNetwork_Inr)
  note D = withStrings_def defaultConfig_def Let_def
  have dev: "cfg_IsDevelopment cfg2 = so_Development opts"
    using chooseEnvironment_Inr [OF env]
    by (simp add: cfg1 cfg2 D environmentDevelopment_def environmentProduction_def split: if_splits)
  note L = withLimits_bounds [OF l]
  have rate: "0 < rs_Requests (cfg_RateLimit cfg) \<and> 0 < rs_Window (cfg_RateLimit cfg) \<and>
      1 \<le> rs_Burst (cfg_RateLimit cfg) \<and> rs_Burst (cfg_RateLimit cfg) \<le> 5000"
    using parseOptionalRate_Inr [OF r]
  proof
    assume "cfg_RateLimit cfg = cfg_RateLimit cfg3"
    then show ?thesis by (simp add: cfg1 cfg2 cfg3 D duration_values)
  qed (rule validateRateSpec_Inr)
  have "bounded_config cfg"
    unfolding bounded_config_def using L rate by (subst (1 2 3 4 5 6 7 8) c) (simp add: cfg1 cfg3 D)
  moreover have "cfg_IsDevelopment cfg = so_Development opts"
    by (subst c) (simp add: dev cfg3)
  moreover have br: "cfg_Brand cfg = brand" by (subst c) (simp add: cfg1 cfg2 cfg3)
  moreover have "length (br_LegalLinks brand) \<le> 5"
    using linksFrom_length [OF links] by (simp add: maxConfiguredLinks_def)
  moreover have "\<forall>l \<in> set (br_LegalLinks brand). ll_Label l \<noteq> [] \<and> safe_link (ll_URL l)"
    using linksFrom_set [OF links] parseLegalLinkURL_Inr by fastforce
  moreover have "cfg_PublicOrigin cfg = po" "cfg_PublicOriginHost cfg = ph" "cfg_TrustedProxies cfg = tp"
    "cfg_HealthCheckSources cfg = hc"
    by (subst c, simp add: cfg3)+
  moreover have "po = [] \<or> (\<exists>scheme. po = scheme @ ''://'' @ ph \<and> (so_Development opts \<or> scheme = ''https''))"
    using originOption_Inr [OF o] dev by (auto simp: cfg1 cfg2 D elim!: parsePublicOrigin_Inr)
  moreover have "\<exists>rest. hc = loopbackPrefixes @ (if so_Development opts then [] else tp) @ rest"
    using sourcesOption_Inr [OF s] dev by auto
  ultimately show ?thesis by (simp split: if_split_asm)
qed

section \<open>Properties\<close>



text \<open>A decimal number with one of the size suffixes, or none, is read as that number
  times the multiplier of the suffix, as long as the product fits in 64 bits.\<close>

lemma parseByteSize_number:
  assumes "(text, m) \<in> set (([], 1) # sizeSuffixes)" "int n * m \<le> maxInt64"
  shows "parseByteSize (Itoa n @ text) = Inr (int n * m)"
proof -
  have ne: "Itoa n \<noteq> []" by (rule Itoa_digits)
  have last: "digit (last (Itoa n)) \<noteq> None" using Itoa_digits(3) [of n] ne last_in_set by blast
  have "text = [] \<and> m = 1 \<or> (text, m) \<in> set sizeSuffixes" using assms(1) by simp
  then show ?thesis
  proof
    assume t: "text = [] \<and> m = 1"
    then have "int n \<le> maxInt64" using assms(2) by simp
    moreover have "TrimSpace (Itoa n) = Itoa n" "ToLower (Itoa n) = Itoa n"
      using TrimSpace_number [of "[]" n] ToLower_number [of "[]" n] by simp_all
    ultimately show ?thesis
      using t ne by (simp add: parseByteSize_def suffix_none [OF ne last] ParseInt_Itoa int64_id minInt64_def)
  next
    assume t: "(text, m) \<in> set sizeSuffixes"
    note T = size_text [OF t]
    have v: "\<forall>c \<in> set text. visible c" and a: "\<forall>c \<in> set text. ascii c \<and> asciiLower c = c" using T(1) by simp_all
    have "1 * int n \<le> m * int n" using T(3) by (intro mult_right_mono) simp_all
    then have "int n \<le> maxInt64" using assms(2) by (simp add: mult.commute)
    moreover have "int n \<le> maxInt64 div m"
      using zdiv_mono1 [OF assms(2) T(3)] T(3) by simp
    moreover have "0 \<le> int n * m" using T(3) by simp
    ultimately show ?thesis
      using assms(2) ne TrimSpace_number [of "[]" n]
      by (simp add: parseByteSize_def TrimSpace_number [OF v] ToLower_number [OF a] suffix_found [OF t ne last]
          ParseInt_Itoa int64_id minInt64_def not_less)
  qed
qed

lemma parseByteSize_10mib: "parseByteSize (Itoa 10 @ ''mib'') = Inr 10485760"
proof -
  have "(''mib'', 1024 * 1024) \<in> set (([], 1) # sizeSuffixes)" by (simp add: sizeSuffixes_def)
  from parseByteSize_number [OF this, of 10] show ?thesis by (simp add: maxInt64_def)
qed

end
