(* ===== verification/HostPort.thy ===== *)
theory HostPort
  imports AddrText
begin

text \<open>
  \<open>net.SplitHostPort\<close> and \<open>net.JoinHostPort\<close>, and the address of a connection: what is split
  is what was joined.
\<close>

definition SplitHostPort :: "string \<Rightarrow> (string \<times> string) result" where
  "SplitHostPort hostport =
     (case CutLast hostport CHR '':'' of
        None \<Rightarrow> Inl (Msg ''missing port in address'')
      | Some (before, port) \<Rightarrow>
          if HasPrefix hostport ''['' then
            (case Cut hostport CHR '']'' of
               None \<Rightarrow> Inl (Msg ''missing ']' in address'')
             | Some (inner, rest) \<Rightarrow>
                 if rest = [] then Inl (Msg ''missing port in address'')
                 else if length inner + 1 \<noteq> length before then
                   (if hd rest = CHR '':'' then Inl (Msg ''too many colons in address'')
                    else Inl (Msg ''missing port in address''))
                 else if CHR ''['' \<in> set (drop 1 hostport) then Inl (Msg ''unexpected '[' in address'')
                 else if CHR '']'' \<in> set rest then Inl (Msg ''unexpected ']' in address'')
                 else Inr (drop 1 inner, port))
          else if CHR '':'' \<in> set before then Inl (Msg ''too many colons in address'')
          else if CHR ''['' \<in> set hostport then Inl (Msg ''unexpected '[' in address'')
          else if CHR '']'' \<in> set hostport then Inl (Msg ''unexpected ']' in address'')
          else Inr (before, port))"

definition JoinHostPort :: "string \<Rightarrow> string \<Rightarrow> string" where
  "JoinHostPort host port =
     (if CHR '':'' \<in> set host then ''['' @ host @ '']:'' @ port else host @ '':'' @ port)"

lemma SplitHostPort_Join:
  assumes "\<forall>c \<in> set host. c \<notin> {CHR ''['', CHR '']''}" "\<forall>c \<in> set port. c \<notin> {CHR ''['', CHR '']'', CHR '':''}"
  shows "SplitHostPort (JoinHostPort host port) = Inr (host, port)"
proof (cases "CHR '':'' \<in> set host")
  case True
  have j: "JoinHostPort host port = (''['' @ host @ '']'') @ CHR '':'' # port"
    "JoinHostPort host port = (''['' @ host) @ CHR '']'' # (CHR '':'' # port)"
    using True by (simp_all add: JoinHostPort_def)
  have "CutLast (JoinHostPort host port) CHR '':'' = Some (''['' @ host @ '']'', port)"
    unfolding j(1) by (rule CutLast_append) (use assms(2) in auto)
  moreover have "Cut (JoinHostPort host port) CHR '']'' = Some (''['' @ host, CHR '':'' # port)"
    unfolding j(2) by (rule Cut_append) (use assms(1) in auto)
  moreover have "HasPrefix (JoinHostPort host port) ''[''" "drop 1 (JoinHostPort host port) = host @ '']:'' @ port"
    using True by (simp_all add: JoinHostPort_def HasPrefix_def)
  ultimately show ?thesis
    unfolding SplitHostPort_def using assms by auto
next
  case False
  have j: "JoinHostPort host port = host @ CHR '':'' # port" using False by (simp add: JoinHostPort_def)
  have "CutLast (JoinHostPort host port) CHR '':'' = Some (host, port)"
    unfolding j by (rule CutLast_append) (use assms(2) in auto)
  moreover have "\<not> HasPrefix (JoinHostPort host port) ''[''"
    unfolding j using assms(1) by (cases host) (auto simp: HasPrefix_def)
  moreover have "CHR ''['' \<notin> set (JoinHostPort host port)" "CHR '']'' \<notin> set (JoinHostPort host port)"
    unfolding j using assms by auto
  ultimately show ?thesis using False by (simp add: SplitHostPort_def)
qed

end
