(* ===== verification/GoMime.thy ===== *)
theory GoMime
  imports GoText
begin

text \<open>
  \<open>mime.ParseMediaType\<close> of the standard library, as far as its first and last results go: the media type,
  and whether the parameters parse.
\<close>

section \<open>Tokens and values\<close>

definition isTSpecial :: "char \<Rightarrow> bool" where
  "isTSpecial c \<longleftrightarrow> c \<in> set (''()<>@,;:/[]?='' @ [CHR 0x22, CHR 0x5C])"

definition isTokenChar :: "char \<Rightarrow> bool" where
  "isTokenChar c \<longleftrightarrow> visible c \<and> \<not> isTSpecial c"

definition trimLeft :: "string \<Rightarrow> string" where
  "trimLeft s = trimSeqs spaceSeqs s"

definition consumeToken :: "string \<Rightarrow> string \<times> string" where
  "consumeToken v = (takeWhile isTokenChar v, dropWhile isTokenChar v)"

text \<open>A quoted string after its opening quote. A backslash escapes only the special characters.\<close>

fun quotedString :: "string \<Rightarrow> string \<Rightarrow> (string \<times> string) option" where
  "quotedString acc [] = None"
| "quotedString acc [r] = (if r = CHR 0x22 then Some (acc, []) else None)"
| "quotedString acc (r # s # rs) =
     (if r = CHR 0x22 then Some (acc, s # rs)
      else if r = CHR 0x5C \<and> isTSpecial s then quotedString (acc @ [s]) rs
      else if r = CHR 0x0D \<or> r = CHR 0x0A then None
      else quotedString (acc @ [r]) (s # rs))"

definition consumeValue :: "string \<Rightarrow> string \<times> string" where
  "consumeValue v =
     (if HasPrefix v [CHR 0x22] then (case quotedString [] (drop 1 v) of None \<Rightarrow> ([], v) | Some p \<Rightarrow> p)
      else consumeToken v)"

definition CutPrefix :: "string \<Rightarrow> char \<Rightarrow> string option" where
  "CutPrefix s c = (case s of [] \<Rightarrow> None | x # xs \<Rightarrow> if x = c then Some xs else None)"

text \<open>One parameter, and the rest; \<open>None\<close> stands for an empty name.\<close>

definition consumeMediaParam :: "string \<Rightarrow> (string \<times> string \<times> string) option" where
  "consumeMediaParam v =
     (case CutPrefix (trimLeft v) CHR '';'' of
        None \<Rightarrow> None
      | Some rest \<Rightarrow> (case consumeToken (trimLeft rest) of
          (param, rest) \<Rightarrow>
            if ToLower param = [] then None
            else (case CutPrefix (trimLeft rest) CHR ''='' of
              None \<Rightarrow> None
            | Some rest \<Rightarrow> (case consumeValue (trimLeft rest) of
                (val, rest2) \<Rightarrow>
                  if val = [] \<and> rest2 = trimLeft rest then None else Some (ToLower param, val, rest2)))))"

definition checkMediaTypeDisposition :: "string \<Rightarrow> unit result" where
  "checkMediaTypeDisposition s =
     (case consumeToken s of
        (typ, rest) \<Rightarrow>
          if typ = [] then Inl (Msg ''mime: no media type'')
          else if rest = [] then Inr ()
          else if \<not> HasPrefix rest ''/'' then Inl (Msg ''mime: expected slash after first token'')
          else (case consumeToken (drop 1 rest) of
            (subtype, rest) \<Rightarrow>
              if subtype = [] then Inl (Msg ''mime: expected token after slash'')
              else if rest \<noteq> [] then Inl (Msg ''mime: unexpected content after media subtype'')
              else Inr ()))"

section \<open>Parameters\<close>

lemma trimLeft_length: "length (trimLeft s) \<le> length s"
  using trimSeqs_suffix [of s spaceSeqs] by (metis le_add2 length_append trimLeft_def)

lemma CutPrefix_Some: "CutPrefix s c = Some r \<longleftrightarrow> s = c # r"
  by (auto simp: CutPrefix_def split: list.splits)

lemma consumeToken_length: "consumeToken v = (t, r) \<Longrightarrow> length r \<le> length v"
  by (auto simp: consumeToken_def length_dropWhile_le)

lemma quotedString_length: "quotedString acc s = Some (v, r) \<Longrightarrow> length r \<le> length s"
  by (induction acc s rule: quotedString.induct) (auto split: if_splits)

lemma consumeValue_length: "consumeValue v = (t, r) \<Longrightarrow> length r \<le> length v"
  by (auto simp: consumeValue_def consumeToken_length HasPrefix_def dest!: quotedString_length split: if_splits option.splits)

lemma consumeMediaParam_shorter:
  assumes "consumeMediaParam v = Some (key, val, rest)"
  shows "length rest < length v"
proof -
  from assms obtain r1 where 1: "trimLeft v = CHR '';'' # r1"
    by (auto simp: consumeMediaParam_def CutPrefix_Some split: option.split_asm)
  obtain p r2 where 2: "consumeToken (trimLeft r1) = (p, r2)" by (metis surj_pair)
  from assms 1 2 obtain r3 where 3: "trimLeft r2 = CHR ''='' # r3"
    by (auto simp: consumeMediaParam_def CutPrefix_def split: option.split_asm if_split_asm list.split_asm)
  obtain t r4 where 4: "consumeValue (trimLeft r3) = (t, r4)" by (metis surj_pair)
  have "rest = r4" using assms 1 2 3 4 by (auto simp: consumeMediaParam_def CutPrefix_def split: if_split_asm)
  moreover have "length r4 \<le> length r3" using consumeValue_length [OF 4] trimLeft_length [of r3] by simp
  moreover have "Suc (length r3) \<le> length r2" using 3 trimLeft_length [of r2] by simp
  moreover have "length r2 \<le> length r1" using consumeToken_length [OF 2] trimLeft_length [of r1] by simp
  moreover have "Suc (length r1) \<le> length v" using 1 trimLeft_length [of v] by simp
  ultimately show ?thesis by simp
qed

text \<open>The loop over the parameters; a name may come twice, with the same value.\<close>

function mediaParams :: "string \<Rightarrow> (string \<times> string) list \<Rightarrow> unit result" where
  "mediaParams v0 params =
     (let v = trimLeft v0
      in if v = [] then Inr ()
         else case consumeMediaParam v of
           None \<Rightarrow> if TrimSpace v = '';'' then Inr () else Inl (Msg ''mime: invalid media parameter'')
         | Some (key, val, rest) \<Rightarrow>
             if (\<exists>old. map_of params key = Some old \<and> old \<noteq> val) then Inl (Msg ''mime: duplicate parameter name'')
             else mediaParams rest ((key, val) # params))"
  by pat_completeness auto

termination
proof (relation "measure (\<lambda>(v, params). length v)")
  fix v0 v key val rest params and x :: "string \<times> string \<times> string" and y :: "string \<times> string"
  assume "v = trimLeft v0" "consumeMediaParam v = Some x" "(key, y) = x" "(val, rest) = y"
  then have "length rest < length v" by (auto intro: consumeMediaParam_shorter)
  then show "((rest, (key, val) # params), (v0, params)) \<in> measure (\<lambda>(v, params). length v)"
    using trimLeft_length [of v0] \<open>v = trimLeft v0\<close> by simp
qed simp

declare mediaParams.simps [simp del]

definition ParseMediaType :: "string \<Rightarrow> string result" where
  "ParseMediaType v =
     (let (base, params) = (case Cut v CHR '';'' of None \<Rightarrow> (v, []) | Some (b, p) \<Rightarrow> (b, CHR '';'' # p));
          mediatype = TrimSpace (ToLower base)
      in case checkMediaTypeDisposition mediatype of
           Inl e \<Rightarrow> Inl e
         | Inr _ \<Rightarrow> (case mediaParams params [] of Inl e \<Rightarrow> Inl e | Inr _ \<Rightarrow> Inr mediatype))"

section \<open>Media types\<close>

text \<open>What stands before the parameters.\<close>

definition mediaBase :: "string \<Rightarrow> string" where
  "mediaBase v = (case Cut v CHR '';'' of None \<Rightarrow> v | Some (b, p) \<Rightarrow> b)"

lemma ParseMediaType_Inr: "ParseMediaType v = Inr m \<Longrightarrow> m = TrimSpace (ToLower (mediaBase v))"
  by (auto simp: ParseMediaType_def mediaBase_def Let_def split: option.splits sum.splits)

lemma ParseMediaType_plain:
  assumes "consumeToken s = (t, CHR ''/'' # u)" "t \<noteq> []" "consumeToken u = (u, [])" "u \<noteq> []"
    and "CHR '';'' \<notin> set s" "TrimSpace (ToLower s) = s"
  shows "ParseMediaType s = Inr s"
  using assms by (simp add: ParseMediaType_def checkMediaTypeDisposition_def HasPrefix_def mediaParams.simps
      trimLeft_def trimSeqs_stop)

end
