(* ===== verification/Http.thy ===== *)
theory Http
  imports HostPort GoMime
begin

text \<open>
  Requests, the response writer and the per-request context, with the helpers of
  \<open>http_helpers.go\<close> and \<open>route_classifier.go\<close>. A response keeps what the client sees (the
  status and headers at the first \<open>WriteHeader\<close>, the body) and the lines logged.
\<close>

section \<open>Requests and responses\<close>

text \<open>\<open>rq_Header\<close> is \<open>Header.Get\<close>: the first value under a canonical name, or the empty
  string. \<open>rq_URL\<close> is the path of \<open>r.URL\<close>, \<open>None\<close> for a nil URL, and \<open>rq_Segments\<close> its
  segments as the multiplexer sees them: split at the unescaped slashes, then unescaped.\<close>

record http_request =
  rq_Method :: string
  rq_URL :: "string option"
  rq_Segments :: "string list"
  rq_Pattern :: string
  rq_RemoteAddr :: string
  rq_Host :: string
  rq_Header :: "string \<Rightarrow> string"
  rq_PathValue :: "string \<Rightarrow> string"
  rq_Body :: bytes

datatype body =
    NoBody
  | ErrorJSON string
  | ConfigJSON int int int
  | TicketJSON string string string time
  | CreatedJSON string int
  | PayloadJSON bytes
  | Page string
  | PlainText string

text \<open>Lines of the structured log of \<open>log/slog\<close>.\<close>

datatype log_value = LogText string | LogInt int | LogErr goerr | LogFlag bool

type_synonym log_args = "(string \<times> log_value) list"

datatype log_level = LevelInfo | LevelError

datatype log_line = LogLine log_level string log_args

record writer =
  wr_Header :: "string \<rightharpoonup> string"
  wr_Sent :: "(int \<times> (string \<rightharpoonup> string)) option"
  wr_Codes :: "int list"
  wr_Body :: "body list"
  wr_Log :: "log_line list"

definition new_writer :: writer where
  "new_writer = \<lparr>wr_Header = Map.empty, wr_Sent = None, wr_Codes = [], wr_Body = [], wr_Log = []\<rparr>"

definition set_header :: "string \<Rightarrow> string \<Rightarrow> writer \<Rightarrow> writer" where
  "set_header k v w = w\<lparr>wr_Header := (wr_Header w)(k \<mapsto> v)\<rparr>"

definition del_header :: "string \<Rightarrow> writer \<Rightarrow> writer" where
  "del_header k w = w\<lparr>wr_Header := (wr_Header w)(k := None)\<rparr>"

text \<open>Only the first \<open>WriteHeader\<close> counts; \<open>Write\<close> sends 200 when none came before.
  \<open>wr_Codes\<close> lists the calls of \<open>WriteHeader\<close>, the ignored ones included: the logging
  response writer sees them all.\<close>

definition send_header :: "int \<Rightarrow> writer \<Rightarrow> writer" where
  "send_header code w = (case wr_Sent w of None \<Rightarrow> w\<lparr>wr_Sent := Some (code, wr_Header w)\<rparr> | Some _ \<Rightarrow> w)"

definition write_header :: "int \<Rightarrow> writer \<Rightarrow> writer" where
  "write_header code w = (send_header code w)\<lparr>wr_Codes := wr_Codes w @ [code]\<rparr>"

definition write_body :: "body \<Rightarrow> writer \<Rightarrow> writer" where
  "write_body b w = (let w = send_header 200 w in w\<lparr>wr_Body := wr_Body w @ [b]\<rparr>)"

lemmas writer_defs = write_body_def write_header_def send_header_def set_header_def del_header_def Let_def

definition emit :: "log_line list \<Rightarrow> writer \<Rightarrow> writer" where
  "emit ls w = w\<lparr>wr_Log := wr_Log w @ ls\<rparr>"

definition response_status :: "writer \<Rightarrow> int" where
  "response_status w = (case wr_Sent w of None \<Rightarrow> 200 | Some (code, _) \<Rightarrow> code)"

record HTTPContext =
  cx_ClientIP :: Addr
  cx_ClientKey :: string
  cx_Err :: "goerr option"
  cx_PublicOrigin :: string
  cx_StatusCode :: int

section \<open>Route classification\<close>

definition fallbackRoutePattern :: "string \<Rightarrow> string \<Rightarrow> string" where
  "fallbackRoutePattern method path =
     (if method = ''GET'' \<and> path = ''/healthz'' then ''GET /healthz''
      else if method = ''GET'' \<and> HasPrefix path ''/static/'' then ''GET /static/{version}/{asset...}''
      else if method = ''GET'' \<and> path = ''/favicon.ico'' then ''GET /favicon.ico''
      else if method = ''GET'' \<and> HasPrefix path ''/.well-known/'' then ''GET /.well-known/{asset...}''
      else if method = ''GET'' \<and> path = ''/api/config'' then ''GET /api/config''
      else if method = ''POST'' \<and> path = ''/api/tickets'' then ''POST /api/tickets''
      else if method = ''POST'' \<and> HasPrefix path ''/api/notes/'' \<and> HasSuffix path ''/open'' then ''POST /api/notes/{id}/open''
      else if method = ''POST'' \<and> HasPrefix path ''/api/notes/'' then ''POST /api/notes/{id}''
      else method @ '' /{app...}'')"

definition routePattern :: "http_request option \<Rightarrow> string" where
  "routePattern r =
     (case r of
        None \<Rightarrow> ''unmatched''
      | Some r \<Rightarrow>
          if rq_Pattern r \<noteq> [] then rq_Pattern r
          else (case rq_URL r of None \<Rightarrow> ''unmatched'' | Some path \<Rightarrow> fallbackRoutePattern (rq_Method r) path))"

definition isJSONRoute :: "http_request \<Rightarrow> bool" where
  "isJSONRoute r = (case rq_URL r of None \<Rightarrow> False | Some path \<Rightarrow> HasPrefix path ''/api/'')"

definition isStaticAssetRequest :: "http_request \<Rightarrow> bool" where
  "isStaticAssetRequest r =
     (case rq_URL r of
        None \<Rightarrow> False
      | Some path \<Rightarrow> rq_Method r = ''GET'' \<and>
          (HasPrefix path ''/static/'' \<or> path = ''/favicon.ico'' \<or> HasPrefix path ''/.well-known/''))"

definition isSuccessfulStaticRoute :: "string \<Rightarrow> int \<Rightarrow> bool" where
  "isSuccessfulStaticRoute route code \<longleftrightarrow> HasPrefix route ''GET /static/'' \<and> code < 400"

definition isHealthCheckRequest :: "http_request \<Rightarrow> bool" where
  "isHealthCheckRequest r \<longleftrightarrow> rq_Method r = ''GET'' \<and> rq_URL r = Some ''/healthz''"

section \<open>Helpers\<close>

definition setNoStore :: "writer \<Rightarrow> writer" where
  "setNoStore w = set_header ''Pragma'' ''no-cache'' (set_header ''Cache-Control'' ''no-store'' w)"

definition writeJSON :: "int \<Rightarrow> body \<Rightarrow> writer \<Rightarrow> writer" where
  "writeJSON status value w =
     write_body value (write_header status (set_header ''Content-Type'' ''application/json'' (setNoStore w)))"

text \<open>\<open>http.Error\<close> drops the content length, sets a plain-text content type and writes the text.\<close>

definition http_Error :: "string \<Rightarrow> int \<Rightarrow> writer \<Rightarrow> writer" where
  "http_Error text code w =
     write_body (PlainText text) (write_header code (set_header ''X-Content-Type-Options'' ''nosniff''
       (set_header ''Content-Type'' ''text/plain; charset=utf-8'' (del_header ''Content-Length'' w))))"

definition StatusText :: "int \<Rightarrow> string" where
  "StatusText code =
     (if code = 400 then ''Bad Request'' else if code = 404 then ''Not Found''
      else if code = 429 then ''Too Many Requests'' else if code = 500 then ''Internal Server Error'' else [])"

fun contains :: "string \<Rightarrow> string \<Rightarrow> bool" where
  "contains [] p \<longleftrightarrow> p = []"
| "contains (c # cs) p \<longleftrightarrow> HasPrefix (c # cs) p \<or> contains cs p"

definition wantsJSON :: "http_request \<Rightarrow> bool" where
  "wantsJSON r = (if isJSONRoute r then True else contains (rq_Header r ''Accept'') ''application/json'')"

definition writeErrorResponse :: "http_request \<Rightarrow> int \<Rightarrow> string \<Rightarrow> writer \<Rightarrow> writer" where
  "writeErrorResponse r status code w =
     (if wantsJSON r then writeJSON status (ErrorJSON code) w
      else http_Error (StatusText status) status (setNoStore w))"

definition requireJSONContentType :: "http_request \<Rightarrow> unit result" where
  "requireJSONContentType r =
     (let contentType = rq_Header r ''Content-Type''
      in if contentType = [] then Inl (Msg ''content type is required'')
         else case ParseMediaType contentType of
           Inl e \<Rightarrow> Inl (Wrap ''invalid content type: %w'' e)
         | Inr mediaType \<Rightarrow>
             if mediaType \<noteq> ''application/json'' then Inl (Msg ''unsupported content type: %s'') else Inr ())"

section \<open>Lemmas\<close>

text \<open>A writer to which nothing has been sent yet.\<close>

definition fresh :: "writer \<Rightarrow> bool" where
  "fresh w \<longleftrightarrow> wr_Sent w = None \<and> wr_Body w = [] \<and> wr_Codes w = []"

lemma fresh_new [simp]: "fresh new_writer"
  by (simp add: fresh_def new_writer_def)

lemma fresh_set_header [simp]: "fresh (set_header k v w) = fresh w"
  by (simp add: fresh_def set_header_def)

lemma fresh_del_header [simp]: "fresh (del_header k w) = fresh w"
  by (simp add: fresh_def del_header_def)

lemma fresh_setNoStore [simp]: "fresh (setNoStore w) = fresh w"
  by (simp add: setNoStore_def)

lemma writeJSON_fresh:
  assumes "fresh w"
  shows "wr_Sent (writeJSON s b w) = Some (s, (wr_Header w)(''Cache-Control'' \<mapsto> ''no-store'', ''Pragma'' \<mapsto> ''no-cache'',
      ''Content-Type'' \<mapsto> ''application/json''))"
    "wr_Body (writeJSON s b w) = [b]" "wr_Codes (writeJSON s b w) = [s]" "wr_Log (writeJSON s b w) = wr_Log w"
  using assms
  by (simp_all add: fresh_def writeJSON_def setNoStore_def writer_defs)

lemma emit_simps [simp]:
  "wr_Sent (emit ls w) = wr_Sent w" "wr_Body (emit ls w) = wr_Body w" "wr_Header (emit ls w) = wr_Header w"
  "wr_Log (emit ls w) = wr_Log w @ ls" "wr_Codes (emit ls w) = wr_Codes w"
  by (simp_all add: emit_def)

lemma writeErrorResponse_fresh:
  assumes "fresh w"
  shows "response_status (writeErrorResponse r s c w) = s"
    "wr_Body (writeErrorResponse r s c w) = [if wantsJSON r then ErrorJSON c else PlainText (StatusText s)]"
  using assms
  by (simp_all add: fresh_def writeErrorResponse_def writeJSON_def http_Error_def setNoStore_def
      response_status_def writer_defs)

text \<open>No request that reaches the API is exempt from the rate limit: health checks and static
  assets are GET requests outside \<open>/api/\<close>.\<close>

lemma exempt_not_api:
  assumes "isHealthCheckRequest r \<or> isStaticAssetRequest r"
  shows "\<not> isJSONRoute r \<and> rq_Method r = ''GET''"
  using assms
  by (auto simp: isHealthCheckRequest_def isStaticAssetRequest_def isJSONRoute_def HasPrefix_iff split: option.splits)

end
