(* ===== verification/Logging.thy ===== *)
theory Logging
  imports Http Config
begin

text \<open>
  \<open>logging.go\<close>: the lines of the structured log. A line is a value: its level, its message and its attributes in
  order; \<open>emit\<close> of \<open>Http\<close> adds lines to what a response has logged. Times and durations
  are left out of the lines.
\<close>

section \<open>Messages\<close>

definition logMsgHTTPRequest :: string where "logMsgHTTPRequest = ''http_request''"
definition logMsgRequestError :: string where "logMsgRequestError = ''request_error''"
definition logMsgSecurityEvent :: string where "logMsgSecurityEvent = ''security_event''"
definition logMsgServerError :: string where "logMsgServerError = ''server_error''"
definition logMsgServerLifecycle :: string where "logMsgServerLifecycle = ''server_lifecycle''"
definition logMsgStartupFailed :: string where "logMsgStartupFailed = ''startup_failed''"
definition logMsgStartupSummary :: string where "logMsgStartupSummary = ''startup_summary''"

section \<open>Lines\<close>

definition logSecurityEvent :: "string \<Rightarrow> log_args \<Rightarrow> log_line" where
  "logSecurityEvent event attrs = LogLine LevelInfo logMsgSecurityEvent ((''event'', LogText event) # attrs)"

text \<open>The request is \<open>nil\<close> or has a context or none.\<close>

definition logRequestError ::
  "http_request option \<Rightarrow> HTTPContext option \<Rightarrow> string \<Rightarrow> goerr \<Rightarrow> log_args \<Rightarrow> log_line" where
  "logRequestError r ctx event err attrs =
     LogLine LevelError logMsgRequestError
       ([(''event'', LogText event), (''error'', LogErr err)] @
        (case r of
           None \<Rightarrow> []
         | Some _ \<Rightarrow> (''route'', LogText (routePattern r)) #
             (case ctx of None \<Rightarrow> [] | Some c \<Rightarrow> [(''client'', LogText (cx_ClientKey c))])) @
        attrs)"

definition logServerError :: "string \<Rightarrow> goerr \<Rightarrow> log_args \<Rightarrow> log_line" where
  "logServerError event err attrs =
     LogLine LevelError logMsgServerError ([(''event'', LogText event), (''error'', LogErr err)] @ attrs)"

definition logStartupSummary :: "Config \<Rightarrow> string \<Rightarrow> log_line" where
  "logStartupSummary cfg addr =
     LogLine LevelInfo logMsgStartupSummary
       [(''event'', LogText ''startup_completed''), (''environment'', LogText (cfg_Environment cfg)),
        (''addr'', LogText addr), (''db_path'', LogText (cfg_DBPath cfg)),
        (''public_origin_host'', LogText (cfg_PublicOriginHost cfg)),
        (''trusted_proxy_count'', LogInt (int (length (cfg_TrustedProxies cfg)))),
        (''max_note_size'', LogInt (cfg_MaxNoteSize cfg)), (''max_db_size'', LogInt (cfg_MaxDBSize cfg)),
        (''rate_limits_enabled'', LogFlag True)]"

end
