(* ===== verification/Proxy.thy ===== *)
theory Proxy
  imports Logging
begin

text \<open>
  \<open>proxy.go\<close>: which requests come through a trusted reverse proxy, and who the client is.
\<close>

section \<open>Forwarded headers\<close>

record forwardedMetadata =
  fm_forChain :: "Addr list"
  fm_host :: string
  fm_proto :: string

definition remoteAddrIP :: "string \<Rightarrow> Addr result" where
  "remoteAddrIP remoteAddr =
     (let host = (case SplitHostPort remoteAddr of Inl _ \<Rightarrow> remoteAddr | Inr (host, _) \<Rightarrow> host)
      in case ParseAddr host of Inl e \<Rightarrow> Inl e | Inr addr \<Rightarrow> Inr (Unmap addr))"

definition commaValues :: "string \<Rightarrow> string list" where
  "commaValues raw = filter (\<lambda>part. part \<noteq> []) (map TrimSpace (Split raw CHR '',''))"

definition unbracket :: "string \<Rightarrow> string result" where
  "unbracket raw =
     (if HasPrefix raw ''['' then
        (case Index raw CHR '']'' of
           None \<Rightarrow> Inl (Msg ''invalid forwarded address %q'')
         | Some end \<Rightarrow>
             (let suffix = drop (end + 1) raw; inner = drop 1 (take end raw)
              in if suffix = [] then Inr inner
                 else if \<not> HasPrefix suffix '':'' then Inl (Msg ''invalid forwarded address %q'')
                 else case ParseInt (drop 1 suffix) of
                   Inl e \<Rightarrow> Inl (Wrap ''invalid forwarded address %q: %w'' e)
                 | Inr _ \<Rightarrow> Inr inner))
      else
        (case SplitHostPort raw of
           Inl _ \<Rightarrow> Inr raw
         | Inr (host, port) \<Rightarrow> (case ParseInt port of Inl e \<Rightarrow> Inl e | Inr _ \<Rightarrow> Inr host)))"

definition parseForwardedAddr :: "string \<Rightarrow> Addr result" where
  "parseForwardedAddr raw0 =
     (let raw = TrimSpace raw0
      in if raw = [] \<or> HasPrefix raw ''_'' \<or> EqualFold raw ''unknown''
         then Inl (Msg ''invalid forwarded address %q'')
         else case unbracket raw of
           Inl e \<Rightarrow> Inl e
         | Inr raw \<Rightarrow> (case ParseAddr raw of Inl e \<Rightarrow> Inl e | Inr addr \<Rightarrow> Inr (Unmap addr)))"

fun parseEach :: "string list \<Rightarrow> Addr list \<Rightarrow> Addr list result" where
  "parseEach [] chain = Inr chain"
| "parseEach (value # values) chain =
     (case parseForwardedAddr value of Inl e \<Rightarrow> Inl e | Inr addr \<Rightarrow> parseEach values (chain @ [addr]))"

definition parseForwardedForChain :: "string \<Rightarrow> Addr list result" where
  "parseForwardedForChain raw =
     (let values = commaValues raw
      in if values = [] then Inl (Msg ''empty forwarded chain'') else parseEach values [])"

definition parseXForwardedHeaders :: "string \<Rightarrow> string \<Rightarrow> string \<Rightarrow> forwardedMetadata result" where
  "parseXForwardedHeaders xFor xProto xHost =
     (if xFor = [] \<or> xProto = [] \<or> xHost = [] then Inl (Msg ''missing x-forwarded metadata'')
      else case parseForwardedForChain xFor of
        Inl e \<Rightarrow> Inl e
      | Inr forChain \<Rightarrow>
          (case (commaValues xProto, commaValues xHost) of
             (proto0 # protos, host # hosts) \<Rightarrow>
               (let proto = ToLower proto0
                in if list_ex (\<lambda>value. ToLower value \<noteq> proto) protos then Inl (Msg ''conflicting x-forwarded proto'')
                   else if list_ex (\<lambda>value. \<not> EqualFold value host) hosts then Inl (Msg ''conflicting x-forwarded host'')
                   else Inr \<lparr>fm_forChain = forChain, fm_host = host, fm_proto = proto\<rparr>)
           | _ \<Rightarrow> Inl (Msg ''empty x-forwarded metadata'')))"

definition parseForwardedMetadata :: "http_request \<Rightarrow> forwardedMetadata result" where
  "parseForwardedMetadata r =
     (if TrimSpace (rq_Header r ''Forwarded'') \<noteq> [] then Inl (Msg ''forwarded header is not accepted'')
      else parseXForwardedHeaders (TrimSpace (rq_Header r ''X-Forwarded-For''))
        (TrimSpace (rq_Header r ''X-Forwarded-Proto'')) (TrimSpace (rq_Header r ''X-Forwarded-Host'')))"

text \<open>The loop from the right end of the chain.\<close>

fun rightmostUntrusted :: "Prefix list \<Rightarrow> Addr list \<Rightarrow> Addr result" where
  "rightmostUntrusted trustedProxies [] = Inl (Msg ''no untrusted client address'')"
| "rightmostUntrusted trustedProxies (a # rest) =
     (let addr = Unmap a
      in if prefixContains trustedProxies addr then rightmostUntrusted trustedProxies rest else Inr addr)"

definition forwardedClientIP :: "Addr list \<Rightarrow> Prefix list \<Rightarrow> Addr result" where
  "forwardedClientIP chain trustedProxies = rightmostUntrusted trustedProxies (rev chain)"

definition forwardedPublicOrigin :: "string \<Rightarrow> (string \<times> string) result" where
  "forwardedPublicOrigin host = parsePublicOrigin (''https://'' @ host) False"

section \<open>The middleware's decision\<close>

text \<open>\<open>Accept\<close> holds what the context is updated with, \<open>Reject\<close> the logged reason.\<close>

datatype proxy_decision = Reject string | Accept Addr string string

definition proxy_decide :: "Config \<Rightarrow> string \<Rightarrow> http_request \<Rightarrow> proxy_decision" where
  "proxy_decide cfg origin0 r =
     (case remoteAddrIP (rq_RemoteAddr r) of
        Inl _ \<Rightarrow> Reject ''invalid_remote_addr''
      | Inr remoteIP \<Rightarrow>
     if isHealthCheckRequest r \<and> prefixContains (cfg_HealthCheckSources cfg) remoteIP
     then Accept remoteIP ''health'' origin0
     else if cfg_IsDevelopment cfg then Accept remoteIP (clientKey remoteIP) origin0
     else if \<not> prefixContains (cfg_TrustedProxies cfg) remoteIP then Reject ''untrusted_proxy_source''
     else (case parseForwardedMetadata r of
        Inl _ \<Rightarrow> Reject ''invalid_forwarded_metadata''
      | Inr meta \<Rightarrow>
     if fm_proto meta \<noteq> ''https'' then Reject ''forwarded_proto_not_https''
     else (case forwardedPublicOrigin (fm_host meta) of
        Inl _ \<Rightarrow> Reject ''invalid_forwarded_origin''
      | Inr (publicOrigin, publicOriginHost) \<Rightarrow>
     if cfg_PublicOriginHost cfg \<noteq> [] \<and> \<not> EqualFold publicOriginHost (cfg_PublicOriginHost cfg)
     then Reject ''forwarded_host_mismatch''
     else (case forwardedClientIP (fm_forChain meta) (cfg_TrustedProxies cfg) of
        Inl _ \<Rightarrow> Reject ''invalid_forwarded_chain''
      | Inr clientIP \<Rightarrow>
          Accept clientIP (clientKey clientIP)
            (if cfg_PublicOrigin cfg \<noteq> [] then cfg_PublicOrigin cfg else publicOrigin)))))"

text \<open>What is logged as the remote address: \<open>r.RemoteAddr\<close> itself when it cannot be parsed.\<close>

definition remoteText :: "http_request \<Rightarrow> string" where
  "remoteText r = (case remoteAddrIP (rq_RemoteAddr r) of Inl _ \<Rightarrow> rq_RemoteAddr r | Inr remoteIP \<Rightarrow> AddrString remoteIP)"

definition rejectProxyRequest :: "http_request \<Rightarrow> string \<Rightarrow> string \<Rightarrow> writer \<Rightarrow> writer" where
  "rejectProxyRequest r reason remote w =
     writeErrorResponse r 400 ''invalid_request''
       (emit [logSecurityEvent ''proxy_rejected''
          [(''route'', LogText (routePattern (Some r))), (''reason'', LogText reason), (''remote'', LogText remote),
           (''status'', LogInt 400)]] w)"

section \<open>Lemmas\<close>

lemma rightmostUntrusted_Inr:
  "rightmostUntrusted tp xs = Inr a \<longleftrightarrow>
   (\<exists>pre c post. xs = pre @ c # post \<and> a = Unmap c \<and> \<not> prefixContains tp a \<and> (\<forall>x \<in> set pre. prefixContains tp x))"
proof (induction xs)
  case (Cons x xs)
  show ?case
  proof (cases "prefixContains tp x")
    case True
    then have "rightmostUntrusted tp (x # xs) = rightmostUntrusted tp xs" by (simp add: Let_def)
    with Cons.IH True show ?thesis
      by (auto simp: Cons_eq_append_conv) (metis append_Cons list.set_intros(1) set_ConsD)+
  next
    case False
    then have "rightmostUntrusted tp (x # xs) = Inr (Unmap x)" by (simp add: Let_def)
    with False show ?thesis by (fastforce simp: Cons_eq_append_conv)
  qed
qed simp

lemma rightmostUntrusted_append:
  "rightmostUntrusted tp xs = Inr a \<Longrightarrow> rightmostUntrusted tp (xs @ ys) = Inr a"
  by (induction xs) (auto simp: Let_def split: if_splits)

lemma Split_app: "Split (a @ sep # b) sep = Split a sep @ Split b sep"
proof (induction a)
  case (Cons c cs)
  then show ?case by (auto split: list.split)
qed simp

lemma commaValues_append: "commaValues (a @ CHR '','' # b) = commaValues a @ commaValues b"
  by (simp add: commaValues_def Split_app)

lemma parseEach_append:
  "parseEach (xs @ ys) acc = (case parseEach xs acc of Inl e \<Rightarrow> Inl e | Inr c \<Rightarrow> parseEach ys c)"
  by (induction xs arbitrary: acc) (auto split: sum.split)

lemma parseEach_acc:
  "parseEach xs acc = (case parseEach xs [] of Inl e \<Rightarrow> Inl e | Inr c \<Rightarrow> Inr (acc @ c))"
proof (induction xs arbitrary: acc)
  case (Cons x xs)
  show ?case
  proof (cases "parseForwardedAddr x")
    case (Inr a)
    then show ?thesis
      using Cons.IH [of "acc @ [a]"] Cons.IH [of "[a]"] by (simp split: sum.split)
  qed simp
qed simp

lemma parseForwardedForChain_spoof:
  assumes "parseForwardedForChain v = Inr chain" "parseForwardedForChain (spoof @ CHR '','' # v) = Inr chain'"
  shows "\<exists>pre. chain' = pre @ chain"
proof -
  from assms(1) have v: "parseEach (commaValues v) [] = Inr chain"
    by (simp add: parseForwardedForChain_def Let_def split: if_splits)
  from assms(2) have "parseEach (commaValues spoof @ commaValues v) [] = Inr chain'"
    by (simp add: parseForwardedForChain_def Let_def commaValues_append split: if_splits)
  then obtain pre where "parseEach (commaValues spoof) [] = Inr pre" "parseEach (commaValues v) pre = Inr chain'"
    by (auto simp: parseEach_append split: sum.splits)
  with v parseEach_acc [of "commaValues v" pre] show ?thesis by auto
qed

lemma forwardedClientIP_spoof:
  assumes "forwardedClientIP chain tp = Inr a"
  shows "forwardedClientIP (pre @ chain) tp = Inr a"
  using assms by (simp add: forwardedClientIP_def rightmostUntrusted_append)


lemma parseXForwardedHeaders_Inr:
  assumes "parseXForwardedHeaders xFor xProto xHost = Inr meta"
  shows "parseForwardedForChain xFor = Inr (fm_forChain meta)"
    "\<forall>v \<in> set (commaValues xProto). ToLower v = fm_proto meta" "commaValues xProto \<noteq> []"
    "fm_host meta \<in> set (commaValues xHost)" "\<forall>v \<in> set (commaValues xHost). EqualFold v (fm_host meta)"
proof -
  from assms obtain chain proto0 protos host hosts where c: "parseForwardedForChain xFor = Inr chain"
    "commaValues xProto = proto0 # protos" "commaValues xHost = host # hosts"
    by (auto simp: parseXForwardedHeaders_def split: if_splits sum.splits list.splits)
  with assms have "\<not> list_ex (\<lambda>value. ToLower value \<noteq> ToLower proto0) protos"
    "\<not> list_ex (\<lambda>value. \<not> EqualFold value host) hosts"
    "meta = \<lparr>fm_forChain = chain, fm_host = host, fm_proto = ToLower proto0\<rparr>"
    by (auto simp: parseXForwardedHeaders_def Let_def split: if_splits)
  with c show "parseForwardedForChain xFor = Inr (fm_forChain meta)"
    "\<forall>v \<in> set (commaValues xProto). ToLower v = fm_proto meta" "commaValues xProto \<noteq> []"
    "fm_host meta \<in> set (commaValues xHost)" "\<forall>v \<in> set (commaValues xHost). EqualFold v (fm_host meta)"
    by (auto simp: list_ex_iff EqualFold_def)
qed

lemma parseForwardedMetadata_Inr:
  "parseForwardedMetadata r = Inr meta \<longleftrightarrow> TrimSpace (rq_Header r ''Forwarded'') = [] \<and>
   parseXForwardedHeaders (TrimSpace (rq_Header r ''X-Forwarded-For''))
     (TrimSpace (rq_Header r ''X-Forwarded-Proto'')) (TrimSpace (rq_Header r ''X-Forwarded-Host'')) = Inr meta"
  by (simp add: parseForwardedMetadata_def)

lemma proxy_decide_Accept:
  assumes "proxy_decide cfg o0 r = Accept ip key origin" "\<not> cfg_IsDevelopment cfg"
    and "\<not> isHealthCheckRequest r"
  obtains remoteIP meta po ph where "remoteAddrIP (rq_RemoteAddr r) = Inr remoteIP"
    "prefixContains (cfg_TrustedProxies cfg) remoteIP" "parseForwardedMetadata r = Inr meta"
    "fm_proto meta = ''https''" "forwardedPublicOrigin (fm_host meta) = Inr (po, ph)"
    "cfg_PublicOriginHost cfg = [] \<or> EqualFold ph (cfg_PublicOriginHost cfg)"
    "forwardedClientIP (fm_forChain meta) (cfg_TrustedProxies cfg) = Inr ip" "key = clientKey ip"
    "origin = (if cfg_PublicOrigin cfg \<noteq> [] then cfg_PublicOrigin cfg else po)"
proof -
  note A = assms(1) [unfolded proxy_decide_def]
  from A obtain remoteIP where remote: "remoteAddrIP (rq_RemoteAddr r) = Inr remoteIP"
    by (cases "remoteAddrIP (rq_RemoteAddr r)") simp_all
  from A assms(2,3) remote have t: "prefixContains (cfg_TrustedProxies cfg) remoteIP"
    by (simp split: if_split_asm)
  from A assms(2,3) remote t obtain meta where meta: "parseForwardedMetadata r = Inr meta"
    by (cases "parseForwardedMetadata r") simp_all
  from A assms(2,3) remote t meta have p: "fm_proto meta = ''https''" by (simp split: if_split_asm)
  from A assms(2,3) remote t meta p obtain po ph where o: "forwardedPublicOrigin (fm_host meta) = Inr (po, ph)"
    by (cases "forwardedPublicOrigin (fm_host meta)") auto
  from A assms(2,3) remote t meta p o have h: "cfg_PublicOriginHost cfg = [] \<or> EqualFold ph (cfg_PublicOriginHost cfg)"
    by (simp split: if_split_asm)
  then have "\<not> (cfg_PublicOriginHost cfg \<noteq> [] \<and> \<not> EqualFold ph (cfg_PublicOriginHost cfg))" by blast
  with A assms(2,3) remote t meta p o obtain ip' where
    c: "forwardedClientIP (fm_forChain meta) (cfg_TrustedProxies cfg) = Inr ip'"
    by (cases "forwardedClientIP (fm_forChain meta) (cfg_TrustedProxies cfg)") auto
  from A assms(2,3) remote t meta p o h c have "ip = ip'" "key = clientKey ip'"
    "origin = (if cfg_PublicOrigin cfg \<noteq> [] then cfg_PublicOrigin cfg else po)"
    by (auto split: if_split_asm)
  with that remote t meta p o h c show thesis by blast
qed

end
