(* ===== verification/RateLimiter.thy ===== *)
theory RateLimiter
  imports Config Runs "HOL-Library.AList" "HOL-Library.Multiset"
begin

text \<open>
  \<open>rate_limiter.go\<close>: one token bucket per client key, at most \<open>maxBuckets\<close> of them. The
  token bucket itself is \<open>golang.org/x/time/rate\<close>, the parameter \<open>tokenlib\<close>. The map of
  buckets is an association list; the order in which Go visits a map is the parameter
  \<open>iter\<close>, any permutation. The mutex makes each call atomic.
\<close>

section \<open>State\<close>

definition rateLimiterSweepInterval :: duration where "rateLimiterSweepInterval = 5 * Minute"
definition rateLimiterMinBucketTTL :: duration where "rateLimiterMinBucketTTL = Hour"
definition rateLimiterSaturationIdleAge :: duration where "rateLimiterSaturationIdleAge = Minute"
definition rateLimiterMaxBuckets :: int where "rateLimiterMaxBuckets = 4096"

lemma limiter_constants [go_simps]:
  "rateLimiterSweepInterval = 300000000000" "rateLimiterMinBucketTTL = 3600000000000"
  "rateLimiterSaturationIdleAge = 60000000000" "rateLimiterMaxBuckets = 4096"
  by (simp_all add: rateLimiterSweepInterval_def rateLimiterMinBucketTTL_def rateLimiterSaturationIdleAge_def
      rateLimiterMaxBuckets_def duration_values)

record 'l tokenlib =
  newBucketLimiter :: "rat \<Rightarrow> int \<Rightarrow> 'l"
  AllowN1 :: "'l \<Rightarrow> time \<Rightarrow> bool \<times> 'l"
  TokensAt :: "'l \<Rightarrow> time \<Rightarrow> rat"

record 'l rateBucket =
  rb_limiter :: 'l
  rb_lastSeen :: time
  rb_ttl :: duration

type_synonym 'l buckets = "(string \<times> 'l rateBucket) list"

record 'l RateLimiter =
  rl_buckets :: "'l buckets"
  rl_spec :: RateSpec
  rl_lastSweep :: time
  rl_maxBuckets :: int

definition NewRateLimiter :: "RateSpec \<Rightarrow> 'l RateLimiter" where
  "NewRateLimiter spec = \<lparr>rl_buckets = [], rl_spec = spec, rl_lastSweep = 0, rl_maxBuckets = rateLimiterMaxBuckets\<rparr>"

section \<open>Operations\<close>

text \<open>\<open>Duration.Seconds\<close>\<close>

definition Seconds :: "duration \<Rightarrow> rat" where
  "Seconds d = float64 (float64 (of_int (d div Second)) + float64 (float64 (of_int (d mod Second)) / 1000000000))"

definition rateLimit :: "RateSpec \<Rightarrow> rat" where
  "rateLimit spec = float64 (float64 (of_int (rs_Requests spec)) / Seconds (rs_Window spec))"

definition rateBucketTTL :: "RateSpec \<Rightarrow> duration" where
  "rateBucketTTL spec =
     (let ttl = int64 (2 * rs_Window spec)
      in if ttl < rateLimiterMinBucketTTL then rateLimiterMinBucketTTL else ttl)"

fun oldestIdle :: "string \<Rightarrow> time \<Rightarrow> 'l buckets \<Rightarrow> string \<times> time \<Rightarrow> string \<times> time" where
  "oldestIdle newBucketKey now [] best = best"
| "oldestIdle newBucketKey now ((key, bucket) # rest) (oldestKey, oldestSeen) =
     (if key = newBucketKey \<or> time_Sub now (rb_lastSeen bucket) < rateLimiterSaturationIdleAge
      then oldestIdle newBucketKey now rest (oldestKey, oldestSeen)
      else if oldestKey = [] \<or> Before (rb_lastSeen bucket) oldestSeen
      then oldestIdle newBucketKey now rest (key, rb_lastSeen bucket)
      else oldestIdle newBucketKey now rest (oldestKey, oldestSeen))"

definition ensureBucketCapacity ::
  "('l buckets \<Rightarrow> 'l buckets) \<Rightarrow> 'l RateLimiter \<Rightarrow> string \<Rightarrow> time \<Rightarrow> bool \<times> 'l RateLimiter" where
  "ensureBucketCapacity iter l newBucketKey now =
     (if rl_maxBuckets l \<le> 0 \<or> int (length (rl_buckets l)) < rl_maxBuckets l then (True, l)
      else (let (oldestKey, _) = oldestIdle newBucketKey now (iter (rl_buckets l)) ([], 0)
            in if oldestKey \<noteq> [] then (True, l\<lparr>rl_buckets := AList.delete oldestKey (rl_buckets l)\<rparr>)
               else (False, l)))"

definition sweepExpiredBuckets :: "'l RateLimiter \<Rightarrow> time \<Rightarrow> 'l RateLimiter" where
  "sweepExpiredBuckets l now =
     (if \<not> IsZero (rl_lastSweep l) \<and> time_Sub now (rl_lastSweep l) < rateLimiterSweepInterval then l
      else l\<lparr>rl_lastSweep := now,
             rl_buckets := filter (\<lambda>(key, bucket). \<not> time_Sub now (rb_lastSeen bucket) \<ge> rb_ttl bucket) (rl_buckets l)\<rparr>)"

definition retryAfter :: "'l tokenlib \<Rightarrow> RateSpec \<Rightarrow> 'l \<Rightarrow> time \<Rightarrow> duration" where
  "retryAfter L spec limiter now =
     (let tokens0 = TokensAt L limiter now;
          tokens = (if tokens0 < 0 then 0 else tokens0);
          needed = float64 (1 - tokens);
          retry = float_to_int (float64 (float64 (of_int Second * needed) / rateLimit spec))
      in if retry < Second then Second else retry)"

definition AllowRequest ::
  "'l tokenlib \<Rightarrow> ('l buckets \<Rightarrow> 'l buckets) \<Rightarrow> 'l RateLimiter \<Rightarrow> string \<Rightarrow> time \<Rightarrow> (bool \<times> duration) \<times> 'l RateLimiter" where
  "AllowRequest L iter l0 key now =
     (let l = sweepExpiredBuckets l0 now;
          (room, l, bucket) =
            (case map_of (rl_buckets l) key of
               Some bucket \<Rightarrow> (True, l, bucket)
             | None \<Rightarrow>
                 (let (room, l) = ensureBucketCapacity iter l key now
                  in (room, l, \<lparr>rb_limiter = newBucketLimiter L (rateLimit (rl_spec l)) (rs_Burst (rl_spec l)),
                        rb_lastSeen = now, rb_ttl = rateBucketTTL (rl_spec l)\<rparr>)))
      in if \<not> room then ((False, Second), l)
         else
           (let (ok, limiter) = AllowN1 L (rb_limiter bucket) now;
                bucket = bucket\<lparr>rb_lastSeen := now, rb_limiter := limiter\<rparr>;
                l = l\<lparr>rl_buckets := AList.update key bucket (rl_buckets l)\<rparr>
            in if ok then ((True, 0), l) else ((False, retryAfter L (rl_spec l) limiter now), l)))"

section \<open>Invariant\<close>

definition rl_inv :: "'l RateLimiter \<Rightarrow> bool" where
  "rl_inv l \<longleftrightarrow> distinct (map fst (rl_buckets l)) \<and>
     (0 < rl_maxBuckets l \<longrightarrow> int (length (rl_buckets l)) \<le> rl_maxBuckets l) \<and>
     (\<forall>(k, b) \<in> set (rl_buckets l). rateLimiterMinBucketTTL \<le> rb_ttl b)"

lemma rateBucketTTL_min: "rateLimiterMinBucketTTL \<le> rateBucketTTL spec"
  by (simp add: rateBucketTTL_def Let_def)

lemma oldestIdle_key:
  "oldestIdle k now bs (ok, os) = (k', s') \<Longrightarrow>
   k' = ok \<or> (\<exists>b. (k', b) \<in> set bs \<and> k' \<noteq> k \<and> rateLimiterSaturationIdleAge \<le> time_Sub now (rb_lastSeen b))"
proof (induction k now bs "(ok, os)" arbitrary: ok os rule: oldestIdle.induct)
  case (2 k now key bucket rest ok os)
  then show ?case by (fastforce split: if_splits)
qed simp

lemma oldestIdle_keeps: "ok \<noteq> [] \<Longrightarrow> [] \<notin> fst ` set bs \<Longrightarrow> fst (oldestIdle k now bs (ok, os)) \<noteq> []"
  by (induction k now bs "(ok, os)" arbitrary: ok os rule: oldestIdle.induct) (auto split: if_splits)

lemma oldestIdle_finds:
  assumes "[] \<notin> fst ` set bs" "(j, b) \<in> set bs" "j \<noteq> k" "rateLimiterSaturationIdleAge \<le> time_Sub now (rb_lastSeen b)"
  shows "fst (oldestIdle k now bs (ok, os)) \<noteq> []"
  using assms
proof (induction k now bs "(ok, os)" arbitrary: ok os rule: oldestIdle.induct)
  case (2 k now key bucket rest ok os)
  show ?case
  proof (cases "(j, b) = (key, bucket)")
    case True
    with 2(4-7) oldestIdle_keeps [of key rest k now "rb_lastSeen bucket"] oldestIdle_keeps [of ok rest k now os]
    show ?thesis by (auto simp: not_less)
  next
    case False
    with 2 show ?thesis by (auto split: if_splits)
  qed
qed simp


section \<open>What the operations do\<close>

text \<open>\<open>bucket_of l k\<close> is the bucket a client has.\<close>

definition bucket_of :: "'l RateLimiter \<Rightarrow> string \<rightharpoonup> 'l rateBucket" where
  "bucket_of l k = map_of (rl_buckets l) k"

lemma sweep_fields [simp]:
  "rl_spec (sweepExpiredBuckets l now) = rl_spec l" "rl_maxBuckets (sweepExpiredBuckets l now) = rl_maxBuckets l"
  by (simp_all add: sweepExpiredBuckets_def)

lemma distinct_map_filter: "distinct (map f xs) \<Longrightarrow> distinct (map f (filter P xs))"
  by (induction xs) auto

lemma sweep_inv: "rl_inv l \<Longrightarrow> rl_inv (sweepExpiredBuckets l now)"
  by (auto simp: rl_inv_def sweepExpiredBuckets_def distinct_map_filter
      intro: order_trans [OF _ length_filter_le] order_trans [OF of_nat_mono [OF length_filter_le]])

text \<open>A bucket seen within the last hour survives a sweep.\<close>

lemma sweep_bucket:
  assumes "rl_inv l"
  shows "bucket_of (sweepExpiredBuckets l now) k = bucket_of l k \<or>
    (bucket_of (sweepExpiredBuckets l now) k = None \<and>
     (\<exists>b. bucket_of l k = Some b \<and> rateLimiterMinBucketTTL \<le> time_Sub now (rb_lastSeen b)))"
proof -
  have d: "distinct (map fst (rl_buckets l))" using assms by (simp add: rl_inv_def)
  have "rateLimiterMinBucketTTL \<le> rb_ttl b" if "bucket_of l k = Some b" for b
    using that assms map_of_SomeD by (fastforce simp: bucket_of_def rl_inv_def)
  then show ?thesis
    by (auto simp: bucket_of_def sweepExpiredBuckets_def map_of_filter_distinct [OF d] split: option.splits
        intro: order_trans)
qed

lemma capacity_fields:
  assumes "ensureBucketCapacity iter l key now = (room, l')"
  shows "rl_spec l' = rl_spec l" "rl_maxBuckets l' = rl_maxBuckets l" "rl_lastSweep l' = rl_lastSweep l"
  using assms by (auto simp: ensureBucketCapacity_def Let_def split: if_splits prod.splits)

text \<open>Making room removes at most one bucket, of another client, idle for at least a minute.\<close>

lemma capacity_cases:
  assumes "ensureBucketCapacity iter l key now = (room, l')" "\<forall>xs. mset (iter xs) = mset xs"
  obtains (free) "room" "l' = l" "rl_maxBuckets l \<le> 0 \<or> int (length (rl_buckets l)) < rl_maxBuckets l"
  | (evicted) k b where "room" "k \<noteq> []" "k \<noteq> key" "(k, b) \<in> set (rl_buckets l)"
      "rateLimiterSaturationIdleAge \<le> time_Sub now (rb_lastSeen b)"
      "l' = l\<lparr>rl_buckets := AList.delete k (rl_buckets l)\<rparr>"
      "\<not> int (length (rl_buckets l)) < rl_maxBuckets l"
  | (saturated) "\<not> room" "l' = l" "0 < rl_maxBuckets l" "rl_maxBuckets l \<le> int (length (rl_buckets l))"
      "fst (oldestIdle key now (iter (rl_buckets l)) ([], 0)) = []"
proof -
  obtain k s where o: "oldestIdle key now (iter (rl_buckets l)) ([], 0) = (k, s)" by fastforce
  have set: "set (iter (rl_buckets l)) = set (rl_buckets l)"
    using assms(2) by (metis mset_eq_setD)
  show thesis
  proof (cases "rl_maxBuckets l \<le> 0 \<or> int (length (rl_buckets l)) < rl_maxBuckets l")
    case True
    with assms(1) free show ?thesis by (simp add: ensureBucketCapacity_def)
  next
    case False
    show ?thesis
    proof (cases "k = []")
      case True
      with False assms(1) o show ?thesis by (intro saturated) (simp_all add: ensureBucketCapacity_def)
    next
      case k: False
      with oldestIdle_key [OF o] obtain b where "(k, b) \<in> set (rl_buckets l)" "k \<noteq> key"
        "rateLimiterSaturationIdleAge \<le> time_Sub now (rb_lastSeen b)"
        by (auto simp: set)
      with False k assms(1) o show ?thesis
        by (intro evicted [of k b]) (simp_all add: ensureBucketCapacity_def)
    qed
  qed
qed

lemma length_delete_less:
  assumes "(k, b) \<in> set xs" "distinct (map fst xs)"
  shows "length (AList.delete k xs) < length xs"
proof -
  have "fst (k, b) \<in> set (map fst xs)" using assms(1) by force
  then show ?thesis
    unfolding AList.delete_eq using assms(1) by (intro length_filter_less [of "(k, b)"]) auto
qed

lemma length_update_le: "length (AList.update k b xs) \<le> Suc (length xs)"
  by (induction xs) auto

lemma length_update_same: "map_of xs k \<noteq> None \<Longrightarrow> length (AList.update k b xs) = length xs"
  by (induction xs) auto

lemma set_update_subset: "(j, c) \<in> set (AList.update k b xs) \<Longrightarrow> (j, c) = (k, b) \<or> (j, c) \<in> set xs"
  by (induction xs) (auto split: if_splits)

text \<open>A call: refused for want of room, or an update of the client's bucket.\<close>

lemma AllowRequest_cases:
  assumes "AllowRequest L iter l key now = (out, l')" "\<forall>xs. mset (iter xs) = mset xs" "rl_inv l"
  obtains (saturated) "out = (False, Second)" "l' = sweepExpiredBuckets l now" "bucket_of l' key = None"
      "ensureBucketCapacity iter l' key now = (False, l')"
  | (served) l1 b ok limiter where "AllowN1 L (rb_limiter b) now = (ok, limiter)"
      "l' = l1\<lparr>rl_buckets := AList.update key (b\<lparr>rb_lastSeen := now, rb_limiter := limiter\<rparr>) (rl_buckets l1)\<rparr>"
      "if ok then out = (True, 0) else out = (False, retryAfter L (rl_spec l) limiter now)"
      "rateLimiterMinBucketTTL \<le> rb_ttl b" "rl_maxBuckets l1 = rl_maxBuckets l"
      "(l1 = sweepExpiredBuckets l now \<and> bucket_of l1 key = Some b) \<or>
       (bucket_of (sweepExpiredBuckets l now) key = None \<and> ensureBucketCapacity iter (sweepExpiredBuckets l now) key now = (True, l1))"
proof -
  let ?l = "sweepExpiredBuckets l now"
  note A = assms(1) [unfolded AllowRequest_def Let_def]
  show thesis
  proof (cases "map_of (rl_buckets ?l) key")
    case (Some b)
    obtain ok limiter where a: "AllowN1 L (rb_limiter b) now = (ok, limiter)" by fastforce
    have "rateLimiterMinBucketTTL \<le> rb_ttl b"
      using Some sweep_inv [OF assms(3), of now] map_of_SomeD by (fastforce simp: rl_inv_def)
    with A Some a show ?thesis
      by (intro served [of b ok limiter ?l]) (auto simp: bucket_of_def split: if_splits)
  next
    case None
    obtain room l1 where c: "ensureBucketCapacity iter ?l key now = (room, l1)" by fastforce
    show ?thesis
    proof (cases room)
      case False
      from c assms(2) have "l1 = ?l" by (cases rule: capacity_cases) (use False in auto)
      with A None c False show ?thesis by (intro saturated) (simp_all add: bucket_of_def)
    next
      case True
      let ?b = "\<lparr>rb_limiter = newBucketLimiter L (rateLimit (rl_spec l)) (rs_Burst (rl_spec l)),
        rb_lastSeen = now, rb_ttl = rateBucketTTL (rl_spec l)\<rparr>"
      obtain ok limiter where a: "AllowN1 L (rb_limiter ?b) now = (ok, limiter)" by fastforce
      note F = capacity_fields [OF c]
      from A None c True a F rateBucketTTL_min [of "rl_spec l"] show ?thesis
        by (intro served [of ?b ok limiter l1]) (auto simp: bucket_of_def split: if_splits)
    qed
  qed
qed


lemma AllowRequest_inv:
  assumes "\<forall>xs. mset (iter xs) = mset xs" "rl_inv l" "AllowRequest L iter l key now = (out, l')"
  shows "rl_inv l'"
  using assms(3,1,2)
proof (cases rule: AllowRequest_cases)
  case saturated
  with assms(2) show ?thesis by (simp add: sweep_inv)
next
  case (served l1 b ok limiter)
  let ?l = "sweepExpiredBuckets l now"
  have i: "rl_inv ?l" by (rule sweep_inv [OF assms(2)])
  have l1: "distinct (map fst (rl_buckets l1))" "set (rl_buckets l1) \<subseteq> set (rl_buckets ?l)"
    "0 < rl_maxBuckets l \<longrightarrow> (if bucket_of l1 key = None then int (length (rl_buckets l1)) < rl_maxBuckets l
       else int (length (rl_buckets l1)) \<le> rl_maxBuckets l)"
  proof (atomize (full), goal_cases)
    case 1
    show ?case
      using served(6)
    proof
      assume "l1 = ?l \<and> bucket_of l1 key = Some b"
      with i show ?thesis by (auto simp: rl_inv_def)
    next
      assume n: "bucket_of ?l key = None \<and> ensureBucketCapacity iter ?l key now = (True, l1)"
      then have "ensureBucketCapacity iter ?l key now = (True, l1)" ..
      then show ?thesis
        using assms(1)
      proof (cases rule: capacity_cases)
        case free
        with i n show ?thesis by (auto simp: rl_inv_def)
      next
        case (evicted k c)
        have d: "distinct (map fst (rl_buckets ?l))" using i by (simp add: rl_inv_def)
        have "bucket_of l1 key = None"
          using evicted n by (simp add: bucket_of_def delete_conv')
        moreover have "length (rl_buckets l1) < length (rl_buckets ?l)"
          using length_delete_less [OF evicted(4) d] evicted(6) by simp
        moreover have "distinct (map fst (rl_buckets l1))" "set (rl_buckets l1) \<subseteq> set (rl_buckets ?l)"
          using d evicted(6) by (simp_all add: AList.delete_eq distinct_map_filter)
        ultimately show ?thesis using i by (auto simp: rl_inv_def)
      qed simp
    qed
  qed
  have "int (length (rl_buckets l')) \<le> rl_maxBuckets l" if "0 < rl_maxBuckets l"
  proof (cases "bucket_of l1 key")
    case None
    with that l1(3) served(2) length_update_le [of key "b\<lparr>rb_lastSeen := now, rb_limiter := limiter\<rparr>" "rl_buckets l1"]
    show ?thesis by simp
  next
    case (Some c)
    with that l1(3) served(2) length_update_same [of "rl_buckets l1" key] show ?thesis
      by (simp add: bucket_of_def)
  qed
  moreover have "rateLimiterMinBucketTTL \<le> rb_ttl c" if "(k, c) \<in> set (rl_buckets l')" for k c
    using that served(2,4) l1(2) i by (auto simp: rl_inv_def dest!: set_update_subset)
  moreover have "distinct (map fst (rl_buckets l'))" "rl_maxBuckets l' = rl_maxBuckets l"
    using l1(1) served(2,5) by (simp_all add: distinct_update)
  ultimately show ?thesis by (auto simp: rl_inv_def)
qed

lemma AllowRequest_max:
  assumes "\<forall>xs. mset (iter xs) = mset xs" "rl_inv l" "AllowRequest L iter l key now = (out, l')"
  shows "rl_maxBuckets l' = rl_maxBuckets l"
  using assms(3,1,2) by (cases rule: AllowRequest_cases) simp_all

interpretation limiter_runs: kept_invariant "\<lambda>(key, now) l. AllowRequest L iter l key now"
    "\<lambda>_. \<forall>xs. mset (iter xs) = mset xs" "\<lambda>l. rl_inv l \<and> rl_maxBuckets l = m" for L iter m
  by unfold_locales (auto intro: AllowRequest_inv simp: AllowRequest_max)

lemma served_other:
  assumes "\<forall>xs. mset (iter xs) = mset xs" "rl_inv l" "AllowRequest L iter l key now = (out, l')" "j \<noteq> key"
  shows "bucket_of l' j = bucket_of l j \<or>
    (bucket_of l' j = None \<and> (\<exists>b. bucket_of l j = Some b \<and> Minute \<le> time_Sub now (rb_lastSeen b)))"
proof -
  let ?l = "sweepExpiredBuckets l now"
  have s: "bucket_of ?l j = bucket_of l j \<or>
      (bucket_of ?l j = None \<and> (\<exists>b. bucket_of l j = Some b \<and> Minute \<le> time_Sub now (rb_lastSeen b)))"
    using sweep_bucket [OF assms(2), of now j] by (auto simp: go_simps)
  from assms(3,1,2) show ?thesis
  proof (cases rule: AllowRequest_cases)
    case saturated
    with s show ?thesis by simp
  next
    case (served l1 b ok limiter)
    then have l': "bucket_of l' j = bucket_of l1 j"
      using assms(4) by (simp add: bucket_of_def update_conv')
    from served(6) show ?thesis
    proof
      assume "bucket_of ?l key = None \<and> ensureBucketCapacity iter ?l key now = (True, l1)"
      then have "ensureBucketCapacity iter ?l key now = (True, l1)" ..
      then show ?thesis
        using assms(1)
      proof (cases rule: capacity_cases)
        case free
        with l' s show ?thesis by simp
      next
        case (evicted k c)
        have "distinct (map fst (rl_buckets ?l))"
          using sweep_inv [OF assms(2), of now] by (simp add: rl_inv_def)
        with evicted(4) have "bucket_of ?l k = Some c" by (simp add: bucket_of_def)
        moreover have "bucket_of l1 j = (if j = k then None else bucket_of ?l j)"
          using evicted(6) by (simp add: bucket_of_def delete_conv')
        ultimately show ?thesis
          using l' s evicted(5) by (auto simp: go_simps)
      qed simp
    qed (use l' s in simp)
  qed
qed


lemma kept_client:
  assumes "\<forall>xs. mset (iter xs) = mset xs" "rl_inv l" "AllowRequest L iter l key now = (out, l')"
    and "bucket_of l key = Some b" "time_Sub now (rb_lastSeen b) < Hour"
  shows "fst out = fst (AllowN1 L (rb_limiter b) now)"
proof -
  have k: "bucket_of (sweepExpiredBuckets l now) key = Some b"
    using sweep_bucket [OF assms(2), of now key] assms(4,5) by (auto simp: go_simps)
  from assms(3,1,2) show ?thesis
  proof (cases rule: AllowRequest_cases)
    case saturated
    with k show ?thesis by simp
  next
    case (served l1 c ok limiter)
    then have "c = b" using k by auto
    with served show ?thesis by (auto split: if_splits)
  qed
qed

section \<open>A sample token bucket\<close>

definition ex_tokens :: "int tokenlib" where
  "ex_tokens = \<lparr>newBucketLimiter = (\<lambda>r burst. burst), AllowN1 = (\<lambda>n t. if 0 < n then (True, n - 1) else (False, n)),
     TokensAt = (\<lambda>n t. of_int n)\<rparr>"

definition ex_limiter :: "int RateLimiter" where
  "ex_limiter = \<lparr>rl_buckets = [(''a'', \<lparr>rb_limiter = 1, rb_lastSeen = Hour, rb_ttl = Hour\<rparr>),
       (''b'', \<lparr>rb_limiter = 0, rb_lastSeen = 2 * Hour, rb_ttl = Hour\<rparr>)],
     rl_spec = \<lparr>rs_Requests = 60, rs_Window = Minute, rs_Burst = 120\<rparr>, rl_lastSweep = 2 * Hour, rl_maxBuckets = 2\<rparr>"

lemma ex_limiter_inv: "rl_inv ex_limiter"
  by (simp add: rl_inv_def ex_limiter_def go_simps)

section \<open>Properties\<close>

text \<open>C36: however many clients send requests, in whatever order and at whatever times, the
  limiter started by the server never holds more than 4096 buckets, one per client, each
  with a time to live of at least an hour.\<close>

theorem limiter_bounded:
  fixes L :: "'l tokenlib"
  assumes "\<forall>xs. mset (iter xs) = mset xs"
    and "run_all (\<lambda>(key, now) l. AllowRequest L iter l key now) reqs (NewRateLimiter spec) = (lg, l)"
  shows "length (rl_buckets l) \<le> 4096 \<and> distinct (map fst (rl_buckets l)) \<and>
    (\<forall>(k, b) \<in> set (rl_buckets l). Hour \<le> rb_ttl b)"
proof -
  have "rl_inv (NewRateLimiter spec :: 'l RateLimiter) \<and> rl_maxBuckets (NewRateLimiter spec :: 'l RateLimiter) = rateLimiterMaxBuckets"
    unfolding rl_inv_def NewRateLimiter_def by (simp add: go_simps)
  with limiter_runs.run_inv [OF _ _ assms(2)] assms(1)
  have "rl_inv l \<and> rl_maxBuckets l = rateLimiterMaxBuckets" by simp
  then show ?thesis by (auto simp: rl_inv_def go_simps)
qed

theorem limiter_bounded_witness:
  "\<exists>lg l. run_all (\<lambda>(key, now) l. AllowRequest ex_tokens rev l key now) [(''a'', Hour), (''b'', Hour)]
     (NewRateLimiter (rl_spec ex_limiter)) = (lg, l) \<and> length (rl_buckets l) \<le> 4096"
proof -
  obtain lg l where r: "run_all (\<lambda>(key, now) l. AllowRequest ex_tokens rev l key now) [(''a'', Hour), (''b'', Hour)]
      (NewRateLimiter (rl_spec ex_limiter)) = (lg, l)" by fastforce
  have "\<forall>xs :: int buckets. mset (rev xs) = mset xs" by simp
  from limiter_bounded [OF this r] r show ?thesis by blast
qed

text \<open>C37: clients do not disturb one another. A request of one client leaves the bucket of
  another as it is, or drops it after at least a minute of idleness; and a client seen
  within the last hour is judged by its own token bucket alone, also when the limiter has
  no room for new clients.\<close>

theorem limiter_isolation:
  assumes "\<forall>xs. mset (iter xs) = mset xs" "rl_inv l" "AllowRequest L iter l key now = (out, l')"
  shows "(\<forall>j. j \<noteq> key \<longrightarrow> bucket_of l' j = bucket_of l j \<or>
      (bucket_of l' j = None \<and> (\<exists>b. bucket_of l j = Some b \<and> Minute \<le> time_Sub now (rb_lastSeen b)))) \<and>
    (\<forall>b. bucket_of l key = Some b \<and> time_Sub now (rb_lastSeen b) < Hour \<longrightarrow>
      fst out = fst (AllowN1 L (rb_limiter b) now))"
  using served_other [OF assms] kept_client [OF assms] by blast

theorem limiter_isolation_witness:
  "\<exists>out l'. AllowRequest ex_tokens rev ex_limiter ''b'' (2 * Hour) = (out, l') \<and> \<not> fst out \<and>
     (bucket_of l' ''a'' = bucket_of ex_limiter ''a'' \<or> bucket_of l' ''a'' = None)"
proof -
  obtain out l' where r: "AllowRequest ex_tokens rev ex_limiter ''b'' (2 * Hour) = (out, l')" by fastforce
  have p: "\<forall>xs :: int buckets. mset (rev xs) = mset xs" by simp
  have "bucket_of ex_limiter ''b'' = Some \<lparr>rb_limiter = 0, rb_lastSeen = 2 * Hour, rb_ttl = Hour\<rparr>"
    by (simp add: bucket_of_def ex_limiter_def)
  with limiter_isolation [OF p ex_limiter_inv r] have "fst out = fst (AllowN1 ex_tokens 0 (2 * Hour))"
    by (simp add: time_Sub_def minInt64_def maxInt64_def go_simps)
  then have "\<not> fst out" by (simp add: ex_tokens_def)
  have ne: "''a'' \<noteq> ''b''" by simp
  have "bucket_of l' ''a'' = bucket_of ex_limiter ''a'' \<or> bucket_of l' ''a'' = None"
    using limiter_isolation [OF p ex_limiter_inv r, THEN conjunct1, rule_format, OF ne]
    by (elim disjE conjE) (rule disjI1, assumption, rule disjI2, assumption)
  with r \<open>\<not> fst out\<close> show ?thesis by blast
qed




text \<open>The time to live of a bucket is twice the window, and at least an hour, for every
  window that can be doubled in 64 bits.\<close>

lemma rateBucketTTL_exact:
  assumes "0 < rs_Window spec" "2 * rs_Window spec \<le> maxInt64"
  shows "rateBucketTTL spec = max Hour (2 * rs_Window spec)"
  using assms by (simp add: rateBucketTTL_def int64_id minInt64_def rateLimiterMinBucketTTL_def Let_def max_def)

text \<open>The accepted rates include windows whose time to live is too short. For
  \<open>80000000/1281024h,100\<close> twice the window wraps around in 64 bits and the bucket lives one
  hour; for \<open>1/1m,5000\<close> an idle client is forgotten after the hour in which it regains 60
  of its 5000 tokens, and starts again with all of them.\<close>

lemma rateBucketTTL_short:
  "validateRateSpec \<lparr>rs_Requests = 80000000, rs_Window = 1281024 * Hour, rs_Burst = 100\<rparr> = Inr () \<and>
   rateBucketTTL \<lparr>rs_Requests = 80000000, rs_Window = 1281024 * Hour, rs_Burst = 100\<rparr> = Hour \<and>
   validateRateSpec \<lparr>rs_Requests = 1, rs_Window = Minute, rs_Burst = 5000\<rparr> = Inr () \<and>
   rateBucketTTL \<lparr>rs_Requests = 1, rs_Window = Minute, rs_Burst = 5000\<rparr> = 60 * Minute"
  by code_simp

end
