(* ===== verification/StaticAssets.thy ===== *)
theory StaticAssets
  imports Http GoCrypto
begin

text \<open>
  \<open>static_assets.go\<close>: which file of the embedded file system a static path names, and the
  version that makes its URL change with the content. \<open>path.Clean\<close> is modelled on the
  elements of the path; the file server is a parameter.
\<close>

section \<open>path.Clean\<close>

text \<open>The elements kept so far are a stack, the last one on top.\<close>

fun cleanElements :: "bool \<Rightarrow> string list \<Rightarrow> string list \<Rightarrow> string list" where
  "cleanElements rooted stack [] = rev stack"
| "cleanElements rooted stack (e # es) =
     (if e = [] \<or> e = ''.'' then cleanElements rooted stack es
      else if e = ''..'' then
        (case stack of
           elem # below \<Rightarrow> if elem \<noteq> ''..'' then cleanElements rooted below es
             else cleanElements rooted (e # stack) es
         | [] \<Rightarrow> if rooted then cleanElements rooted [] es else cleanElements rooted [e] es)
      else cleanElements rooted (e # stack) es)"

fun joinSlash :: "string list \<Rightarrow> string" where
  "joinSlash [] = []"
| "joinSlash [e] = e"
| "joinSlash (e # es) = e @ CHR ''/'' # joinSlash es"

definition Clean :: "string \<Rightarrow> string" where
  "Clean path =
     (if HasPrefix path ''/'' then CHR ''/'' # joinSlash (cleanElements True [] (Split path CHR ''/''))
      else (let es = cleanElements False [] (Split path CHR ''/'') in if es = [] then ''.'' else joinSlash es))"

section \<open>Assets\<close>

definition immutableStaticCacheControl :: string where
  "immutableStaticCacheControl = ''public, max-age=31536000, immutable''"

text \<open>The path handed to the file server, or \<open>None\<close> for a name that is refused.\<close>

definition assetPath :: "string \<Rightarrow> string option" where
  "assetPath assetName =
     (if assetName = [] \<or> assetName = ''.'' \<or> assetName = ''..'' \<or> HasPrefix assetName ''../'' \<or>
         contains assetName ''/../''
      then None else Some (CHR ''/'' # Clean assetName))"

text \<open>\<open>http.NotFound\<close>\<close>

definition http_NotFound :: "writer \<Rightarrow> writer" where
  "http_NotFound w = http_Error ''404 page not found'' 404 w"

definition HandleStaticAssets ::
  "string \<Rightarrow> (string \<Rightarrow> writer \<Rightarrow> writer) \<Rightarrow> http_request \<Rightarrow> writer \<Rightarrow> writer" where
  "HandleStaticAssets version fileServer r w =
     (if rq_PathValue r ''version'' \<noteq> version then http_NotFound w
      else case assetPath (rq_PathValue r ''asset'') of
        None \<Rightarrow> http_NotFound w
      | Some asset \<Rightarrow> fileServer asset (set_header ''Cache-Control'' immutableStaticCacheControl w))"

text \<open>A walk of the file system: every entry with its kind and the outcome of reading it.\<close>

record entry =
  en_Name :: string
  en_WalkErr :: "goerr option"
  en_IsDir :: bool
  en_Regular :: "bool result"
  en_Data :: "bytes result"

fun hashInput :: "entry list \<Rightarrow> bytes \<Rightarrow> bytes result" where
  "hashInput [] acc = Inr acc"
| "hashInput (e # es) acc =
     (case en_WalkErr e of
        Some err \<Rightarrow> Inl err
      | None \<Rightarrow>
          if en_IsDir e then hashInput es acc
          else case en_Regular e of
            Inl err \<Rightarrow> Inl (Wrap ''error reading static asset metadata %q: %w'' err)
          | Inr regular \<Rightarrow>
              if \<not> regular then hashInput es acc
              else case en_Data e of
                Inl err \<Rightarrow> Inl (Wrap ''error reading static asset %q: %w'' err)
              | Inr data \<Rightarrow> hashInput es (acc @ en_Name e @ [CHR 0x00] @ data @ [CHR 0x00]))"

text \<open>\<open>hex.EncodeToString\<close>\<close>

definition hexEncode :: "bytes \<Rightarrow> string" where
  "hexEncode b = concat (map (\<lambda>c. [hexLower (of_char c div 16), hexLower (of_char c mod 16)]) b)"

definition NewAssetVersion :: "entry list \<Rightarrow> string result" where
  "NewAssetVersion entries =
     (case hashInput entries [] of
        Inl err \<Rightarrow> Inl (Wrap ''error creating asset version: %w'' err)
      | Inr input \<Rightarrow> Inr (take 16 (hexEncode (sha256 input))))"

text \<open>\<open>Views.AssetPath\<close>\<close>

definition AssetPath :: "string \<Rightarrow> string \<Rightarrow> string" where
  "AssetPath assetVersion name = ''/static/'' @ assetVersion @ ''/'' @ dropWhile (\<lambda>c. c = CHR ''/'') name"

section \<open>Lemmas\<close>

lemma cleanElements_rooted:
  "''..'' \<notin> set stack \<Longrightarrow> [] \<notin> set stack \<Longrightarrow>
   ''..'' \<notin> set (cleanElements True stack es) \<and> [] \<notin> set (cleanElements True stack es)"
  by (induction "True" stack es rule: cleanElements.induct) (auto split: list.splits)

lemma cleanElements_subset: "set (cleanElements rooted stack es) \<subseteq> set stack \<union> set es"
  by (induction rooted stack es rule: cleanElements.induct) (auto split: list.splits)

lemma Split_joinSlash:
  "es \<noteq> [] \<Longrightarrow> \<forall>e \<in> set es. CHR ''/'' \<notin> set e \<Longrightarrow> Split (joinSlash es) CHR ''/'' = es"
  by (induction es rule: joinSlash.induct) (auto simp: Split_single Split_append)

section \<open>Properties\<close>


text \<open>The check on asset names does not refuse every name that leads upwards: \<open>./..\<close>
  passes and names the parent of the root. Only the cleaning in the file server stops it.\<close>

lemma assetPath_gap: "assetPath ''./..'' = Some ''/..''"
  by code_simp

end
