(* ===== verification/Pages.thy ===== *)
theory Pages
  imports Proxy RateLimiter StaticAssets ServiceTraces
begin

text \<open>
  The state a request works on, and the HTML pages of \<open>views.go\<close>. Parsing a template and
  executing it on a view model are operations of the \<open>templates\<close> parameter; the files do not
  change during a request.
\<close>

section \<open>State\<close>

text \<open>\<open>sv_Log\<close> collects the request log; what is logged while the request is handled goes to the writer.
  \<open>sv_Pattern\<close> is \<open>r.Pattern\<close>, which the multiplexer sets on the request.\<close>

record ('b, 'l) srv =
  sv_World :: "'b world"
  sv_Limiter :: "'l RateLimiter option"
  sv_Ctx :: HTTPContext
  sv_Pattern :: string
  sv_W :: writer
  sv_Log :: "log_line list"

type_synonym ('b, 'l) handler = "http_request \<Rightarrow> ('b, 'l) srv \<Rightarrow> ('b, 'l) srv"

definition on_writer :: "(writer \<Rightarrow> writer) \<Rightarrow> ('b, 'l) srv \<Rightarrow> ('b, 'l) srv" where
  "on_writer f s = s\<lparr>sv_W := f (sv_W s)\<rparr>"

definition routed :: "http_request \<Rightarrow> ('b, 'l) srv \<Rightarrow> http_request" where
  "routed r s = r\<lparr>rq_Pattern := sv_Pattern s\<rparr>"

section \<open>Views\<close>

datatype view_model =
    ErrorViewModel Brand int string
  | CreateViewModel Brand int string
  | NoteViewModel Brand string

record 't templates =
  parseTemplate :: "string \<Rightarrow> 't result"
  executeTemplate :: "'t \<Rightarrow> view_model \<Rightarrow> string result"

record 't Views =
  vw_AssetVersion :: string
  vw_Brand :: Brand
  vw_Templates :: "string \<rightharpoonup> 't"
  vw_Reload :: bool

fun parseAll :: "'t templates \<Rightarrow> string list \<Rightarrow> (string \<rightharpoonup> 't) \<Rightarrow> (string \<rightharpoonup> 't) result" where
  "parseAll T [] templates = Inr templates"
| "parseAll T (name # names) templates =
     (case parseTemplate T name of Inl err \<Rightarrow> Inl err | Inr t \<Rightarrow> parseAll T names (templates(name \<mapsto> t)))"

definition NewViews :: "'t templates \<Rightarrow> string \<Rightarrow> bool \<Rightarrow> Brand \<Rightarrow> 't Views result" where
  "NewViews T assetVersion reload brand0 =
     (let brand = (if br_DisplayName brand0 = [] then brand0\<lparr>br_DisplayName := defaultDisplayName\<rparr> else brand0);
          views = \<lparr>vw_AssetVersion = assetVersion, vw_Brand = brand, vw_Templates = Map.empty, vw_Reload = reload\<rparr>
      in if reload then Inr views
         else case parseAll T [''create'', ''error'', ''note''] Map.empty of
           Inl err \<Rightarrow> Inl err
         | Inr templates \<Rightarrow> Inr (views\<lparr>vw_Templates := templates\<rparr>))"

definition internalServerError :: "goerr \<Rightarrow> ('b, 'l) srv \<Rightarrow> ('b, 'l) srv" where
  "internalServerError err s =
     on_writer (\<lambda>w. write_body (PlainText ''Internal Server Error'') (write_header 500
         (set_header ''Content-Type'' ''text/plain; charset=utf-8''
           (setNoStore (del_header ''ETag'' (del_header ''Content-Length'' (del_header ''Content-Encoding'' w)))))))
       (s\<lparr>sv_Ctx := (sv_Ctx s)\<lparr>cx_Err := Some err\<rparr>\<rparr>)"

definition execute :: "'t templates \<Rightarrow> 't \<Rightarrow> view_model \<Rightarrow> ('b, 'l) srv \<Rightarrow> ('b, 'l) srv" where
  "execute T t model s =
     (case executeTemplate T t model of
        Inl err \<Rightarrow> internalServerError err s
      | Inr html \<Rightarrow>
          on_writer (\<lambda>w. write_body (Page html) (setNoStore (set_header ''Content-Type'' ''text/html; charset=utf-8'' w))) s)"

definition View :: "'t templates \<Rightarrow> 't Views \<Rightarrow> string \<Rightarrow> view_model \<Rightarrow> ('b, 'l) srv \<Rightarrow> ('b, 'l) srv" where
  "View T v name model s =
     (case vw_Templates v name of
        Some t \<Rightarrow> execute T t model s
      | None \<Rightarrow>
          (case parseTemplate T name of
             Inl err \<Rightarrow> internalServerError err s
           | Inr t \<Rightarrow> execute T t model s))"

definition errorPage :: "'t templates \<Rightarrow> 't Views \<Rightarrow> int \<Rightarrow> ('b, 'l) srv \<Rightarrow> ('b, 'l) srv" where
  "errorPage T v code s =
     View T v ''error'' (ErrorViewModel (vw_Brand v) code (StatusText code))
       (on_writer (\<lambda>w. write_header code (set_header ''Content-Type'' ''text/html; charset=utf-8'' (setNoStore w))) s)"

text \<open>\<open>Views.Error\<close> and \<open>Views.NotFound\<close>\<close>

definition ViewsError :: "'t templates \<Rightarrow> 't Views \<Rightarrow> goerr \<Rightarrow> ('b, 'l) srv \<Rightarrow> ('b, 'l) srv" where
  "ViewsError T v err s = errorPage T v 500 (s\<lparr>sv_Ctx := (sv_Ctx s)\<lparr>cx_Err := Some err\<rparr>\<rparr>)"

definition NotFound :: "'t templates \<Rightarrow> 't Views \<Rightarrow> ('b, 'l) handler" where
  "NotFound T v r s = errorPage T v 404 s"

end
