(* ===== verification/Handlers.thy ===== *)
theory Handlers
  imports Pages GoJSON
begin

text \<open>
  \<open>handlers.go\<close>: what each endpoint reads and answers. The structs of the requests are lists
  of fields for the decoder of \<open>GoJSON\<close>.
\<close>

section \<open>Requests\<close>

record createNoteRequest =
  cn_Ticket :: string
  cn_BurnToken :: "BurnToken option"
  cn_Payload :: string
  cn_ExpiresInSeconds :: int

record openNoteRequest =
  on_BurnToken :: "BurnToken option"

definition respond :: "int \<Rightarrow> body \<Rightarrow> ('b, 'l) srv \<Rightarrow> ('b, 'l) srv" where
  "respond status value s = on_writer (writeJSON status value) s"

definition writeInternalJSONError :: "http_request \<Rightarrow> string \<Rightarrow> goerr \<Rightarrow> ('b, 'l) srv \<Rightarrow> ('b, 'l) srv" where
  "writeInternalJSONError r event err s =
     (let ctx = (sv_Ctx s)\<lparr>cx_Err := Some err\<rparr>
      in respond 500 (ErrorJSON ''internal_error'')
           (on_writer (emit [logRequestError (Some (routed r s)) (Some ctx) event err []]) (s\<lparr>sv_Ctx := ctx\<rparr>)))"

section \<open>JSON bodies and limits\<close>

text \<open>The struct tags of the two requests.\<close>

definition createFields :: "createNoteRequest fields" where
  "createFields =
     [(''ticket'', inField cn_Ticket (\<lambda>a s. s\<lparr>cn_Ticket := a\<rparr>) storeString),
      (''burnToken'', inField cn_BurnToken (\<lambda>a s. s\<lparr>cn_BurnToken := a\<rparr>) (storeText BurnToken_UnmarshalText)),
      (''payload'', inField cn_Payload (\<lambda>a s. s\<lparr>cn_Payload := a\<rparr>) storeString),
      (''expiresInSeconds'', inField cn_ExpiresInSeconds (\<lambda>a s. s\<lparr>cn_ExpiresInSeconds := a\<rparr>) storeInt)]"

definition openFields :: "openNoteRequest fields" where
  "openFields =
     [(''burnToken'', inField on_BurnToken (\<lambda>a s. s\<lparr>on_BurnToken := a\<rparr>) (storeText BurnToken_UnmarshalText))]"

definition zeroCreateRequest :: createNoteRequest where
  "zeroCreateRequest = \<lparr>cn_Ticket = [], cn_BurnToken = None, cn_Payload = [], cn_ExpiresInSeconds = 0\<rparr>"

definition zeroOpenRequest :: openNoteRequest where
  "zeroOpenRequest = \<lparr>on_BurnToken = None\<rparr>"

text \<open>The body is cut at the limit by \<open>http.MaxBytesReader\<close>. The first \<open>Decode\<close> reads the request, the second
  must find the end of the body.\<close>

definition decodeStrictJSON :: "'s fields \<Rightarrow> 's \<Rightarrow> int \<Rightarrow> bytes \<Rightarrow> 's result" where
  "decodeStrictJSON fs zero limit body =
     (let whole = (int (length body) \<le> limit)
      in case readValue whole (take (nat limit) body) of
        Inl MaxBytesError \<Rightarrow> Inl (Sentinel ErrRequestTooLarge)
      | Inl EOF \<Rightarrow> Inl (Msg ''EOF'')
      | Inl (DecodeError err) \<Rightarrow> Inl err
      | Inr (v, rest) \<Rightarrow>
          (case decodeStruct True fs zero v of
             Inl err \<Rightarrow> Inl err
           | Inr target \<Rightarrow>
               (case readValue whole rest of
                  Inl EOF \<Rightarrow> Inr target
                | Inl MaxBytesError \<Rightarrow> Inl (Sentinel ErrRequestTooLarge)
                | _ \<Rightarrow> Inl (Msg ''trailing JSON data''))))"

definition jsonBodyOverhead :: int where "jsonBodyOverhead = 256"
definition statusInsufficientStorage :: int where "statusInsufficientStorage = 507"

definition zeroToken :: BurnToken where "zeroToken = replicate burnTokenLen CHR 0x00"

definition maxCreateNoteBodySize :: "int \<Rightarrow> int" where
  "maxCreateNoteBodySize maxPayloadBytes =
     maxPayloadBytes + int maxTicketLen + int (length (BurnToken_String zeroToken)) + jsonBodyOverhead"

definition maxOpenNoteBodySize :: int where
  "maxOpenNoteBodySize = int (length (BurnToken_String zeroToken)) + jsonBodyOverhead"

definition requestedLifetime :: "int \<Rightarrow> duration result" where
  "requestedLifetime seconds =
     (if seconds < minNoteLifetime div Second \<or> seconds > maxNoteLifetime div Second
      then Inl (Sentinel ErrLifetimeInvalid) else Inr (int64 (seconds * Second)))"

definition ticketErrorStatus :: "goerr \<Rightarrow> int" where
  "ticketErrorStatus err = (if errors_Is err ErrTicketUnusable then 409 else 400)"

definition ticketErrorReason :: "goerr \<Rightarrow> string" where
  "ticketErrorReason err =
     (if errors_Is err ErrTicketExpired then ''expired''
      else if errors_Is err ErrTicketUnusable then ''unusable'' else ''invalid'')"

section \<open>The API\<close>

definition HandleGetConfig :: "Config \<Rightarrow> ('b, 'l) handler" where
  "HandleGetConfig cfg r s =
     respond 200 (ConfigJSON (cfg_MaxNoteSize cfg) (minNoteLifetime div Second) (maxNoteLifetime div Second)) s"

definition HandleCreateTicket :: "'b env \<Rightarrow> ('b, 'l) handler" where
  "HandleCreateTicket E r s =
     (case CreateTicket E (sv_World s) of
        (Inl err, w) \<Rightarrow> writeInternalJSONError r ''ticket_create_failed'' err (s\<lparr>sv_World := w\<rparr>)
      | (Inr ticket, w) \<Rightarrow>
          respond 200 (TicketJSON (NoteID_String (td_ID (tk_Data ticket))) (tk_Value ticket)
              (BurnToken_String (tk_BurnToken ticket)) (td_Exp (tk_Data ticket))) (s\<lparr>sv_World := w\<rparr>))"

text \<open>A line about a request: its route, a reason, the client and the status.\<close>

definition requestEvent :: "string \<Rightarrow> http_request \<Rightarrow> string \<Rightarrow> int \<Rightarrow> ('b, 'l) srv \<Rightarrow> log_line" where
  "requestEvent event r reason status s =
     logSecurityEvent event
       [(''route'', LogText (routePattern (Some (routed r s)))), (''reason'', LogText reason),
        (''client'', LogText (cx_ClientKey (sv_Ctx s))), (''status'', LogInt status)]"

definition createNoteError :: "http_request \<Rightarrow> goerr \<Rightarrow> ('b, 'l) srv \<Rightarrow> ('b, 'l) srv" where
  "createNoteError r err s =
     (if errors_Is err ErrPayloadTooLarge then respond 413 (ErrorJSON ''note_too_large'') s
      else if errors_Is err ErrStorageFull then respond statusInsufficientStorage (ErrorJSON ''storage_full'') s
      else if errors_Is err ErrLifetimeInvalid then respond 400 (ErrorJSON ''invalid_expiration'') s
      else if errors_Is err ErrTicketInvalid \<or> errors_Is err ErrTicketExpired \<or> errors_Is err ErrTicketUnusable
      then on_writer (emit [requestEvent ''invalid_ticket'' r (ticketErrorReason err) (ticketErrorStatus err) s])
             (respond (ticketErrorStatus err) (ErrorJSON ''ticket_unusable'') s)
      else if errors_Is err ErrPayloadEmpty then respond 400 (ErrorJSON ''invalid_request'') s
      else writeInternalJSONError r ''note_save_failed'' err s)"

definition HandleCreateNote :: "'b env \<Rightarrow> NoteService \<Rightarrow> ('b, 'l) handler" where
  "HandleCreateNote E S r s =
     (case requireJSONContentType r of
        Inl _ \<Rightarrow> respond 415 (ErrorJSON ''invalid_request'') s
      | Inr _ \<Rightarrow>
     (case ParseNoteID (rq_PathValue r ''id'') of
        Inl _ \<Rightarrow> respond 400 (ErrorJSON ''invalid_request'') s
      | Inr nid \<Rightarrow>
     (case decodeStrictJSON createFields zeroCreateRequest (maxCreateNoteBodySize (svc_maxSize S)) (rq_Body r) of
        Inl err \<Rightarrow> respond (if errors_Is err ErrRequestTooLarge then 413 else 400) (ErrorJSON ''invalid_request'') s
      | Inr req \<Rightarrow>
     (case cn_BurnToken req of
        None \<Rightarrow> respond 400 (ErrorJSON ''invalid_request'') s
      | Some burnToken \<Rightarrow>
     (case requestedLifetime (cn_ExpiresInSeconds req) of
        Inl _ \<Rightarrow> respond 400 (ErrorJSON ''invalid_expiration'') s
      | Inr lifetime \<Rightarrow>
     (case CreateNote E S nid (cn_Ticket req) burnToken (cn_Payload req) lifetime (sv_World s) of
        (Inl err, w) \<Rightarrow> createNoteError r err (s\<lparr>sv_World := w\<rparr>)
      | (Inr savedID, w) \<Rightarrow>
          respond 201 (CreatedJSON (NoteID_String savedID) (lifetime div Second)) (s\<lparr>sv_World := w\<rparr>)))))))"

definition recordFailedOpen :: "http_request \<Rightarrow> string \<Rightarrow> ('b, 'l) srv \<Rightarrow> ('b, 'l) srv" where
  "recordFailedOpen r reason s =
     respond 404 (ErrorJSON ''note_open_failed'') (on_writer (emit [requestEvent ''open_failed'' r reason 404 s]) s)"

definition HandleOpenNote :: "'b env \<Rightarrow> NoteService \<Rightarrow> ('b, 'l) handler" where
  "HandleOpenNote E S r s =
     (case requireJSONContentType r of
        Inl _ \<Rightarrow> respond 415 (ErrorJSON ''invalid_request'') s
      | Inr _ \<Rightarrow>
     (case ParseNoteID (rq_PathValue r ''id'') of
        Inl _ \<Rightarrow> respond 404 (ErrorJSON ''note_open_failed'') s
      | Inr nid \<Rightarrow>
     (case decodeStrictJSON openFields zeroOpenRequest maxOpenNoteBodySize (rq_Body r) of
        Inl err \<Rightarrow>
          if errors_Is err ErrInvalidBurnToken then recordFailedOpen r ''invalid_token'' s
          else respond 400 (ErrorJSON ''invalid_request'') s
      | Inr req \<Rightarrow>
     (case on_BurnToken req of
        None \<Rightarrow> recordFailedOpen r ''invalid_token'' s
      | Some burnToken \<Rightarrow>
     (case OpenNote E S nid burnToken (sv_World s) of
        (Inl err, w) \<Rightarrow>
          if errors_Is err ErrNoteOpenFailed then recordFailedOpen r ''open_failed'' (s\<lparr>sv_World := w\<rparr>)
          else writeInternalJSONError r ''note_open_failed_internal'' err (s\<lparr>sv_World := w\<rparr>)
      | (Inr n, w) \<Rightarrow> respond 200 (PayloadJSON (nt_Payload n)) (s\<lparr>sv_World := w\<rparr>))))))"

section \<open>The pages\<close>

definition createViewModel :: "Config \<Rightarrow> string \<Rightarrow> view_model" where
  "createViewModel cfg publicOrigin = CreateViewModel (cfg_Brand cfg) (cfg_MaxNoteSize cfg) publicOrigin"

definition HandleCreateNoteView :: "'t templates \<Rightarrow> 't Views \<Rightarrow> Config \<Rightarrow> ('b, 'l) handler" where
  "HandleCreateNoteView T v cfg r s =
     View T v ''create'' (createViewModel cfg (cx_PublicOrigin (sv_Ctx s))) s"

definition HandlePreviewNote :: "'t templates \<Rightarrow> 't Views \<Rightarrow> ('b, 'l) handler" where
  "HandlePreviewNote T v r s =
     (case ParseNoteID (rq_PathValue r ''id'') of
        Inl _ \<Rightarrow> NotFound T v r s
      | Inr _ \<Rightarrow> View T v ''note'' (NoteViewModel (vw_Brand v) (rq_PathValue r ''id'')) s)"

end
