(* ===== verification/Server.thy ===== *)
theory Server
  imports Handlers
begin

text \<open>
  \<open>middleware.go\<close> and \<open>newServerHandler\<close> of \<open>main.go\<close>: the chain every request passes,
  and the table of routes. The file server is a parameter; the path is assumed clean (the
  multiplexer redirects others itself).
\<close>

section \<open>The application\<close>

record ('b, 'l, 't) app =
  ap_Env :: "'b env"
  ap_Service :: NoteService
  ap_Cfg :: Config
  ap_Tokens :: "'l tokenlib"
  ap_Iter :: "'l buckets \<Rightarrow> 'l buckets"
  ap_Templates :: "'t templates"
  ap_Views :: "'t Views"
  ap_AssetVersion :: string
  ap_Files :: "string \<Rightarrow> writer \<Rightarrow> writer"

section \<open>Middleware\<close>

definition HTTPContextMiddleware :: "('b, 'l) handler \<Rightarrow> ('b, 'l) handler" where
  "HTTPContextMiddleware next r s =
     next r (s\<lparr>sv_Ctx := \<lparr>cx_ClientIP = InvalidAddr, cx_ClientKey = ''unknown'', cx_Err = None,
       cx_PublicOrigin = [], cx_StatusCode = 200\<rparr>\<rparr>)"

definition TrustedProxyMiddleware :: "Config \<Rightarrow> ('b, 'l) handler \<Rightarrow> ('b, 'l) handler" where
  "TrustedProxyMiddleware cfg next r s =
     (case proxy_decide cfg (cx_PublicOrigin (sv_Ctx s)) r of
        Reject reason \<Rightarrow> on_writer (rejectProxyRequest (routed r s) reason (remoteText r)) s
      | Accept ip key origin \<Rightarrow>
          next r (s\<lparr>sv_Ctx := (sv_Ctx s)\<lparr>cx_ClientIP := ip, cx_ClientKey := key, cx_PublicOrigin := origin\<rparr>\<rparr>))"

text \<open>One line for a request that was handled; the duration is left out.\<close>

definition requestLine :: "string \<Rightarrow> string \<Rightarrow> int \<Rightarrow> string \<Rightarrow> goerr option \<Rightarrow> log_line" where
  "requestLine httpMethod route code client failure =
     LogLine LevelInfo logMsgHTTPRequest
       ([(''event'', LogText ''request_completed''), (''method'', LogText httpMethod), (''route'', LogText route),
         (''status'', LogInt code), (''client'', LogText client)] @
        (case failure of None \<Rightarrow> [] | Some err \<Rightarrow> [(''error'', LogErr err)]))"

text \<open>The logging writer stores every code passed to \<open>WriteHeader\<close> in the context; the route
  is the pattern the multiplexer has set on the request by then.\<close>

definition LoggingMiddleware :: "('b, 'l) handler \<Rightarrow> ('b, 'l) handler" where
  "LoggingMiddleware next r s =
     (let s1 = next r s;
          codes = drop (length (wr_Codes (sv_W s))) (wr_Codes (sv_W s1));
          code = (if codes = [] then cx_StatusCode (sv_Ctx s1) else last codes);
          s2 = s1\<lparr>sv_Ctx := (sv_Ctx s1)\<lparr>cx_StatusCode := code\<rparr>\<rparr>;
          route = routePattern (Some (routed r s1))
      in if isSuccessfulStaticRoute route code then s2
         else s2\<lparr>sv_Log := sv_Log s2 @ [requestLine (rq_Method r) route code (cx_ClientKey (sv_Ctx s2)) (cx_Err (sv_Ctx s2))]\<rparr>)"

definition contentSecurityPolicy :: string where
  "contentSecurityPolicy =
     ''default-src 'none'; script-src 'self'; style-src 'self'; img-src 'self'; connect-src 'self'; '' @
     ''base-uri 'none'; form-action 'self'; frame-ancestors 'none'; frame-src 'none'; object-src 'none'; '' @
     ''script-src-attr 'none'; require-trusted-types-for 'script'' @ [CHR 0x27]"

definition securityHeaders :: "Config \<Rightarrow> (string \<times> string) list" where
  "securityHeaders cfg =
     (if cfg_IsDevelopment cfg then [] else [(''Strict-Transport-Security'', ''max-age=31536000'')]) @
     [(''Content-Security-Policy'', contentSecurityPolicy @
        (if cfg_IsDevelopment cfg then [] else ''; upgrade-insecure-requests'')),
      (''Referrer-Policy'', ''no-referrer''), (''X-Content-Type-Options'', ''nosniff''), (''X-Frame-Options'', ''DENY''),
      (''Permissions-Policy'', ''camera=(), microphone=(), geolocation=(), payment=(), usb=(), fullscreen=(), display-capture=()''),
      (''Cross-Origin-Opener-Policy'', ''same-origin''), (''Cross-Origin-Resource-Policy'', ''same-origin'')]"

definition SecurityHeadersMiddleware :: "Config \<Rightarrow> ('b, 'l) handler \<Rightarrow> ('b, 'l) handler" where
  "SecurityHeadersMiddleware cfg next r s =
     next r (on_writer (\<lambda>w. fold (\<lambda>(k, v). set_header k v) (securityHeaders cfg) w) s)"

text \<open>What \<open>AllowRequest\<close> logs: \<open>ensureBucketCapacity\<close> found no room for a new client.\<close>

definition saturationLog :: "('l buckets \<Rightarrow> 'l buckets) \<Rightarrow> 'l RateLimiter \<Rightarrow> string \<Rightarrow> time \<Rightarrow> log_line list" where
  "saturationLog iter l0 key now =
     (let l = sweepExpiredBuckets l0 now
      in if map_of (rl_buckets l) key = None \<and> \<not> fst (ensureBucketCapacity iter l key now)
         then [logSecurityEvent ''rate_limiter_saturated'' [(''bucket_count'', LogInt (int (length (rl_buckets l))))]]
         else [])"

definition RateLimitMiddleware ::
  "'b env \<Rightarrow> 'l tokenlib \<Rightarrow> ('l buckets \<Rightarrow> 'l buckets) \<Rightarrow> ('b, 'l) handler \<Rightarrow> ('b, 'l) handler" where
  "RateLimitMiddleware E L iter next r s =
     (if isHealthCheckRequest r \<or> isStaticAssetRequest r then next r s
      else case sv_Limiter s of
        None \<Rightarrow> next r s
      | Some limiter \<Rightarrow>
          (let (now, world) = s_now E (sv_World s);
               saturated = saturationLog iter limiter (cx_ClientKey (sv_Ctx s)) now;
               ((allowed, retry), limiter) = AllowRequest L iter limiter (cx_ClientKey (sv_Ctx s)) now;
               s = s\<lparr>sv_World := world, sv_Limiter := Some limiter\<rparr>
           in if allowed then next r s
              else on_writer (\<lambda>w. emit [logSecurityEvent ''rate_limited''
                   [(''route'', LogText (routePattern (Some (routed r s)))), (''client'', LogText (cx_ClientKey (sv_Ctx s))),
                    (''status'', LogInt 429)]]
                 (writeErrorResponse r 429 ''rate_limited''
                   (set_header ''Retry-After'' (Itoa (nat (roundEven (Seconds retry)))) (emit saturated w)))) s))"

text \<open>A request that is let through found room.\<close>

lemma allowed_not_saturated:
  "AllowRequest L iter l0 key now = ((True, d), l') \<Longrightarrow> saturationLog iter l0 key now = []"
  by (auto simp: AllowRequest_def saturationLog_def Let_def split: option.splits prod.splits if_splits)

text \<open>\<open>http.NewCrossOriginProtection\<close> without exemptions: its check and its answer.\<close>

definition crossOriginCheck :: "http_request \<Rightarrow> string option" where
  "crossOriginCheck r =
     (if rq_Method r \<in> {''GET'', ''HEAD'', ''OPTIONS''} then None
      else if rq_Header r ''Sec-Fetch-Site'' \<in> {''same-origin'', ''none''} then None
      else if rq_Header r ''Sec-Fetch-Site'' \<noteq> []
      then Some ''cross-origin request detected from Sec-Fetch-Site header''
      else if rq_Header r ''Origin'' = [] then None
      else if (case url_Parse (rq_Header r ''Origin'') of Inr u \<Rightarrow> url_Host u = rq_Host r | Inl _ \<Rightarrow> False) then None
      else Some (''cross-origin request detected, and/or browser is out of date: '' @
        ''Sec-Fetch-Site is missing, and Origin does not match Host''))"

definition CSRFMiddleware :: "('b, 'l) handler \<Rightarrow> ('b, 'l) handler" where
  "CSRFMiddleware next r s =
     (case crossOriginCheck r of
        None \<Rightarrow> next r s
      | Some text \<Rightarrow> on_writer (http_Error text 403) s)"

section \<open>Routes\<close>

datatype endpoint =
    EpCreateView | EpPreview string | EpConfig | EpCreateNote string | EpOpenNote string | EpTicket
  | EpStaticName | EpStatic string string | EpHealth | EpNotFound

text \<open>A \<open>GET\<close> pattern also matches \<open>HEAD\<close>. A wildcard matches one non-empty segment, and
  \<open>{asset...}\<close> the rest of the path.\<close>

definition getRoute :: "string list \<Rightarrow> (string \<times> endpoint) option" where
  "getRoute segs =
     (case segs of
        [a] \<Rightarrow> if a = [] then Some (''GET /{$}'', EpCreateView)
               else if a = ''healthz'' then Some (''GET /healthz'', EpHealth) else None
      | [a, b] \<Rightarrow> if a = ''note'' \<and> b \<noteq> [] then Some (''GET /note/{id}'', EpPreview b)
               else if a = ''api'' \<and> b = ''config'' then Some (''GET /api/config'', EpConfig)
               else if a = ''static'' \<and> b \<noteq> [] then Some (''GET /static/{asset}'', EpStaticName) else None
      | a # v # rest \<Rightarrow> if a = ''static'' \<and> v \<noteq> []
               then Some (''GET /static/{version}/{asset...}'', EpStatic v (joinSlash rest)) else None
      | _ \<Rightarrow> None)"

definition postRoute :: "string list \<Rightarrow> (string \<times> endpoint) option" where
  "postRoute segs =
     (case segs of
        [a, b] \<Rightarrow> if a = ''api'' \<and> b = ''tickets'' then Some (''POST /api/tickets'', EpTicket) else None
      | [a, b, c] \<Rightarrow> if a = ''api'' \<and> b = ''notes'' \<and> c \<noteq> [] then Some (''POST /api/notes/{id}'', EpCreateNote c) else None
      | [a, b, c, d] \<Rightarrow> if a = ''api'' \<and> b = ''notes'' \<and> c \<noteq> [] \<and> d = ''open''
               then Some (''POST /api/notes/{id}/open'', EpOpenNote c) else None
      | _ \<Rightarrow> None)"

definition mux_match :: "http_request \<Rightarrow> string \<times> endpoint" where
  "mux_match r =
     (case (if rq_Method r = ''GET'' \<or> rq_Method r = ''HEAD'' then getRoute (rq_Segments r)
            else if rq_Method r = ''POST'' then postRoute (rq_Segments r) else None) of
        None \<Rightarrow> (''/'', EpNotFound)
      | Some m \<Rightarrow> m)"

definition with_id :: "string \<Rightarrow> http_request \<Rightarrow> http_request" where
  "with_id v r = r\<lparr>rq_PathValue := (\<lambda>name. if name = ''id'' then v else [])\<rparr>"

definition healthz :: "writer \<Rightarrow> writer" where
  "healthz w = write_body (PlainText ''OK'') (write_header 200
     (setNoStore (set_header ''Content-Type'' ''text/plain; charset=utf-8'' w)))"

definition dispatch :: "('b, 'l, 't) app \<Rightarrow> endpoint \<Rightarrow> ('b, 'l) handler" where
  "dispatch A e r s =
     (case e of
        EpCreateView \<Rightarrow> HandleCreateNoteView (ap_Templates A) (ap_Views A) (ap_Cfg A) r s
      | EpPreview v \<Rightarrow> HandlePreviewNote (ap_Templates A) (ap_Views A) (with_id v r) s
      | EpConfig \<Rightarrow> HandleGetConfig (ap_Cfg A) r s
      | EpCreateNote v \<Rightarrow> HandleCreateNote (ap_Env A) (ap_Service A) (with_id v r) s
      | EpOpenNote v \<Rightarrow> HandleOpenNote (ap_Env A) (ap_Service A) (with_id v r) s
      | EpTicket \<Rightarrow> HandleCreateTicket (ap_Env A) r s
      | EpStaticName \<Rightarrow> on_writer http_NotFound s
      | EpStatic v asset \<Rightarrow>
          on_writer (HandleStaticAssets (ap_AssetVersion A) (ap_Files A)
            (r\<lparr>rq_PathValue := (\<lambda>name. if name = ''version'' then v else if name = ''asset'' then asset else [])\<rparr>)) s
      | EpHealth \<Rightarrow> on_writer healthz s
      | EpNotFound \<Rightarrow> NotFound (ap_Templates A) (ap_Views A) r s)"

definition mux :: "('b, 'l, 't) app \<Rightarrow> ('b, 'l) handler" where
  "mux A r s = (case mux_match r of (pattern, e) \<Rightarrow> dispatch A e r (s\<lparr>sv_Pattern := pattern\<rparr>))"

definition newServerHandler :: "('b, 'l, 't) app \<Rightarrow> ('b, 'l) handler" where
  "newServerHandler A =
     (let handler = mux A;
          handler = CSRFMiddleware handler;
          handler = RateLimitMiddleware (ap_Env A) (ap_Tokens A) (ap_Iter A) handler;
          handler = SecurityHeadersMiddleware (ap_Cfg A) handler;
          handler = LoggingMiddleware handler;
          handler = TrustedProxyMiddleware (ap_Cfg A) handler;
          handler = HTTPContextMiddleware handler
      in handler)"

end
