(* ===== verification/Responses.thy ===== *)
theory Responses
  imports Server
begin

text \<open>
  What every response of the server has in common. \<open>response_invariant\<close> is the interface
  between the helpers that write to a response and a property of responses: a property kept
  by the few primitive operations is kept by every handler, and so by the whole chain. It is
  interpreted on the security headers and on the agreement of the logged codes with the sent
  status.
\<close>

section \<open>Invariants of responses\<close>

definition handler_headers :: "string set" where
  "handler_headers = {''Cache-Control'', ''Pragma'', ''Content-Type'', ''Retry-After'',
     ''Content-Length'', ''Content-Encoding'', ''ETag''}"

locale response_invariant =
  fixes I :: "writer \<Rightarrow> bool"
  assumes set_free: "k \<in> handler_headers \<Longrightarrow> I w \<Longrightarrow> I (set_header k v w)"
    and del_free: "k \<in> handler_headers \<Longrightarrow> I w \<Longrightarrow> I (del_header k w)"
    and set_nosniff: "I w \<Longrightarrow> I (set_header ''X-Content-Type-Options'' ''nosniff'' w)"
    and kept_log: "I w \<Longrightarrow> I (emit ls w)"
    and kept_header: "I w \<Longrightarrow> I (write_header c w)"
    and kept_body: "I w \<Longrightarrow> I (write_body b w)"
begin

lemma kept_free:
  assumes "I w"
  shows "I (set_header ''Cache-Control'' v w)" "I (set_header ''Pragma'' v w)" "I (set_header ''Content-Type'' v w)"
    "I (set_header ''Retry-After'' v w)" "I (del_header ''Content-Length'' w)"
    "I (del_header ''Content-Encoding'' w)" "I (del_header ''ETag'' w)"
  using assms by (auto intro!: set_free del_free simp: handler_headers_def)

lemma kept_writers:
  assumes "I w"
  shows "I (setNoStore w)" "I (writeJSON c b w)" "I (http_Error t c w)" "I (http_NotFound w)"
    "I (writeErrorResponse r c x w)" "I (healthz w)"
  using assms
  by (simp_all add: setNoStore_def writeJSON_def http_Error_def http_NotFound_def writeErrorResponse_def healthz_def
      kept_free set_nosniff kept_header kept_body)

lemma kept_respond: "I (sv_W s) \<Longrightarrow> I (sv_W (respond c b s))"
  by (simp add: respond_def on_writer_def kept_writers)

lemma kept_internal: "I (sv_W s) \<Longrightarrow> I (sv_W (writeInternalJSONError r event err s))"
  by (simp add: writeInternalJSONError_def Let_def on_writer_def kept_respond kept_log)

lemma kept_failed_open: "I (sv_W s) \<Longrightarrow> I (sv_W (recordFailedOpen r x s))"
  by (simp add: recordFailedOpen_def on_writer_def kept_respond kept_log)

lemma kept_server_error: "I (sv_W s) \<Longrightarrow> I (sv_W (internalServerError err s))"
  by (simp add: internalServerError_def on_writer_def kept_writers kept_free kept_header kept_body)

lemma kept_View: "I (sv_W s) \<Longrightarrow> I (sv_W (View T v name m s))"
  by (auto simp: View_def execute_def on_writer_def kept_server_error kept_writers kept_free kept_body
      split: option.split sum.split)

lemma kept_NotFound: "I (sv_W s) \<Longrightarrow> I (sv_W (NotFound T v r s))"
  by (simp add: NotFound_def errorPage_def on_writer_def kept_View kept_writers kept_free kept_header)

lemma kept_create_error: "I (sv_W s) \<Longrightarrow> I (sv_W (createNoteError r err s))"
  by (simp add: createNoteError_def on_writer_def kept_respond kept_internal kept_log)

lemma kept_HandleCreateNote: "I (sv_W s) \<Longrightarrow> I (sv_W (HandleCreateNote E S r s))"
  unfolding HandleCreateNote_def
  by (auto simp: kept_respond kept_create_error split: sum.split option.split prod.split)

lemma kept_HandleOpenNote: "I (sv_W s) \<Longrightarrow> I (sv_W (HandleOpenNote E S r s))"
  unfolding HandleOpenNote_def
  by (auto simp: kept_respond kept_failed_open kept_internal split: sum.split option.split prod.split)

lemma kept_HandleCreateTicket: "I (sv_W s) \<Longrightarrow> I (sv_W (HandleCreateTicket E r s))"
  unfolding HandleCreateTicket_def
  by (auto simp: kept_respond kept_internal split: sum.split prod.split)

lemma kept_dispatch:
  assumes "I (sv_W s)" "\<And>asset w. I w \<Longrightarrow> I (ap_Files A asset w)"
  shows "I (sv_W (dispatch A e r s))"
  using assms
  by (auto simp: dispatch_def HandleCreateNoteView_def HandlePreviewNote_def HandleGetConfig_def HandleStaticAssets_def
      on_writer_def kept_View kept_NotFound kept_respond kept_HandleCreateNote kept_HandleOpenNote
      kept_HandleCreateTicket kept_writers kept_free split: endpoint.split sum.split option.split)

lemma kept_behind_headers:
  assumes "I (sv_W s)" "\<And>asset w. I w \<Longrightarrow> I (ap_Files A asset w)"
  shows "I (sv_W (RateLimitMiddleware E L iter (CSRFMiddleware (mux A)) r s))"
proof -
  have csrf: "I (sv_W (CSRFMiddleware (mux A) r t))" if "I (sv_W t)" for t
    using kept_dispatch [OF _ assms(2)] that
    by (auto simp: CSRFMiddleware_def mux_def on_writer_def kept_writers split: option.split prod.split)
  with assms(1) show ?thesis
    by (auto simp: RateLimitMiddleware_def on_writer_def kept_writers kept_log kept_free Let_def
        split: option.split prod.split)
qed

end

section \<open>The security headers\<close>

definition carries :: "(string \<times> string) list \<Rightarrow> writer \<Rightarrow> bool" where
  "carries hs w \<longleftrightarrow> (\<forall>(k, v) \<in> set hs. wr_Header w k = Some v) \<and>
     (\<forall>c h. wr_Sent w = Some (c, h) \<longrightarrow> (\<forall>(k, v) \<in> set hs. h k = Some v))"

text \<open>Headers the handlers leave alone, except that they may set \<open>nosniff\<close> again.\<close>

definition protected_headers :: "(string \<times> string) list \<Rightarrow> bool" where
  "protected_headers hs \<longleftrightarrow> (\<forall>(k, v) \<in> set hs. k \<notin> handler_headers \<and> (k = ''X-Content-Type-Options'' \<longrightarrow> v = ''nosniff''))"

lemma carries_set:
  "carries hs w \<Longrightarrow> (\<forall>u. (k, u) \<in> set hs \<longrightarrow> u = v) \<Longrightarrow> carries hs (set_header k v w)"
  by (force simp: carries_def set_header_def)

lemma carries_kept:
  assumes "protected_headers hs"
  shows "response_invariant (carries hs)"
proof
  show "carries hs (set_header k v w)" if "k \<in> handler_headers" "carries hs w" for k v w
    using that assms by (intro carries_set) (auto simp: protected_headers_def)
  show "carries hs (set_header ''X-Content-Type-Options'' ''nosniff'' w)" if "carries hs w" for w
    using that assms by (intro carries_set) (auto simp: protected_headers_def)
  show "carries hs (del_header k w)" if "k \<in> handler_headers" "carries hs w" for k w
    using that assms by (force simp: carries_def del_header_def protected_headers_def)
qed (auto simp: carries_def writer_defs emit_def split: option.split)

lemma securityHeaders_protected: "protected_headers (securityHeaders cfg)"
  by (auto simp: protected_headers_def securityHeaders_def handler_headers_def)

interpretation secured: response_invariant "carries (securityHeaders cfg)" for cfg
  by (rule carries_kept) (rule securityHeaders_protected)

lemma set_headers_Sent: "wr_Sent (fold (\<lambda>(k, v). set_header k v) hs w) = wr_Sent w"
  by (induction hs arbitrary: w) (auto simp: set_header_def)

lemma set_headers_same:
  "k \<notin> fst ` set hs \<Longrightarrow> wr_Header (fold (\<lambda>(k, v). set_header k v) hs w) k = wr_Header w k"
  by (induction hs arbitrary: w) (auto simp: set_header_def)

lemma set_headers_get:
  "distinct (map fst hs) \<Longrightarrow> (k, v) \<in> set hs \<Longrightarrow> wr_Header (fold (\<lambda>(k, v). set_header k v) hs w) k = Some v"
proof (induction hs arbitrary: w)
  case (Cons h hs)
  obtain j u where h: "h = (j, u)" by fastforce
  show ?case
  proof (cases "(k, v) \<in> set hs")
    case True
    with Cons h show ?thesis by simp
  next
    case False
    with Cons.prems h have "j = k" "u = v" "k \<notin> fst ` set hs" by auto
    moreover have "wr_Header (set_header k v w) k = Some v" by (simp add: set_header_def)
    ultimately show ?thesis using h set_headers_same [of k hs "set_header k v w"] by simp
  qed
qed simp

lemma distinct_securityHeaders: "distinct (map fst (securityHeaders cfg))"
  by (simp add: securityHeaders_def)

lemma carries_start:
  "wr_Sent w = None \<Longrightarrow> carries (securityHeaders cfg) (fold (\<lambda>(k, v). set_header k v) (securityHeaders cfg) w)"
  by (auto simp: carries_def set_headers_Sent intro: set_headers_get [OF distinct_securityHeaders])

end
