(* ===== verification/RequestBodies.thy ===== *)
theory RequestBodies
  imports Handlers ExampleEnv
begin

text \<open>
  The bodies that clients send: the JSON of a request is read back as the request, and the
  limits on the size of a body leave room for it.
\<close>

section \<open>Texts\<close>

definition jsonString :: "string \<Rightarrow> string" where
  "jsonString s = CHR 0x22 # quoted s @ [CHR 0x22]"

lemma scanValue_jsonString: "printable s \<Longrightarrow> scanValue d (jsonString s @ r) = Done (JString (quoted s), r)"
  by (simp add: jsonString_def scanValue_string)

section \<open>Members of the requests\<close>

definition keys :: "string list" where
  "keys = [''ticket'', ''burnToken'', ''payload'', ''expiresInSeconds'']"

lemma key_text: "key \<in> set keys \<Longrightarrow> printable key \<and> quoted key = key \<and> unquote key = key"
proof -
  assume "key \<in> set keys"
  then have "printable key \<and> quoted key = key" by (auto simp: keys_def ord_def quoteByte_def)
  then show ?thesis using unquote_key by blast
qed

lemmas request_fields = fieldFor_def createFields_def openFields_def inField_def storeString_def storeText_def storeInt_def

section \<open>Bodies\<close>

text \<open>What \<open>JSON.stringify\<close> makes of the two requests.\<close>

definition createBody :: "string \<Rightarrow> string \<Rightarrow> string \<Rightarrow> nat \<Rightarrow> string" where
  "createBody ticket token payload seconds =
     CHR ''{'' # member ''ticket'' (jsonString ticket) @ CHR '','' # member ''burnToken'' (jsonString token) @
     CHR '','' # member ''payload'' (jsonString payload) @
     CHR '','' # member ''expiresInSeconds'' (Itoa seconds) @ [CHR ''}'']"

definition openBody :: "string \<Rightarrow> string" where
  "openBody token = CHR ''{'' # member ''burnToken'' (jsonString token) @ [CHR ''}'']"

lemma scanMembers_string:
  assumes "key \<in> set keys" "printable s" "c \<in> {CHR '','', CHR ''}''}"
  shows "scanMembers d acc (member key (jsonString s) @ c # r) =
    (if c = CHR '','' then scanMembers d (acc @ [(key, JString (quoted s))]) r else Done (JObject (acc @ [(key, JString (quoted s))]), r))"
  by (rule scanMembers_member) (use assms key_text scanValue_jsonString in auto)

lemma scanMembers_number:
  assumes "key \<in> set keys" "c \<in> {CHR '','', CHR ''}''}"
  shows "scanMembers d acc (member key (Itoa n) @ c # r) =
    (if c = CHR '','' then scanMembers d (acc @ [(key, JNumber (Itoa n))]) r else Done (JObject (acc @ [(key, JNumber (Itoa n))]), r))"
proof (rule scanMembers_member)
  show "scanValue d (Itoa n @ c # r) = Done (JNumber (Itoa n), c # r)"
    by (rule scanValue_Itoa) (use assms(2) in \<open>auto simp: isDigit_def digit_def\<close>)
qed (use assms key_text in auto)

lemma scanValue_object:
  assumes "s = CHR 0x22 # t"
  shows "scanValue (Suc d) (CHR ''{'' # s) = scanMembers d [] s"
  using assms by (simp add: scanValue.simps next_byte_Cons isJSpace_def)

lemma member_quote: "\<exists>t. member key text @ r = CHR 0x22 # t"
  by (simp add: member_def)

lemma scan_createBody:
  assumes "printable ticket" "printable token" "printable payload"
  shows "scanValue (Suc d) (createBody ticket token payload seconds) =
    Done (JObject [(''ticket'', JString (quoted ticket)), (''burnToken'', JString (quoted token)),
      (''payload'', JString (quoted payload)), (''expiresInSeconds'', JNumber (Itoa seconds))], [])"
  using assms unfolding createBody_def append_assoc append_Cons append_Nil
  by (subst scanValue_object) (simp_all add: member_quote scanMembers_string scanMembers_number keys_def, simp add: member_def)

lemma scan_openBody:
  assumes "printable token"
  shows "scanValue (Suc d) (openBody token) = Done (JObject [(''burnToken'', JString (quoted token))], [])"
  using assms unfolding openBody_def append_assoc append_Cons append_Nil
  by (subst scanValue_object) (simp_all add: member_quote scanMembers_string keys_def, simp add: member_def)

section \<open>What is accepted\<close>

lemma decode_token: "length tok = 32 \<Longrightarrow> BurnToken_UnmarshalText (unquote (quoted (BurnToken_String tok))) = Inr tok"
  using burn_token.parse_render [of tok] b64Encode_text(1) [of tok]
  by (simp add: unquote_quoted burnTokenLen_def ParseBurnToken_def BurnToken_String_def)

lemma decode_create_members:
  assumes "printable ticket" "printable payload" "length tok = 32" "int seconds \<le> maxInt64"
  shows "decodeStruct True createFields zeroCreateRequest
      (JObject [(''ticket'', JString (quoted ticket)), (''burnToken'', JString (quoted (BurnToken_String tok))),
        (''payload'', JString (quoted payload)), (''expiresInSeconds'', JNumber (Itoa seconds))]) =
    Inr \<lparr>cn_Ticket = ticket, cn_BurnToken = Some tok, cn_Payload = payload, cn_ExpiresInSeconds = int seconds\<rparr>"
proof -
  have k: "unquote ''ticket'' = ''ticket''" "unquote ''burnToken'' = ''burnToken''" "unquote ''payload'' = ''payload''"
    "unquote ''expiresInSeconds'' = ''expiresInSeconds''"
    using key_text by (simp_all add: keys_def)
  show ?thesis
    using assms by (simp add: decodeStruct_def k request_fields unquote_quoted decode_token ParseInt_Itoa zeroCreateRequest_def)
qed

lemma decode_open_members:
  assumes "length tok = 32"
  shows "decodeStruct True openFields zeroOpenRequest (JObject [(''burnToken'', JString (quoted (BurnToken_String tok)))]) =
    Inr \<lparr>on_BurnToken = Some tok\<rparr>"
proof -
  have "unquote ''burnToken'' = ''burnToken''" using key_text by (simp add: keys_def)
  then show ?thesis using assms by (simp add: decodeStruct_def request_fields decode_token)
qed

lemma readValue_end: "readValue True [] = Inl EOF"
  by (simp add: readValue_def scanValue.simps next_byte_def skipSpace_def)

lemma decode_whole:
  assumes "int (length body) \<le> limit" "scanValue maxNestingDepth body = Done (v, [])" "decodeStruct True fs zero v = Inr t"
  shows "decodeStrictJSON fs zero limit body = Inr t"
proof -
  have "readValue True body = Inr (v, [])" using assms(2) by (simp add: readValue_def)
  with assms(1,3) show ?thesis by (simp add: decodeStrictJSON_def readValue_end)
qed

lemma maxNestingDepth_Suc: "maxNestingDepth = Suc 9999"
  by (simp add: maxNestingDepth_def)

lemma decode_createBody:
  assumes "printable ticket" "printable payload" "length tok = 32" "int seconds \<le> maxInt64"
    and "int (length (createBody ticket (BurnToken_String tok) payload seconds)) \<le> limit"
  shows "decodeStrictJSON createFields zeroCreateRequest limit (createBody ticket (BurnToken_String tok) payload seconds) =
    Inr \<lparr>cn_Ticket = ticket, cn_BurnToken = Some tok, cn_Payload = payload, cn_ExpiresInSeconds = int seconds\<rparr>"
proof -
  have "printable (BurnToken_String tok)" using b64Encode_text(1) by (simp add: BurnToken_String_def)
  note scan = scan_createBody [OF assms(1) this assms(2), of 9999, folded maxNestingDepth_Suc]
  show ?thesis by (rule decode_whole [OF assms(5) scan decode_create_members [OF assms(1-4)]])
qed

lemma decode_openBody:
  assumes "length tok = 32" "int (length (openBody (BurnToken_String tok))) \<le> limit"
  shows "decodeStrictJSON openFields zeroOpenRequest limit (openBody (BurnToken_String tok)) = Inr \<lparr>on_BurnToken = Some tok\<rparr>"
proof -
  have "printable (BurnToken_String tok)" using b64Encode_text(1) by (simp add: BurnToken_String_def)
  note scan = scan_openBody [OF this, of 9999, folded maxNestingDepth_Suc]
  show ?thesis by (rule decode_whole [OF assms(2) scan decode_open_members [OF assms(1)]])
qed

lemma length_Itoa_le: "n < 10 ^ k \<Longrightarrow> 0 < k \<Longrightarrow> length (Itoa n) \<le> k"
proof (induction k arbitrary: n)
  case (Suc k)
  show ?case
  proof (cases "n < 10")
    case True
    then show ?thesis by (subst Itoa.simps) simp
  next
    case False
    then have "k \<noteq> 0" using Suc.prems(1) by (cases k) simp_all
    moreover have "n div 10 < 10 ^ k" using Suc.prems(1) by (simp add: less_mult_imp_div_less mult.commute)
    ultimately have "length (Itoa (n div 10)) \<le> k" using Suc.IH by simp
    with False show ?thesis by (subst Itoa.simps) simp
  qed
qed simp

lemma length_BurnToken_String: "length tok = 32 \<Longrightarrow> length (BurnToken_String tok) = 43"
  by (simp add: BurnToken_String_def length_b64Encode)

lemma openBody_fits: "length tok = 32 \<Longrightarrow> int (length (openBody (BurnToken_String tok))) \<le> maxOpenNoteBodySize"
  by (simp add: openBody_def member_def jsonString_def maxOpenNoteBodySize_def length_BurnToken_String
      BurnToken_String_def b64Encode_text length_b64Encode jsonBodyOverhead_def zeroToken_def burnTokenLen_def)

text \<open>The text of a ticket.\<close>

definition ticketText :: "string \<Rightarrow> bool" where
  "ticketText s \<longleftrightarrow> list_all (\<lambda>c. c \<in> set url_alphabet \<or> c = CHR ''.'') s"

lemma ticketText_quoted:
  assumes "ticketText s"
  shows "printable s" "quoted s = s"
proof -
  have c: "0x20 \<le> ord c \<and> ord c < 0x80 \<and> c \<noteq> CHR 0x22 \<and> c \<noteq> CHR 0x5C" if "c \<in> set s" for c
  proof -
    have "c \<in> set url_alphabet \<or> c = CHR ''.''" using that assms by (simp add: ticketText_def list_all_iff)
    then show ?thesis
    proof
      assume "c = CHR ''.''"
      then show ?thesis by (simp add: ord_def)
    qed (rule url_alphabet_text)
  qed
  then show "printable s" by (simp add: printable_def list_all_iff)
  show "quoted s = s" by (rule quoted_plain) (use c in blast)+
qed

lemma ticketText_parts: "ticketText (''v1.'' @ b64Encode p @ ''.'' @ b64Encode sig)"
proof -
  have "ticketText (b64Encode d)" for d
    using sextets_range [of d] sextet_char_in by (auto simp: ticketText_def list_all_iff b64Encode_def EncodeToString_def)
  then show ?thesis by (simp add: ticketText_def) (simp add: url_alphabet_def)
qed

definition escapes :: "string \<Rightarrow> nat" where
  "escapes s = length (filter (\<lambda>c. c = CHR 0x22 \<or> c = CHR 0x5C) s)"

lemma length_createBody:
  assumes "ticketText ticket" "length tok = 32" "seconds \<le> 1209600"
  shows "length (createBody ticket (BurnToken_String tok) payload seconds) \<le> length ticket + length payload + escapes payload + 111"
proof -
  have "length (Itoa seconds) \<le> 7" using assms(3) by (intro length_Itoa_le) simp_all
  then show ?thesis
    using assms ticketText_quoted [OF assms(1)]
    by (simp add: createBody_def member_def jsonString_def length_quoted escapes_def BurnToken_String_def b64Encode_text
        length_b64Encode)
qed

lemma createBody_fits:
  assumes "ticketText ticket" "length ticket \<le> maxTicketLen" "length tok = 32"
    and "int (length payload) \<le> maxSize" "escapes payload \<le> 188" "seconds \<le> 1209600"
  shows "int (length (createBody ticket (BurnToken_String tok) payload seconds)) \<le> maxCreateNoteBodySize maxSize"
  using length_createBody [OF assms(1,3,6), of payload] assms(2,4,5)
  by (simp add: maxCreateNoteBodySize_def jsonBodyOverhead_def maxTicketLen_def length_BurnToken_String zeroToken_def burnTokenLen_def)

lemma decode_limit: "decodeStrictJSON fs zero limit body = Inr t \<Longrightarrow> int (length body) \<le> limit"
  by (auto simp: decodeStrictJSON_def Let_def readValue_def split: sum.splits decode_err.splits scan.splits if_splits)

lemma decodeMembers_known:
  "decodeMembers True fs ms (t0, None) = Inr (t, None) \<Longrightarrow> \<forall>(raw, v) \<in> set ms. fieldFor fs (unquote raw) \<noteq> None"
proof -
  have keep: "decodeMembers True fs ms (t0, Some e) \<noteq> Inr (t, None)" for ms t0 e
    by (induction ms arbitrary: t0) (auto split: option.splits sum.splits)
  show "decodeMembers True fs ms (t0, None) = Inr (t, None) \<Longrightarrow> \<forall>(raw, v) \<in> set ms. fieldFor fs (unquote raw) \<noteq> None"
  proof (induction ms arbitrary: t0)
    case (Cons m ms)
    obtain raw v where m: "m = (raw, v)" by fastforce
    from Cons.prems obtain st t1 err where f: "fieldFor fs (unquote raw) = Some st"
      "decodeMembers True fs ms (t1, err) = Inr (t, None)"
      using keep by (auto simp: m split: option.splits sum.splits)
    with keep have "err = None" by (cases err) auto
    with f Cons.IH show ?case by (auto simp: m)
  qed simp
qed

section \<open>The bodies of the samples\<close>

abbreviation ex_create_body :: string where
  "ex_create_body \<equiv> createBody (tk_Value ex_ticket) (BurnToken_String ex_bytes) ''P'' 7200"

abbreviation ex_open_body :: "BurnToken \<Rightarrow> string" where
  "ex_open_body tok \<equiv> openBody (BurnToken_String tok)"

lemma ex_ticketText: "ticketText (tk_Value ex_ticket)"
  using ticketText_parts by (simp add: ex_ticket_def)

lemma ex_create_decoded:
  "decodeStrictJSON createFields zeroCreateRequest (maxCreateNoteBodySize 1024) ex_create_body =
   Inr \<lparr>cn_Ticket = tk_Value ex_ticket, cn_BurnToken = Some ex_bytes, cn_Payload = ''P'', cn_ExpiresInSeconds = 7200\<rparr>"
proof -
  have "printable ''P''" "escapes ''P'' \<le> 188" by (simp_all add: ord_def escapes_def)
  then show ?thesis
    using decode_createBody [of "tk_Value ex_ticket" "''P''" ex_bytes 7200 "maxCreateNoteBodySize 1024"]
      createBody_fits [of "tk_Value ex_ticket" ex_bytes "''P''" 1024 7200] ex_ticketText ticketText_quoted(1) [OF ex_ticketText]
    by (simp add: length_ex_ticket maxTicketLen_def maxInt64_def)
qed

lemma ex_open_decoded:
  "length tok = 32 \<Longrightarrow>
   decodeStrictJSON openFields zeroOpenRequest maxOpenNoteBodySize (ex_open_body tok) = Inr \<lparr>on_BurnToken = Some tok\<rparr>"
  by (intro decode_openBody openBody_fits)

lemma ex_empty_decoded: "0 \<le> limit \<Longrightarrow> decodeStrictJSON fs zero limit [] = Inl (Msg ''EOF'')"
  by (simp add: decodeStrictJSON_def readValue_end)

section \<open>Properties\<close>

text \<open>C31: every legitimate create request is read as what the client sent, and the limit on the
  body never turns one away: the compact JSON of a ticket the service reads, a burn token, a
  payload of at most the configured size, with up to 188 characters that need an escape, and a
  valid lifetime is within the limit and decodes to exactly these values.\<close>

theorem create_body_decodes:
  assumes "ticketText ticket" "length ticket \<le> maxTicketLen" "length tok = 32"
    and "printable payload" "int (length payload) \<le> maxSize" "escapes payload \<le> 188" "seconds \<le> 1209600"
  shows "decodeStrictJSON createFields zeroCreateRequest (maxCreateNoteBodySize maxSize)
      (createBody ticket (BurnToken_String tok) payload seconds) =
    Inr \<lparr>cn_Ticket = ticket, cn_BurnToken = Some tok, cn_Payload = payload, cn_ExpiresInSeconds = int seconds\<rparr>"
  using assms ticketText_quoted(1) [OF assms(1)]
  by (intro decode_createBody createBody_fits) (simp_all add: maxInt64_def)

theorem create_body_decodes_witness:
  "decodeStrictJSON createFields zeroCreateRequest (maxCreateNoteBodySize 1024)
     (createBody ''v1.QQ.QQ'' (BurnToken_String ex_bytes) ''{}'' 7200) =
   Inr \<lparr>cn_Ticket = ''v1.QQ.QQ'', cn_BurnToken = Some ex_bytes, cn_Payload = ''{}'', cn_ExpiresInSeconds = 7200\<rparr>"
proof -
  have "ticketText ''v1.QQ.QQ''" by (simp add: ticketText_def url_alphabet_def)
  moreover have "printable ''{}''" "escapes ''{}'' \<le> 188" by (simp_all add: ord_def escapes_def)
  ultimately show ?thesis
    using create_body_decodes [of "''v1.QQ.QQ''" ex_bytes "''{}''" 1024 7200] by (simp add: maxTicketLen_def)
qed

text \<open>C13: decoding a request is strict: an accepted body is within the limit and holds one JSON
  value and then only white space; the value is \<open>null\<close> or an object, and every member of it
  belongs to a field of the request.\<close>

theorem decodeStrictJSON_strict:
  assumes "decodeStrictJSON fs zero limit body = Inr t"
  shows "int (length body) \<le> limit \<and>
    (\<exists>v rest. scanValue maxNestingDepth body = Done (v, rest) \<and> skipSpace rest = [] \<and>
      (v = JNull \<and> t = zero \<or>
        (\<exists>ms. v = JObject ms \<and> list_all (\<lambda>(key, _). fieldFor fs (unquote key) \<noteq> None) ms)))"
proof -
  have l: "int (length body) \<le> limit" using assms by (rule decode_limit)
  with assms obtain v rest where v: "scanValue maxNestingDepth body = Done (v, rest)" "decodeStruct True fs zero v = Inr t"
    and r: "readValue True rest = Inl EOF"
    by (auto simp: decodeStrictJSON_def readValue_def [of True body] split: sum.splits decode_err.splits scan.splits if_splits)
  from r have "skipSpace rest = []" by (auto simp: readValue_def split: scan.splits if_splits)
  moreover have "v = JNull \<and> t = zero \<or> (\<exists>ms. v = JObject ms \<and> list_all (\<lambda>(key, _). fieldFor fs (unquote key) \<noteq> None) ms)"
  proof (cases v)
    case (JObject ms)
    with v(2) have "decodeMembers True fs ms (zero, None) = Inr (t, None)"
      by (auto simp: decodeStruct_def split: sum.splits option.splits)
    from decodeMembers_known [OF this] JObject show ?thesis by (auto simp: list_all_iff)
  qed (use v(2) in \<open>simp_all add: decodeStruct_def\<close>)
  ultimately show ?thesis using l v(1) by blast
qed

theorem decodeStrictJSON_strict_witness:
  "int (length (openBody (BurnToken_String ex_bytes))) \<le> maxOpenNoteBodySize"
proof -
  have "decodeStrictJSON openFields zeroOpenRequest maxOpenNoteBodySize (openBody (BurnToken_String ex_bytes)) =
      Inr \<lparr>on_BurnToken = Some ex_bytes\<rparr>"
    by (rule decode_openBody) (simp_all add: openBody_fits)
  from decodeStrictJSON_strict [OF this] show ?thesis by simp
qed

end
