(* ===== verification/ProxyProps.thy ===== *)
theory ProxyProps
  imports Proxy ConfigProps
begin

text \<open>
  What the proxy checks guarantee: which requests pass, and that a client cannot choose the
  address it is known by.
\<close>

section \<open>A sample request\<close>

definition ex_cfg :: Config where
  "ex_cfg = (defaultConfig environmentProduction)\<lparr>cfg_TrustedProxies := defaultTrustedProxyPrefixes,
     cfg_HealthCheckSources := loopbackPrefixes @ defaultTrustedProxyPrefixes\<rparr>"

definition ex_headers :: "string \<Rightarrow> string \<Rightarrow> string" where
  "ex_headers xff name =
     (if name = ''X-Forwarded-For'' then xff else if name = ''X-Forwarded-Proto'' then ''https''
      else if name = ''X-Forwarded-Host'' then ''notes.example''
      else if name = ''Content-Type'' then ''application/json'' else [])"

definition ex_request :: "string \<Rightarrow> http_request" where
  "ex_request xff = \<lparr>rq_Method = ''POST'', rq_URL = Some ''/api/tickets'',
     rq_Segments = [''api'', ''tickets''], rq_Pattern = [],
     rq_RemoteAddr = ''10.0.0.1:443'', rq_Host = ''notes.example'', rq_Header = ex_headers xff, rq_PathValue = (\<lambda>_. []), rq_Body = []\<rparr>"

definition plain :: "string \<Rightarrow> bool" where
  "plain v \<longleftrightarrow> v \<noteq> [] \<and> (\<forall>c \<in> set v. visible c \<and> ascii c \<and> c \<noteq> CHR '','')"

lemma plain_values:
  assumes "plain v"
  shows "TrimSpace v = v" "commaValues v = [v]"
proof -
  show t: "TrimSpace v = v" using assms by (intro TrimSpace_id) (auto simp: plain_def)
  have "CHR '','' \<notin> set v" using assms by (auto simp: plain_def)
  then show "commaValues v = [v]"
    using assms t by (simp add: commaValues_def Split_single) (simp add: plain_def)
qed

lemma plain_append: "plain u \<Longrightarrow> plain v \<Longrightarrow> TrimSpace (u @ CHR '','' # v) = u @ CHR '','' # v"
  by (rule TrimSpace_id) (auto simp: plain_def hd_append)

lemma EqualFold_ascii_length:
  "\<forall>c \<in> set a. ascii c \<Longrightarrow> \<forall>c \<in> set b. ascii c \<Longrightarrow> length a \<noteq> length b \<Longrightarrow> \<not> EqualFold a b"
  by (metis EqualFold_def foldKey_ascii length_map)

lemma ex_plain: "plain ''198.51.100.9''" "plain ''203.0.113.7''" "plain ''https''" "plain ''notes.example''"
  by (simp_all add: plain_def visible_def ascii_def)

lemma ex_addresses:
  "ParseAddr ''198.51.100.9'' = Inr (V4 0xC6336409)" "ParseAddr ''203.0.113.7'' = Inr (V4 0xCB007107)"
  "ParseAddr ''10.0.0.1'' = Inr (V4 0x0A000001)"
proof -
  have "ipv4Fields ''198.51.100.9'' 0 0 [] = Inr [198, 51, 100, 9]" "ipv4Fields ''203.0.113.7'' 0 0 [] = Inr [203, 0, 113, 7]"
    "ipv4Fields ''10.0.0.1'' 0 0 [] = Inr [10, 0, 0, 1]"
    by (simp_all add: digit_def)
  from this [THEN ParseAddr_dotted] show "ParseAddr ''198.51.100.9'' = Inr (V4 0xC6336409)"
    "ParseAddr ''203.0.113.7'' = Inr (V4 0xCB007107)" "ParseAddr ''10.0.0.1'' = Inr (V4 0x0A000001)"
    by (simp_all add: baseVal_def)
qed

lemma ex_forwarded:
  "parseForwardedAddr ''198.51.100.9'' = Inr (V4 0xC6336409)" "parseForwardedAddr ''203.0.113.7'' = Inr (V4 0xCB007107)"
proof -
  have "\<not> EqualFold ''198.51.100.9'' ''unknown''" "\<not> EqualFold ''203.0.113.7'' ''unknown''"
    by (rule EqualFold_ascii_length; simp add: ascii_def)+
  moreover have "unbracket ''198.51.100.9'' = Inr ''198.51.100.9''" "unbracket ''203.0.113.7'' = Inr ''203.0.113.7''"
    by (simp_all add: unbracket_def HasPrefix_def SplitHostPort_def)
  ultimately show "parseForwardedAddr ''198.51.100.9'' = Inr (V4 0xC6336409)"
    "parseForwardedAddr ''203.0.113.7'' = Inr (V4 0xCB007107)"
    by (simp_all add: parseForwardedAddr_def plain_values [OF ex_plain(1)] plain_values [OF ex_plain(2)]
        HasPrefix_def ex_addresses)
qed

lemma ex_remote: "remoteAddrIP ''10.0.0.1:443'' = Inr (V4 0x0A000001)"
proof -
  have "SplitHostPort ''10.0.0.1:443'' = Inr (''10.0.0.1'', ''443'')"
    by (simp add: SplitHostPort_def CutLast_def HasPrefix_def)
  then show ?thesis by (simp add: remoteAddrIP_def ex_addresses)
qed

lemma ex_trusted:
  "prefixContains defaultTrustedProxyPrefixes (V4 0x0A000001)"
  "\<not> prefixContains defaultTrustedProxyPrefixes (V4 0xC6336409)"
  by (simp_all add: prefixContains_def defaultTrustedProxyPrefixes_def Contains_V4)

lemma ex_origin:
  "forwardedPublicOrigin ''notes.example'' = Inr (''https://notes.example'', ''notes.example'')"
proof -
  have "plainHost ''notes.example''" by (simp add: plainHost_def isAlnum_def isLetter_def)
  then have "url_Parse (''https://'' @ ''notes.example'') = Inr \<lparr>url_Scheme = ''https'', url_Host = ''notes.example'',
      url_HasUser = False, url_Path = [], url_RawQuery = [], url_Fragment = []\<rparr>" by (rule url_Parse_https)
  then show ?thesis unfolding forwardedPublicOrigin_def parsePublicOrigin_def by simp
qed

lemma ex_meta:
  assumes "TrimSpace xff = xff" "parseForwardedForChain xff = Inr chain" "xff \<noteq> []"
  shows "parseForwardedMetadata (ex_request xff) =
    Inr \<lparr>fm_forChain = chain, fm_host = ''notes.example'', fm_proto = ''https''\<rparr>"
proof -
  have "ToLower ''https'' = ''https''" by (subst ToLower_ascii) (simp_all add: ascii_def asciiLower_def)
  with assms show ?thesis
    by (simp add: parseForwardedMetadata_def ex_request_def ex_headers_def parseXForwardedHeaders_def
        plain_values [OF ex_plain(3)] plain_values [OF ex_plain(4)])
qed

lemma ex_decide:
  assumes "TrimSpace xff = xff" "parseForwardedForChain xff = Inr chain" "xff \<noteq> []"
    and "forwardedClientIP chain defaultTrustedProxyPrefixes = Inr a"
  shows "proxy_decide ex_cfg [] (ex_request xff) = Accept a (clientKey a) ''https://notes.example''"
proof -
  have "\<not> isHealthCheckRequest (ex_request xff)" by (simp add: isHealthCheckRequest_def ex_request_def)
  moreover have "\<not> cfg_IsDevelopment ex_cfg" "cfg_TrustedProxies ex_cfg = defaultTrustedProxyPrefixes"
    "cfg_PublicOriginHost ex_cfg = []" "cfg_PublicOrigin ex_cfg = []"
    by (simp_all add: ex_cfg_def defaultConfig_def environmentDevelopment_def environmentProduction_def)
  moreover have "rq_RemoteAddr (ex_request xff) = ''10.0.0.1:443''"
    by (simp add: ex_request_def)
  ultimately show ?thesis
    using assms by (simp add: proxy_decide_def ex_remote ex_trusted ex_meta ex_origin)
qed

lemma ex_chain:
  "parseForwardedForChain ''198.51.100.9'' = Inr [V4 0xC6336409]"
  "parseForwardedForChain (''203.0.113.7'' @ CHR '','' # ''198.51.100.9'') = Inr [V4 0xCB007107, V4 0xC6336409]"
  by (simp_all only: parseForwardedForChain_def commaValues_append plain_values [OF ex_plain(1)] plain_values [OF ex_plain(2)])
    (simp_all add: ex_forwarded)

lemma ex_client:
  "forwardedClientIP [V4 0xC6336409] defaultTrustedProxyPrefixes = Inr (V4 0xC6336409)"
  "forwardedClientIP [V4 0xCB007107, V4 0xC6336409] defaultTrustedProxyPrefixes = Inr (V4 0xC6336409)"
  by (simp_all add: forwardedClientIP_def ex_trusted)

section \<open>Properties\<close>

text \<open>C33: the client address taken from a forwarded chain is its rightmost entry that is not a
  trusted proxy, whatever stands to the left of it.\<close>

theorem forwardedClientIP_iff:
  "forwardedClientIP chain tp = Inr a \<longleftrightarrow>
   (\<exists>pre c post. chain = pre @ c # post \<and> a = Unmap c \<and> \<not> prefixContains tp a \<and>
      list_all (prefixContains tp) post)"
proof -
  have "(\<exists>pre c post. rev chain = pre @ c # post \<and> P c \<and> (\<forall>x \<in> set pre. prefixContains tp x)) \<longleftrightarrow>
    (\<exists>pre c post. chain = pre @ c # post \<and> P c \<and> list_all (prefixContains tp) post)" for P
    unfolding rev_swap [of chain]
    by (auto simp: list_all_iff) (metis set_rev, metis append.assoc append_Cons append_Nil rev.simps(2) rev_append rev_rev_ident set_rev)
  from this [of "\<lambda>c. a = Unmap c \<and> \<not> prefixContains tp a"] show ?thesis
    by (simp add: forwardedClientIP_def rightmostUntrusted_Inr conj_assoc)
qed

text \<open>C32: a client cannot choose the address it is known by. In production, putting entries of
  its own in front of the \<open>X-Forwarded-For\<close> value of an accepted request leaves the client
  address, the rate-limit key and the origin as they are, or makes the server reject the
  request.\<close>

theorem client_not_spoofed:
  assumes "proxy_decide cfg o0 r = Accept ip key origin" "\<not> cfg_IsDevelopment cfg" "\<not> isHealthCheckRequest r"
    and "v = rq_Header r ''X-Forwarded-For''" "TrimSpace v = v" "TrimSpace (spoof @ CHR '','' # v) = spoof @ CHR '','' # v"
    and "r' = r\<lparr>rq_Header := (rq_Header r)(''X-Forwarded-For'' := spoof @ CHR '','' # v)\<rparr>"
  shows "proxy_decide cfg o0 r' = Accept ip key origin \<or> (\<exists>reason. proxy_decide cfg o0 r' = Reject reason)"
proof (cases "proxy_decide cfg o0 r'")
  case (Accept ip' key' origin')
  from assms(1-3) obtain remoteIP meta po ph where
    1: "parseForwardedMetadata r = Inr meta" "forwardedPublicOrigin (fm_host meta) = Inr (po, ph)"
      "forwardedClientIP (fm_forChain meta) (cfg_TrustedProxies cfg) = Inr ip" "key = clientKey ip"
      "origin = (if cfg_PublicOrigin cfg \<noteq> [] then cfg_PublicOrigin cfg else po)"
    by (rule proxy_decide_Accept)
  have "\<not> isHealthCheckRequest r'" using assms(3,7) by (simp add: isHealthCheckRequest_def)
  with Accept assms(2) obtain remoteIP' meta' po' ph' where
    2: "parseForwardedMetadata r' = Inr meta'" "forwardedPublicOrigin (fm_host meta') = Inr (po', ph')"
      "forwardedClientIP (fm_forChain meta') (cfg_TrustedProxies cfg) = Inr ip'" "key' = clientKey ip'"
      "origin' = (if cfg_PublicOrigin cfg \<noteq> [] then cfg_PublicOrigin cfg else po')"
    by (rule proxy_decide_Accept)
  let ?p = "TrimSpace (rq_Header r ''X-Forwarded-Proto'')" and ?h = "TrimSpace (rq_Header r ''X-Forwarded-Host'')"
  have m: "parseXForwardedHeaders v ?p ?h = Inr meta"
    using 1(1) assms(4,5) by (simp add: parseForwardedMetadata_Inr)
  have m': "parseXForwardedHeaders (spoof @ CHR '','' # v) ?p ?h = Inr meta'"
    using 2(1) assms(6,7) by (simp add: parseForwardedMetadata_Inr)
  have "fm_host meta' = fm_host meta"
    using m m' by (auto simp: parseXForwardedHeaders_def Let_def split: if_splits sum.splits list.splits)
  moreover obtain pre where "fm_forChain meta' = pre @ fm_forChain meta"
    using parseForwardedForChain_spoof [OF parseXForwardedHeaders_Inr(1) [OF m] parseXForwardedHeaders_Inr(1) [OF m']] ..
  ultimately have "ip' = ip" "po' = po"
    using 1 2 forwardedClientIP_spoof [OF 1(3), of pre] by simp_all
  with Accept 1 2 show ?thesis by simp
qed simp

theorem client_not_spoofed_witness:
  "proxy_decide ex_cfg [] (ex_request (''203.0.113.7'' @ CHR '','' # ''198.51.100.9'')) =
     Accept (V4 0xC6336409) (clientKey (V4 0xC6336409)) ''https://notes.example''"
proof -
  let ?a = "V4 0xC6336409" and ?v = "''198.51.100.9''" and ?s = "''203.0.113.7''"
  have a: "proxy_decide ex_cfg [] (ex_request ?v) = Accept ?a (clientKey ?a) ''https://notes.example''"
    by (rule ex_decide [OF plain_values(1) [OF ex_plain(1)] ex_chain(1) _ ex_client(1)]) simp
  have t: "TrimSpace (?s @ CHR '','' # ?v) = ?s @ CHR '','' # ?v" by (rule plain_append [OF ex_plain(2,1)])
  have d: "\<not> cfg_IsDevelopment ex_cfg"
    by (simp add: ex_cfg_def defaultConfig_def environmentDevelopment_def environmentProduction_def)
  have h: "\<not> isHealthCheckRequest (ex_request ?v)" by (simp add: isHealthCheckRequest_def ex_request_def)
  have v: "?v = rq_Header (ex_request ?v) ''X-Forwarded-For''" by (simp add: ex_request_def ex_headers_def)
  have r: "ex_request (?s @ CHR '','' # ?v) =
      (ex_request ?v)\<lparr>rq_Header := (rq_Header (ex_request ?v))(''X-Forwarded-For'' := ?s @ CHR '','' # ?v)\<rparr>"
    by (simp add: ex_request_def ex_headers_def fun_eq_iff)
  have "\<nexists>reason. proxy_decide ex_cfg [] (ex_request (?s @ CHR '','' # ?v)) = Reject reason"
    using ex_decide [OF t ex_chain(2) _ ex_client(2)] by simp
  with client_not_spoofed [OF a d h v plain_values(1) [OF ex_plain(1)] t r] show ?thesis by blast
qed



end
