(* ===== verification/HandlerProps.thy ===== *)
theory HandlerProps
  imports RequestBodies ProxyProps
begin

text \<open>
  Properties of the endpoints: what releases a note, what the answer to a failed attempt
  reveals, how errors map to statuses, and the limits on lifetimes and bodies.
\<close>

section \<open>Lemmas\<close>

lemma respond_simps:
  "sv_W (respond c b s) = writeJSON c b (sv_W s)" "sv_World (respond c b s) = sv_World s"
  "sv_Limiter (respond c b s) = sv_Limiter s" "sv_Ctx (respond c b s) = sv_Ctx s"
  by (simp_all add: respond_def on_writer_def)

lemma recordFailedOpen_simps:
  "sv_W (recordFailedOpen r reason s) =
     writeJSON 404 (ErrorJSON ''note_open_failed'') (emit [requestEvent ''open_failed'' r reason 404 s] (sv_W s))"
  "sv_World (recordFailedOpen r reason s) = sv_World s"
  by (simp_all add: recordFailedOpen_def respond_def on_writer_def)

lemma writeInternalJSONError_simps:
  "sv_W (writeInternalJSONError r event err s) = writeJSON 500 (ErrorJSON ''internal_error'')
     (emit [logRequestError (Some (routed r s)) (Some ((sv_Ctx s)\<lparr>cx_Err := Some err\<rparr>)) event err []] (sv_W s))"
  "sv_World (writeInternalJSONError r event err s) = sv_World s"
  by (simp_all add: writeInternalJSONError_def respond_def on_writer_def Let_def)

lemmas answer_simps = respond_simps recordFailedOpen_simps writeInternalJSONError_simps

lemma fresh_log [simp]: "fresh (emit ls w) = fresh w"
  by (simp add: fresh_def)

text \<open>The answer a handler gives: status and body.\<close>

definition answers :: "('b, 'l) srv \<Rightarrow> int \<Rightarrow> body \<Rightarrow> bool" where
  "answers s code b \<longleftrightarrow> response_status (sv_W s) = code \<and> wr_Body (sv_W s) = [b]"

lemma answers_respond: "fresh (sv_W s) \<Longrightarrow> answers (respond c b s) c' b' \<longleftrightarrow> c' = c \<and> b' = b"
  by (auto simp: answers_def respond_simps writeJSON_fresh response_status_def)

lemma answers_failed_open:
  "fresh (sv_W s) \<Longrightarrow> answers (recordFailedOpen r x s) c' b' \<longleftrightarrow> c' = 404 \<and> b' = ErrorJSON ''note_open_failed''"
  by (auto simp: answers_def recordFailedOpen_simps writeJSON_fresh response_status_def)

lemma answers_internal:
  "fresh (sv_W s) \<Longrightarrow> answers (writeInternalJSONError r event err s) c' b' \<longleftrightarrow> c' = 500 \<and> b' = ErrorJSON ''internal_error''"
  by (auto simp: answers_def writeInternalJSONError_simps writeJSON_fresh response_status_def)

lemma answers_log: "answers (on_writer (emit ls) s) c' b' = answers s c' b'"
  by (simp add: answers_def on_writer_def response_status_def)

lemmas answer_iffs = answers_respond answers_failed_open answers_internal answers_log

lemma fresh_world [simp]: "fresh (sv_W (s\<lparr>sv_World := w\<rparr>)) = fresh (sv_W s)"
  by simp

text \<open>A request that reaches \<open>OpenNote\<close>.\<close>

definition open_args :: "http_request \<Rightarrow> (NoteID \<times> BurnToken) option" where
  "open_args r =
     (case (requireJSONContentType r, ParseNoteID (rq_PathValue r ''id''),
            decodeStrictJSON openFields zeroOpenRequest maxOpenNoteBodySize (rq_Body r)) of
        (Inr _, Inr nid, Inr req) \<Rightarrow> (case on_BurnToken req of None \<Rightarrow> None | Some tok \<Rightarrow> Some (nid, tok))
      | _ \<Rightarrow> None)"

lemma HandleOpenNote_args:
  assumes "open_args r = Some (nid, tok)"
  shows "HandleOpenNote E S r s =
    (case OpenNote E S nid tok (sv_World s) of
       (Inl err, w) \<Rightarrow> if errors_Is err ErrNoteOpenFailed then recordFailedOpen r ''open_failed'' (s\<lparr>sv_World := w\<rparr>)
         else writeInternalJSONError r ''note_open_failed_internal'' err (s\<lparr>sv_World := w\<rparr>)
     | (Inr n, w) \<Rightarrow> respond 200 (PayloadJSON (nt_Payload n)) (s\<lparr>sv_World := w\<rparr>))"
  using assms unfolding open_args_def HandleOpenNote_def by (auto split: sum.splits option.splits)

lemma HandleOpenNote_no_args:
  assumes "open_args r = None" "fresh (sv_W s)" "answers (HandleOpenNote E S r s) c b"
  shows "sv_World (HandleOpenNote E S r s) = sv_World s" "c \<in> {400, 404, 415}"
    "b \<in> {ErrorJSON ''invalid_request'', ErrorJSON ''note_open_failed''}"
  using assms unfolding open_args_def HandleOpenNote_def
  by (auto simp: answer_iffs answer_simps split: sum.splits option.splits if_splits)

text \<open>Without the note, and with the note but another token, the transaction is the same.\<close>

definition not_openable :: "'b env \<Rightarrow> NoteService \<Rightarrow> NoteID \<Rightarrow> BurnToken \<Rightarrow> 'b store \<Rightarrow> bool" where
  "not_openable E S nid tok st \<longleftrightarrow>
     bGet (db E) (metadata_b st) nid = None \<or>
     (\<exists>m p k ver. note_at E st nid = Some (m, p) \<and> validMetadata S m \<and>
        getRootKey E (root_keys_b st) = Inr k \<and> burnTokenVerifier (rk_Secret k) tok = Inr ver \<and>
        ver \<noteq> md_BurnVerifier m)"

lemma not_openable_tx:
  "not_openable E S nid tok st \<Longrightarrow> OpenNote_tx E S nid tok now st = Inr (None, st)"
  by (auto simp: not_openable_def OpenNote_tx_def note_at_Some Let_def)

lemma not_openable_OpenNote:
  assumes "reliable (db E)" "not_openable E S nid tok (store w)"
  shows "OpenNote E S nid tok w = (Inl (Sentinel ErrNoteOpenFailed), tick (tick w))"
  using not_openable_tx [OF assms(2)] assms(1)
  by (simp add: OpenNote_def s_now_def db_Update_reliable)

text \<open>A created note has the identifier of the path.\<close>

lemma CreateNote_id:
  assumes "env_ok E" "CreateNote E S nid t tok payload l w = (Inr savedID, w')"
  shows "savedID = nid"
  using env_okD(1) [OF assms(1)] assms(2)
proof (cases rule: CreateNote_cases)
  case (stored p w1 st)
  then show ?thesis using prepareNote_meta [OF assms(1)] by (metis sum.inject(2))
qed simp

section \<open>A sample server\<close>

definition ex_api_request :: "bytes \<Rightarrow> http_request" where
  "ex_api_request b = (ex_request ''198.51.100.9'')\<lparr>rq_PathValue := (\<lambda>_. NoteID_String ex_bytes), rq_Body := b\<rparr>"

definition ex_srv :: "((bytes \<times> bytes) list) world \<Rightarrow> ((bytes \<times> bytes) list, int) srv" where
  "ex_srv w = \<lparr>sv_World = w, sv_Limiter = Some ex_limiter,
     sv_Ctx = \<lparr>cx_ClientIP = InvalidAddr, cx_ClientKey = ''unknown'', cx_Err = None, cx_PublicOrigin = [], cx_StatusCode = 200\<rparr>,
     sv_Pattern = [], sv_W = new_writer, sv_Log = []\<rparr>"

lemma ex_id: "ParseNoteID (NoteID_String ex_bytes) = Inr ex_bytes"
  by (rule note_id.parse_render) (simp add: noteIDLen_def)

lemma ex_media_type: "ParseMediaType ''application/json'' = Inr ''application/json''"
proof -
  have "ToLower ''application/json'' = ''application/json''"
    by (subst ToLower_ascii) (simp_all add: ascii_def asciiLower_def)
  moreover have "TrimSpace ''application/json'' = ''application/json''" by (rule TrimSpace_id) (simp_all add: visible_def)
  moreover have "consumeToken ''application/json'' = (''application'', ''/json'')" "consumeToken ''json'' = (''json'', [])"
    by (simp_all add: consumeToken_def isTokenChar_def isTSpecial_def visible_def)
  ultimately show ?thesis
    using ParseMediaType_plain [of "''application/json''" "''application''" "''json''"] by (simp del: ToLower.simps)
qed

lemma ex_json: "requireJSONContentType (ex_api_request b) = Inr ()"
  by (simp add: requireJSONContentType_def ex_api_request_def ex_request_def ex_headers_def ex_media_type)

lemma ex_open_args:
  "length tok = 32 \<Longrightarrow> open_args (ex_api_request (ex_open_body tok)) = Some (ex_bytes, tok)"
  by (simp add: open_args_def ex_json) (simp add: ex_api_request_def ex_id ex_open_decoded)

lemma ex_srv_simps [simp]: "sv_World (ex_srv w) = w" "sv_W (ex_srv w) = new_writer"
  by (simp_all add: ex_srv_def)

section \<open>Properties\<close>

text \<open>C28: the open endpoint answers with a payload only when \<open>OpenNote\<close> returned that payload,
  burning the note; every answer to a request that does not reach \<open>OpenNote\<close> is one of
  three error statuses and leaves the database alone.\<close>

theorem open_endpoint_releases:
  assumes "fresh (sv_W s)" "answers (HandleOpenNote E S r s) c b"
  shows "case b of
      PayloadJSON p \<Rightarrow> c = 200 \<and> (\<exists>nid tok n w. open_args r = Some (nid, tok) \<and>
        OpenNote E S nid tok (sv_World s) = (Inr n, w) \<and> p = nt_Payload n \<and>
        sv_World (HandleOpenNote E S r s) = w)
    | _ \<Rightarrow> c \<in> {400, 404, 415, 500}"
proof (cases "open_args r")
  case None
  from HandleOpenNote_no_args [OF None assms] show ?thesis by (cases b) auto
next
  case (Some a)
  obtain nid tok where a: "a = (nid, tok)" by fastforce
  obtain res w where o: "OpenNote E S nid tok (sv_World s) = (res, w)" by fastforce
  note H = HandleOpenNote_args [OF Some [unfolded a], of E S s, unfolded o]
  show ?thesis
  proof (cases res)
    case (Inl err)
    with assms H show ?thesis by (auto simp: answer_iffs split: if_splits)
  next
    case (Inr n)
    with assms H have "c = 200" "b = PayloadJSON (nt_Payload n)" "sv_World (HandleOpenNote E S r s) = w"
      by (simp_all add: answer_iffs answer_simps)
    with Some a o Inr show ?thesis by auto
  qed
qed

theorem open_endpoint_releases_witness:
  "\<exists>c b. answers (HandleOpenNote (ex_env None (\<lambda>_. ex_time)) (NewNoteService 1024) (ex_api_request []) (ex_srv ex_full)) c b \<and>
     c \<in> {400, 404, 415, 500}"
proof -
  let ?s = "HandleOpenNote (ex_env None (\<lambda>_. ex_time)) (NewNoteService 1024) (ex_api_request []) (ex_srv ex_full)"
  have "answers ?s 400 (ErrorJSON ''invalid_request'')"
    by (simp add: HandleOpenNote_def ex_json)
      (simp add: ex_api_request_def ex_id ex_empty_decoded maxOpenNoteBodySize_def jsonBodyOverhead_def answer_iffs)
  with open_endpoint_releases [OF _ this] show ?thesis by auto
qed

text \<open>C29: the answer to a failed attempt does not tell whether the note exists: on a working
  database, a token that is not the note's gets the same response, headers, body and logged
  event, whether a note is stored under the identifier or not.\<close>

theorem open_hides_existence:
  assumes "reliable (db E)" "open_args r = Some (nid, tok)" "sv_W s1 = sv_W s2"
    and "sv_Pattern s1 = sv_Pattern s2" "cx_ClientKey (sv_Ctx s1) = cx_ClientKey (sv_Ctx s2)"
    and "not_openable E S nid tok (store (sv_World s1))" "not_openable E S nid tok (store (sv_World s2))"
  shows "sv_W (HandleOpenNote E S r s1) = sv_W (HandleOpenNote E S r s2)"
  using assms by (simp add: HandleOpenNote_args not_openable_OpenNote recordFailedOpen_simps requestEvent_def routed_def)

theorem open_hides_existence_witness:
  "sv_W (HandleOpenNote (ex_env None (\<lambda>_. ex_time)) (NewNoteService 1024) (ex_api_request (ex_open_body ex_bytes)) (ex_srv ex_foreign)) =
   sv_W (HandleOpenNote (ex_env None (\<lambda>_. ex_time)) (NewNoteService 1024) (ex_api_request (ex_open_body ex_bytes)) (ex_srv ex_world))"
proof -
  let ?E = "ex_env None (\<lambda>_. ex_time)" and ?S = "NewNoteService 1024"
  have rel: "reliable (db ?E)" by (simp add: mem_bolt_reliable)
  have 1: "not_openable ?E ?S ex_bytes ex_bytes (store (sv_World (ex_srv ex_foreign)))"
    unfolding not_openable_def ex_srv_simps
    by (intro disjI2 exI [of _ "ex_md_of ex_other_verifier"] exI [of _ "''P''"] exI [of _ ex_rk] exI [of _ "ex_verifier ex_bytes"])
      (simp add: ex_foreign_note ex_md_valid ex_foreign_root ex_getRootKey ex_burnTokenVerifier ex_other_verifier
        ex_other_verifier(1) [symmetric])
  have 2: "not_openable ?E ?S ex_bytes ex_bytes (store (sv_World (ex_srv ex_world)))"
    by (simp add: not_openable_def ex_world_def ex_store_def)
  show ?thesis by (rule open_hides_existence [OF rel ex_open_args _ _ _ 1 2]) (simp_all add: ex_srv_def)
qed

text \<open>What the lifetime check of the HTTP layer accepts is exactly what the service accepts:
  whole seconds between one hour and 14 days, without overflow.\<close>

lemma requestedLifetime_agrees:
  "requestedLifetime seconds =
     (case normalizeLifetime (NewNoteService mx) (seconds * Second) of
        Inl e \<Rightarrow> Inl (Sentinel ErrLifetimeInvalid) | Inr l \<Rightarrow> Inr (seconds * Second))"
proof -
  have c: "minNoteLifetime div Second = 3600" "maxNoteLifetime div Second = 1209600"
    by (simp_all add: go_simps)
  show ?thesis
  proof (cases "3600 \<le> seconds \<and> seconds \<le> 1209600")
    case True
    then have "int64 (seconds * Second) = seconds * Second"
      by (intro int64_id) (simp_all add: minInt64_def maxInt64_def duration_values)
    with True show ?thesis
      by (simp add: requestedLifetime_def c normalizeLifetime_def) (simp add: go_simps)
  next
    case False
    then show ?thesis
      by (auto simp: requestedLifetime_def c normalizeLifetime_def) (simp_all add: go_simps)
  qed
qed


text \<open>The status and the error code of each kind of failure of \<open>CreateNote\<close>; an error of any
  other kind is an internal error.\<close>

definition create_failure :: "goerr \<Rightarrow> int \<times> string" where
  "create_failure err =
     (if errors_Is err ErrPayloadTooLarge then (413, ''note_too_large'')
      else if errors_Is err ErrStorageFull then (507, ''storage_full'')
      else if errors_Is err ErrLifetimeInvalid then (400, ''invalid_expiration'')
      else if errors_Is err ErrTicketUnusable then (409, ''ticket_unusable'')
      else if errors_Is err ErrTicketInvalid \<or> errors_Is err ErrTicketExpired then (400, ''ticket_unusable'')
      else if errors_Is err ErrPayloadEmpty then (400, ''invalid_request'')
      else (500, ''internal_error''))"

lemma answers_createNoteError:
  assumes "fresh (sv_W s)"
  shows "answers (createNoteError r err s) c b \<longleftrightarrow> (c, b) = (fst (create_failure err), ErrorJSON (snd (create_failure err)))"
  using assms
  by (auto simp: createNoteError_def create_failure_def answer_iffs ticketErrorStatus_def statusInsufficientStorage_def)

text \<open>A request that reaches \<open>CreateNote\<close>.\<close>

definition create_args :: "int \<Rightarrow> http_request \<Rightarrow> (NoteID \<times> createNoteRequest \<times> BurnToken \<times> duration) option" where
  "create_args maxSize r =
     (case (requireJSONContentType r, ParseNoteID (rq_PathValue r ''id''),
            decodeStrictJSON createFields zeroCreateRequest (maxCreateNoteBodySize maxSize) (rq_Body r)) of
        (Inr _, Inr nid, Inr req) \<Rightarrow>
          (case (cn_BurnToken req, requestedLifetime (cn_ExpiresInSeconds req)) of
             (Some tok, Inr l) \<Rightarrow> Some (nid, req, tok, l) | _ \<Rightarrow> None)
      | _ \<Rightarrow> None)"

lemma HandleCreateNote_args:
  assumes "create_args (svc_maxSize S) r = Some (nid, req, tok, l)"
  shows "HandleCreateNote E S r s =
    (case CreateNote E S nid (cn_Ticket req) tok (cn_Payload req) l (sv_World s) of
       (Inl err, w) \<Rightarrow> createNoteError r err (s\<lparr>sv_World := w\<rparr>)
     | (Inr savedID, w) \<Rightarrow> respond 201 (CreatedJSON (NoteID_String savedID) (l div Second)) (s\<lparr>sv_World := w\<rparr>))"
  using assms unfolding create_args_def HandleCreateNote_def by (auto split: sum.splits option.splits)

lemma HandleCreateNote_no_args:
  assumes "create_args (svc_maxSize S) r = None" "fresh (sv_W s)" "answers (HandleCreateNote E S r s) c b"
  shows "sv_World (HandleCreateNote E S r s) = sv_World s" "c \<in> {400, 413, 415}"
    "b \<in> {ErrorJSON ''invalid_request'', ErrorJSON ''invalid_expiration''}"
  using assms unfolding create_args_def HandleCreateNote_def
  by (auto simp: answer_iffs answer_simps split: sum.splits option.splits if_splits)

text \<open>C30: the create endpoint answers 201, with the identifier of the path and the requested
  number of seconds, exactly when \<open>CreateNote\<close> stored the note; every failure of
  \<open>CreateNote\<close> gets the status and code of its kind, and a request that does not reach it
  gets 400, 413 or 415 and leaves the database alone.\<close>

theorem create_endpoint:
  assumes "env_ok E" "fresh (sv_W s)" "answers (HandleCreateNote E S r s) c b"
  shows "case create_args (svc_maxSize S) r of
      None \<Rightarrow> c \<in> {400, 413, 415} \<and> sv_World (HandleCreateNote E S r s) = sv_World s
    | Some (nid, req, tok, l) \<Rightarrow>
        (case CreateNote E S nid (cn_Ticket req) tok (cn_Payload req) l (sv_World s) of
           (Inr savedID, w) \<Rightarrow> savedID = nid \<and> c = 201 \<and>
             b = CreatedJSON (rq_PathValue r ''id'') (cn_ExpiresInSeconds req) \<and>
             sv_World (HandleCreateNote E S r s) = w
         | (Inl err, w) \<Rightarrow> c \<noteq> 201 \<and> (c, b) = (fst (create_failure err), ErrorJSON (snd (create_failure err))))"
proof (cases "create_args (svc_maxSize S) r")
  case None
  from HandleCreateNote_no_args [OF None assms(2,3)] None show ?thesis by simp
next
  case (Some a)
  obtain nid req tok l where a: "a = (nid, req, tok, l)" by (cases a) auto
  obtain res w where cr: "CreateNote E S nid (cn_Ticket req) tok (cn_Payload req) l (sv_World s) = (res, w)" by fastforce
  note H = HandleCreateNote_args [OF Some [unfolded a], of E s, unfolded cr]
  from Some a have path: "rq_PathValue r ''id'' = NoteID_String nid" and life: "requestedLifetime (cn_ExpiresInSeconds req) = Inr l"
    using note_id.parse_iff [of "rq_PathValue r ''id''" nid]
    by (auto simp: create_args_def split: sum.splits option.splits)
  show ?thesis
  proof (cases res)
    case (Inl err)
    with assms(2,3) H answers_createNoteError [of "s\<lparr>sv_World := w\<rparr>" r err c b]
    have "(c, b) = (fst (create_failure err), ErrorJSON (snd (create_failure err)))" by simp
    moreover have "fst (create_failure err) \<noteq> 201" by (simp add: create_failure_def)
    ultimately show ?thesis using Some a cr Inl by simp
  next
    case (Inr savedID)
    have "savedID = nid"
      using assms(1) cr unfolding Inr by (rule CreateNote_id)
    moreover have "l div Second = cn_ExpiresInSeconds req"
      using life requestedLifetime_agrees [of "cn_ExpiresInSeconds req" 1]
      by (auto simp: duration_values split: sum.splits)
    moreover have "c = 201 \<and> b = CreatedJSON (NoteID_String savedID) (l div Second) \<and> sv_World (HandleCreateNote E S r s) = w"
      using assms(2,3) H Inr by (simp add: answer_iffs answer_simps)
    ultimately show ?thesis using Some a cr Inr path by simp
  qed
qed


theorem create_endpoint_witness:
  "answers (HandleCreateNote (ex_env None (\<lambda>_. ex_time)) (NewNoteService 1024) (ex_api_request ex_create_body) (ex_srv ex_world))
     201 (CreatedJSON (NoteID_String ex_bytes) 7200)"
proof -
  let ?E = "ex_env None (\<lambda>_. ex_time)" and ?S = "NewNoteService 1024" and ?s = "ex_srv ex_world"
  have l: "requestedLifetime 7200 = Inr (2 * Hour)"
    by (simp add: requestedLifetime_def go_simps int64_id minInt64_def maxInt64_def)
  then have args: "create_args (svc_maxSize ?S) (ex_api_request ex_create_body) =
      Some (ex_bytes, \<lparr>cn_Ticket = tk_Value ex_ticket, cn_BurnToken = Some ex_bytes, cn_Payload = ''P'',
        cn_ExpiresInSeconds = 7200\<rparr>, ex_bytes, 2 * Hour)"
    by (simp add: create_args_def ex_json)
      (simp add: ex_api_request_def ex_id ex_create_decoded)
  obtain w' where c: "CreateNote ?E ?S ex_bytes (tk_Value ex_ticket) ex_bytes ''P'' (2 * Hour) ex_world = (Inr ex_bytes, w')"
    using ex_CreateNote by blast
  have "sv_W (HandleCreateNote ?E ?S (ex_api_request ex_create_body) ?s) =
      writeJSON 201 (CreatedJSON (NoteID_String ex_bytes) (2 * Hour div Second)) new_writer"
    by (subst HandleCreateNote_args [OF args]) (simp add: c respond_simps)
  then obtain c0 b0 where a: "answers (HandleCreateNote ?E ?S (ex_api_request ex_create_body) ?s) c0 b0"
    by (auto simp: answers_def writeJSON_fresh)
  have "fresh (sv_W ?s)" by simp
  from create_endpoint [OF ex_env_ok this a] args c have "c0 = 201"
    "b0 = CreatedJSON (rq_PathValue (ex_api_request ex_create_body) ''id'') 7200" by simp_all
  with a show ?thesis by (simp add: ex_api_request_def)
qed

end
