(* ===== verification/RequestPath.thy ===== *)
theory RequestPath
  imports Responses HandlerProps
begin

text \<open>
  The way of a request through the chain of middleware and handlers: which check it passes or
  fails, the one operation of the service it calls, and what the response then holds.
\<close>

section \<open>The way of a request\<close>

abbreviation proxy_verdict :: "('b, 'l, 't) app \<Rightarrow> http_request \<Rightarrow> proxy_decision" where
  "proxy_verdict A r \<equiv> proxy_decide (ap_Cfg A) [] r"

definition behind :: "('b, 'l, 't) app \<Rightarrow> ('b, 'l) handler" where
  "behind A = RateLimitMiddleware (ap_Env A) (ap_Tokens A) (ap_Iter A) (CSRFMiddleware (mux A))"

definition entered :: "('b, 'l, 't) app \<Rightarrow> Addr \<Rightarrow> string \<Rightarrow> string \<Rightarrow> ('b, 'l) srv \<Rightarrow> ('b, 'l) srv" where
  "entered A ip key origin s =
     on_writer (\<lambda>w. fold (\<lambda>(k, v). set_header k v) (securityHeaders (ap_Cfg A)) w)
       (s\<lparr>sv_Ctx := \<lparr>cx_ClientIP = ip, cx_ClientKey = key, cx_Err = None, cx_PublicOrigin = origin, cx_StatusCode = 200\<rparr>\<rparr>)"

lemma entered_simps [simp]:
  "sv_World (entered A ip key origin s) = sv_World s" "sv_Limiter (entered A ip key origin s) = sv_Limiter s"
  "cx_ClientKey (sv_Ctx (entered A ip key origin s)) = key" "sv_Log (entered A ip key origin s) = sv_Log s"
  "cx_StatusCode (sv_Ctx (entered A ip key origin s)) = 200"
  by (simp_all add: entered_def on_writer_def)

lemma fresh_set_headers: "fresh (fold (\<lambda>(k, v). set_header k v) hs w) \<longleftrightarrow> fresh w"
proof (induction hs arbitrary: w)
  case (Cons h hs)
  then show ?case by (cases h) simp
qed simp

lemma fresh_entered [simp]: "fresh (sv_W (entered A ip key origin s)) \<longleftrightarrow> fresh (sv_W s)"
  by (simp add: entered_def on_writer_def fresh_set_headers)

lemma Logging_simps:
  "sv_World (LoggingMiddleware next r s) = sv_World (next r s)"
  "sv_Limiter (LoggingMiddleware next r s) = sv_Limiter (next r s)"
  "sv_W (LoggingMiddleware next r s) = sv_W (next r s)"
  by (simp_all add: LoggingMiddleware_def Let_def)

lemma server_rejected:
  assumes "proxy_verdict A r = Reject reason"
  shows "sv_World (newServerHandler A r s) = sv_World s" "sv_Limiter (newServerHandler A r s) = sv_Limiter s"
    "sv_W (newServerHandler A r s) = rejectProxyRequest (routed r s) reason (remoteText r) (sv_W s)" "sv_Log (newServerHandler A r s) = sv_Log s"
  using assms
  by (simp_all add: newServerHandler_def Let_def HTTPContextMiddleware_def TrustedProxyMiddleware_def on_writer_def routed_def)

lemma server_chain:
  assumes "proxy_verdict A r = Accept ip key origin"
  shows "newServerHandler A r s =
    LoggingMiddleware (\<lambda>r s. behind A r (on_writer (\<lambda>w. fold (\<lambda>(k, v). set_header k v) (securityHeaders (ap_Cfg A)) w) s)) r
      (s\<lparr>sv_Ctx := \<lparr>cx_ClientIP = ip, cx_ClientKey = key, cx_Err = None, cx_PublicOrigin = origin, cx_StatusCode = 200\<rparr>\<rparr>)"
  using assms
  by (simp add: newServerHandler_def Let_def HTTPContextMiddleware_def TrustedProxyMiddleware_def behind_def
      SecurityHeadersMiddleware_def [abs_def])

lemma server_log:
  assumes "proxy_verdict A r = Accept ip key origin" "t = behind A r (entered A ip key origin s)"
  shows "sv_Log (newServerHandler A r s) =
    (let codes = drop (length (wr_Codes (sv_W s))) (wr_Codes (sv_W t));
         code = (if codes = [] then cx_StatusCode (sv_Ctx t) else last codes);
         route = routePattern (Some (routed r t))
     in if isSuccessfulStaticRoute route code then sv_Log t
        else sv_Log t @ [requestLine (rq_Method r) route code (cx_ClientKey (sv_Ctx t)) (cx_Err (sv_Ctx t))])"
proof -
  have "sv_Log (LoggingMiddleware next r s') =
    (let s1 = next r s'; codes = drop (length (wr_Codes (sv_W s'))) (wr_Codes (sv_W s1));
         code = (if codes = [] then cx_StatusCode (sv_Ctx s1) else last codes);
         route = routePattern (Some (routed r s1))
     in if isSuccessfulStaticRoute route code then sv_Log s1
        else sv_Log s1 @ [requestLine (rq_Method r) route code (cx_ClientKey (sv_Ctx s1)) (cx_Err (sv_Ctx s1))])"
    for "next" and s' :: "('a, 'b) srv"
    by (simp add: LoggingMiddleware_def Let_def)
  then show ?thesis
    unfolding server_chain [OF assms(1)] assms(2) entered_def by (simp add: Let_def)
qed

lemma server_accepted:
  assumes "proxy_verdict A r = Accept ip key origin"
  shows "sv_World (newServerHandler A r s) = sv_World (behind A r (entered A ip key origin s))"
    "sv_Limiter (newServerHandler A r s) = sv_Limiter (behind A r (entered A ip key origin s))"
    "sv_W (newServerHandler A r s) = sv_W (behind A r (entered A ip key origin s))"
  using server_chain [OF assms, of s] by (simp_all add: Logging_simps entered_def)

text \<open>Behind the proxy check a request is refused by the limiter, refused as cross-origin, or
  dispatched; the limiter lets health checks and static assets pass unseen.\<close>

lemma behind_cases:
  obtains (limited) l t0 w0 retry l' where "sv_Limiter s = Some l" "s_now (ap_Env A) (sv_World s) = (t0, w0)"
      "AllowRequest (ap_Tokens A) (ap_Iter A) l (cx_ClientKey (sv_Ctx s)) t0 = ((False, retry), l')"
      "\<not> isHealthCheckRequest r" "\<not> isStaticAssetRequest r"
      "behind A r s = on_writer (\<lambda>w. emit [logSecurityEvent ''rate_limited''
           [(''route'', LogText (routePattern (Some (routed r s)))), (''client'', LogText (cx_ClientKey (sv_Ctx s))),
            (''status'', LogInt 429)]]
         (writeErrorResponse r 429 ''rate_limited'' (set_header ''Retry-After'' (Itoa (nat (roundEven (Seconds retry))))
           (emit (saturationLog (ap_Iter A) l (cx_ClientKey (sv_Ctx s)) t0) w))))
         (s\<lparr>sv_World := w0, sv_Limiter := Some l'\<rparr>)"
  | (passed) s1 where "behind A r s = CSRFMiddleware (mux A) r s1" "sv_W s1 = sv_W s" "sv_Ctx s1 = sv_Ctx s"
      "sv_Log s1 = sv_Log s \<and> sv_Pattern s1 = sv_Pattern s"
      "(sv_World s1, sv_Limiter s1) = (sv_World s, sv_Limiter s) \<and>
         (isHealthCheckRequest r \<or> isStaticAssetRequest r \<or> sv_Limiter s = None) \<or>
       (\<exists>l t0 l' d. sv_Limiter s = Some l \<and> s_now (ap_Env A) (sv_World s) = (t0, sv_World s1) \<and>
         AllowRequest (ap_Tokens A) (ap_Iter A) l (cx_ClientKey (sv_Ctx s)) t0 = ((True, d), l') \<and> sv_Limiter s1 = Some l')"
proof (cases "isHealthCheckRequest r \<or> isStaticAssetRequest r \<or> sv_Limiter s = None")
  case True
  then have "behind A r s = CSRFMiddleware (mux A) r s"
    by (auto simp: behind_def RateLimitMiddleware_def)
  with True show ?thesis by (intro passed [of s]) auto
next
  case False
  then obtain l where l: "sv_Limiter s = Some l" by auto
  obtain t0 w0 where t: "s_now (ap_Env A) (sv_World s) = (t0, w0)" by fastforce
  obtain ok d l' where a: "AllowRequest (ap_Tokens A) (ap_Iter A) l (cx_ClientKey (sv_Ctx s)) t0 = ((ok, d), l')"
    by (metis surj_pair)
  note b = behind_def RateLimitMiddleware_def Let_def routed_def
  show ?thesis
  proof (cases ok)
    case True
    with False l t a have "behind A r s = CSRFMiddleware (mux A) r (s\<lparr>sv_World := w0, sv_Limiter := Some l'\<rparr>)"
      by (simp add: b)
    with True l t a show ?thesis by (intro passed [of "s\<lparr>sv_World := w0, sv_Limiter := Some l'\<rparr>"]) auto
  next
    case no: False
    with False l t a show ?thesis by (intro limited [of l t0 w0 d l']) (simp_all add: b)
  qed
qed

lemma CSRF_cases:
  obtains (refused) msg where "crossOriginCheck r = Some msg"
      "CSRFMiddleware next r s = on_writer (http_Error msg 403) s"
  | (passed) "crossOriginCheck r = None" "CSRFMiddleware next r s = next r s"
  by (cases "crossOriginCheck r") (simp_all add: CSRFMiddleware_def)

section \<open>The service behind the routes\<close>

text \<open>The operation of the note service that a request calls, if any.\<close>

definition service_call :: "('b, 'l, 't) app \<Rightarrow> http_request \<Rightarrow> request option" where
  "service_call A r =
     (case snd (mux_match r) of
        EpTicket \<Rightarrow> Some IssueTicket
      | EpCreateNote v \<Rightarrow>
          map_option (\<lambda>(nid, req, tok, l). StoreNote nid (cn_Ticket req) tok (cn_Payload req) l)
            (create_args (svc_maxSize (ap_Service A)) (with_id v r))
      | EpOpenNote v \<Rightarrow> map_option (\<lambda>(nid, tok). ReadNote nid tok) (open_args (with_id v r))
      | _ \<Rightarrow> None)"

text \<open>A response that neither releases a payload nor reports a created note.\<close>

definition harmless :: "writer \<Rightarrow> bool" where
  "harmless w \<longleftrightarrow> (\<forall>p. PayloadJSON p \<notin> set (wr_Body w)) \<and> response_status w \<noteq> 201"

text \<open>At most one call of \<open>WriteHeader\<close>, the one that set the status.\<close>

definition one_code :: "writer \<Rightarrow> bool" where
  "one_code w \<longleftrightarrow> wr_Codes w = [response_status w] \<or> wr_Codes w = [] \<and> response_status w = 200"

text \<open>What the file server of \<open>net/http\<close> does with a response: it leaves the headers that
  are not about content alone and answers with the bytes of a file, a redirect or an error.\<close>

definition file_server_ok :: "(string \<Rightarrow> writer \<Rightarrow> writer) \<Rightarrow> bool" where
  "file_server_ok files \<longleftrightarrow>
     (\<forall>asset w. (\<forall>hs. protected_headers hs \<longrightarrow> carries hs w \<longrightarrow> carries hs (files asset w)) \<and>
       (fresh w \<longrightarrow> harmless (files asset w) \<and> one_code (files asset w)))"

lemma harmless_respond:
  "fresh (sv_W s) \<Longrightarrow> harmless (sv_W (respond c b s)) \<longleftrightarrow> c \<noteq> 201 \<and> (\<forall>p. b \<noteq> PayloadJSON p)"
  by (auto simp: harmless_def respond_simps writeJSON_fresh response_status_def)

lemma harmless_writeJSON: "fresh w \<Longrightarrow> harmless (writeJSON c b w) \<longleftrightarrow> c \<noteq> 201 \<and> (\<forall>p. b \<noteq> PayloadJSON p)"
  by (auto simp: harmless_def writeJSON_fresh response_status_def)

lemma harmless_internal: "fresh (sv_W s) \<Longrightarrow> harmless (sv_W (writeInternalJSONError r event err s))"
  by (simp add: writeInternalJSONError_def Let_def on_writer_def harmless_respond)

lemma harmless_View:
  assumes "wr_Body (sv_W s) = []" "response_status (sv_W s) \<noteq> 201"
  shows "harmless (sv_W (View T v name m s))"
  using assms
  by (auto simp: View_def execute_def internalServerError_def on_writer_def harmless_def response_status_def
      setNoStore_def writer_defs split: option.split sum.split)

lemma harmless_NotFound: "fresh (sv_W s) \<Longrightarrow> harmless (sv_W (NotFound T v r s))"
  unfolding NotFound_def errorPage_def
  by (rule harmless_View) (auto simp: fresh_def on_writer_def response_status_def setNoStore_def writer_defs)

lemma harmless_writers:
  assumes "fresh w"
  shows "harmless (healthz w)" "harmless (http_NotFound w)" "harmless (http_Error t 403 w)"
    "harmless (writeErrorResponse r 400 x w)" "harmless (writeErrorResponse r 429 x w)"
  using assms
  by (auto simp: fresh_def harmless_def response_status_def healthz_def http_NotFound_def http_Error_def
      writeErrorResponse_def writeJSON_def setNoStore_def writer_defs)

lemma harmless_log [simp]: "harmless (emit ls w) = harmless w"
  by (simp add: harmless_def response_status_def)

lemma fresh_status [simp]: "fresh w \<Longrightarrow> response_status w = 200"
  by (simp add: fresh_def response_status_def)

lemma fresh_body [simp]: "fresh w \<Longrightarrow> wr_Body w = []"
  by (simp add: fresh_def)

lemma dispatch_idle:
  assumes "service_call A r = None" "mux_match r = (pattern, e)" "fresh (sv_W s)" "file_server_ok (ap_Files A)"
  shows "sv_World (dispatch A e r s) = sv_World s" "harmless (sv_W (dispatch A e r s))"
proof -
  have view: "sv_World (View T v name m t) = sv_World t" for T v name m and t :: "('a, 'b) srv"
    by (simp add: View_def execute_def internalServerError_def on_writer_def split: option.split sum.split)
  have nf: "sv_World (NotFound T v q s) = sv_World s" for T v q
    by (simp add: NotFound_def errorPage_def view on_writer_def)
  have files: "harmless (HandleStaticAssets ver (ap_Files A) q (sv_W s))" for ver q
    using assms(3,4) by (auto simp: HandleStaticAssets_def harmless_writers file_server_ok_def split: option.split)
  have create: "sv_World (HandleCreateNote (ap_Env A) (ap_Service A) q s) = sv_World s \<and>
      harmless (sv_W (HandleCreateNote (ap_Env A) (ap_Service A) q s))"
    if "create_args (svc_maxSize (ap_Service A)) q = None" for q
    using that assms(3) unfolding create_args_def HandleCreateNote_def
    by (auto simp: harmless_writeJSON respond_simps split: sum.splits option.splits if_splits)
  have "open": "sv_World (HandleOpenNote (ap_Env A) (ap_Service A) q s) = sv_World s \<and>
      harmless (sv_W (HandleOpenNote (ap_Env A) (ap_Service A) q s))"
    if "open_args q = None" for q
    using that assms(3) unfolding open_args_def HandleOpenNote_def recordFailedOpen_def
    by (auto simp: harmless_writeJSON respond_simps on_writer_def split: sum.splits option.splits if_splits)
  from assms(1,2) have c: "create_args (svc_maxSize (ap_Service A)) (with_id v r) = None" if "e = EpCreateNote v" for v
    using that by (simp add: service_call_def)
  from assms(1,2) have o: "open_args (with_id v r) = None" if "e = EpOpenNote v" for v
    using that by (simp add: service_call_def)
  have t: "e \<noteq> EpTicket" using assms(1,2) by (auto simp: service_call_def)
  have preview: "sv_World (HandlePreviewNote T v q s) = sv_World s \<and> harmless (sv_W (HandlePreviewNote T v q s))" for T v q
    using assms(3) by (simp add: HandlePreviewNote_def view nf harmless_View harmless_NotFound split: sum.split)
  have "sv_World (dispatch A e r s) = sv_World s \<and> harmless (sv_W (dispatch A e r s))"
  proof (cases e)
    case (EpStatic v asset)
    then show ?thesis using files by (simp add: dispatch_def on_writer_def)
  next
    case EpHealth
    then show ?thesis using assms(3) by (simp add: dispatch_def on_writer_def harmless_writers)
  next
    case EpStaticName
    then show ?thesis using assms(3) by (simp add: dispatch_def on_writer_def harmless_writers)
  qed (use assms(3) c o t create "open" preview in
      \<open>simp_all add: dispatch_def HandleCreateNoteView_def HandleGetConfig_def view nf respond_simps
        harmless_View harmless_NotFound harmless_writeJSON\<close>)
  then show "sv_World (dispatch A e r s) = sv_World s" "harmless (sv_W (dispatch A e r s))" by simp_all
qed

lemma dispatch_call:
  assumes "service_call A r = Some q" "mux_match r = (pattern, e)" "fresh (sv_W s)"
    and "serve (ap_Env A) (ap_Service A) q (sv_World s) = (rep, w')"
  shows "sv_World (dispatch A e r s) = w'"
    "PayloadJSON p \<in> set (wr_Body (sv_W (dispatch A e r s))) \<Longrightarrow>
      \<exists>nid tok n. q = ReadNote nid tok \<and> rep = ReadReply (Inr n) \<and> p = nt_Payload n"
    "q = StoreNote pid tk tok payload l \<Longrightarrow> rep = StoreReply (Inr n) \<Longrightarrow> response_status (sv_W (dispatch A e r s)) = 201"
proof -
  have internal: "PayloadJSON p \<notin> set (wr_Body (sv_W (writeInternalJSONError q event err t)))" if "fresh (sv_W t)"
    for q event err and t :: "('a, 'b) srv"
    using harmless_internal [OF that] by (simp add: harmless_def)
  have "sv_World (dispatch A e r s) = w' \<and>
    (PayloadJSON p \<in> set (wr_Body (sv_W (dispatch A e r s))) \<longrightarrow>
      (\<exists>nid tok n. q = ReadNote nid tok \<and> rep = ReadReply (Inr n) \<and> p = nt_Payload n)) \<and>
    (q = StoreNote pid tk tok payload l \<longrightarrow> rep = StoreReply (Inr n) \<longrightarrow> response_status (sv_W (dispatch A e r s)) = 201)"
  proof (cases e)
    case EpTicket
    with assms(1,2) have "q = IssueTicket" by (simp add: service_call_def)
    with EpTicket assms(3,4) internal show ?thesis
      by (auto simp: dispatch_def HandleCreateTicket_def respond_simps writeInternalJSONError_simps writeJSON_fresh
          split: prod.splits sum.splits)
  next
    case (EpCreateNote v)
    with assms(1,2) obtain nid req tok0 l0
      where a: "create_args (svc_maxSize (ap_Service A)) (with_id v r) = Some (nid, req, tok0, l0)"
        and q: "q = StoreNote nid (cn_Ticket req) tok0 (cn_Payload req) l0"
      by (auto simp: service_call_def)
    obtain res w1 where c: "CreateNote (ap_Env A) (ap_Service A) nid (cn_Ticket req) tok0 (cn_Payload req) l0 (sv_World s) = (res, w1)"
      by fastforce
    with q assms(4) have rep: "rep = StoreReply res" "w1 = w'" by simp_all
    have world: "sv_World (createNoteError q err t) = sv_World t" for q err and t :: "('a, 'b) srv"
      by (simp add: createNoteError_def respond_simps writeInternalJSONError_simps on_writer_def)
    have body: "PayloadJSON p \<notin> set (wr_Body (sv_W (createNoteError q err t)))" if "fresh (sv_W t)"
      for q err and t :: "('a, 'b) srv"
      using that internal by (auto simp: createNoteError_def respond_simps on_writer_def writeJSON_fresh)
    note H = HandleCreateNote_args [OF a, of "ap_Env A" s, unfolded c]
    show ?thesis
      using EpCreateNote H rep q assms(3) world body
      by (cases res) (auto simp: dispatch_def respond_simps writeJSON_fresh response_status_def)
  next
    case (EpOpenNote v)
    with assms(1,2) obtain nid tok0 where a: "open_args (with_id v r) = Some (nid, tok0)"
        and q: "q = ReadNote nid tok0"
      by (auto simp: service_call_def)
    obtain res w1 where o: "OpenNote (ap_Env A) (ap_Service A) nid tok0 (sv_World s) = (res, w1)" by fastforce
    with q assms(4) have rep: "rep = ReadReply res" "w1 = w'" by simp_all
    note H = HandleOpenNote_args [OF a, of "ap_Env A" "ap_Service A" s, unfolded o]
    show ?thesis
      using EpOpenNote H rep q assms(3) internal
      by (cases res) (auto simp: dispatch_def answer_simps writeJSON_fresh)
  qed (use assms(1,2) in \<open>simp_all add: service_call_def\<close>)
  then show "sv_World (dispatch A e r s) = w'"
    "PayloadJSON p \<in> set (wr_Body (sv_W (dispatch A e r s))) \<Longrightarrow>
      \<exists>nid tok n. q = ReadNote nid tok \<and> rep = ReadReply (Inr n) \<and> p = nt_Payload n"
    "q = StoreNote pid tk tok payload l \<Longrightarrow> rep = StoreReply (Inr n) \<Longrightarrow> response_status (sv_W (dispatch A e r s)) = 201"
    by blast+
qed

section \<open>One request\<close>

text \<open>The server handles a request with a new response and context.\<close>

definition arriving :: "'b world \<Rightarrow> 'l RateLimiter option \<Rightarrow> ('b, 'l) srv" where
  "arriving world limiter =
     \<lparr>sv_World = world, sv_Limiter = limiter,
      sv_Ctx = \<lparr>cx_ClientIP = InvalidAddr, cx_ClientKey = [], cx_Err = None, cx_PublicOrigin = [], cx_StatusCode = 0\<rparr>,
      sv_Pattern = [], sv_W = new_writer, sv_Log = []\<rparr>"

lemma arriving_simps [simp]:
  "sv_World (arriving w l) = w" "sv_Limiter (arriving w l) = l" "sv_W (arriving w l) = new_writer" "sv_Log (arriving w l) = []"
  by (simp_all add: arriving_def)

definition http_step ::
  "('b, 'l, 't) app \<Rightarrow> http_request \<Rightarrow> 'b world \<times> 'l RateLimiter option \<Rightarrow> writer \<times> ('b world \<times> 'l RateLimiter option)" where
  "http_step A r st =
     (let s = newServerHandler A r (arriving (fst st) (snd st)) in (sv_W s, (sv_World s, sv_Limiter s)))"

lemma store_s_now: "s_now E w = (t, w') \<Longrightarrow> store w' = store w \<and> steps w' = Suc (steps w) \<and> t = clock E (steps w)"
  by (auto simp: s_now_def)

text \<open>A request calls at most one operation of the service, after everything that guards it.\<close>

lemma newServerHandler_cases:
  assumes "file_server_ok (ap_Files A)" "fresh (sv_W s)"
  obtains (idle) "store (sv_World (newServerHandler A r s)) = store (sv_World s)" "harmless (sv_W (newServerHandler A r s))"
      "steps (sv_World s) \<le> steps (sv_World (newServerHandler A r s))"
  | (called) ip key origin q w0 rep where "proxy_verdict A r = Accept ip key origin"
      "crossOriginCheck r = None" "service_call A r = Some q"
      "store w0 = store (sv_World s)" "steps (sv_World s) \<le> steps w0"
      "serve (ap_Env A) (ap_Service A) q w0 = (rep, sv_World (newServerHandler A r s))"
      "isHealthCheckRequest r \<or> isStaticAssetRequest r \<or> sv_Limiter s = None \<or>
        (\<exists>l d l'. sv_Limiter s = Some l \<and>
          AllowRequest (ap_Tokens A) (ap_Iter A) l key (clock (ap_Env A) (steps (sv_World s))) = ((True, d), l'))"
      "\<forall>p. PayloadJSON p \<in> set (wr_Body (sv_W (newServerHandler A r s))) \<longrightarrow>
        (\<exists>nid tok n. q = ReadNote nid tok \<and> rep = ReadReply (Inr n) \<and> p = nt_Payload n)"
      "\<forall>pid tk tok payload l n. q = StoreNote pid tk tok payload l \<longrightarrow> rep = StoreReply (Inr n) \<longrightarrow>
        response_status (sv_W (newServerHandler A r s)) = 201"
proof (cases "proxy_verdict A r")
  case (Reject reason)
  with assms(2) show ?thesis
    by (intro idle) (simp_all add: server_rejected rejectProxyRequest_def harmless_writers)
next
  case (Accept ip key origin)
  let ?s = "entered A ip key origin s"
  have eq: "sv_World (newServerHandler A r s) = sv_World (behind A r ?s)"
    "sv_W (newServerHandler A r s) = sv_W (behind A r ?s)"
    using server_accepted [OF Accept] by simp_all
  show ?thesis
  proof (cases rule: behind_cases [of ?s A r])
    case (limited l t0 w0 retry l')
    from store_s_now [OF limited(2)] limited(6) assms(2) show ?thesis
      by (intro idle) (simp_all add: eq on_writer_def harmless_writers)
  next
    case (passed s1)
    have s1: "store (sv_World s1) = store (sv_World s)" "steps (sv_World s) \<le> steps (sv_World s1)" "fresh (sv_W s1)"
      using passed(2,5) assms(2) by (auto dest!: store_s_now)
    have lim: "isHealthCheckRequest r \<or> isStaticAssetRequest r \<or> sv_Limiter s = None \<or>
        (\<exists>l d l'. sv_Limiter s = Some l \<and>
          AllowRequest (ap_Tokens A) (ap_Iter A) l key (clock (ap_Env A) (steps (sv_World s))) = ((True, d), l'))"
      using passed(5) by (auto dest!: store_s_now)
    show ?thesis
    proof (cases rule: CSRF_cases [of r "mux A" s1])
      case (refused msg)
      with s1 passed(1) show ?thesis
        by (intro idle) (simp_all add: eq on_writer_def harmless_writers)
    next
      case csrf: passed
      obtain pattern e where m: "mux_match r = (pattern, e)" by fastforce
      let ?t = "s1\<lparr>sv_Pattern := pattern\<rparr>"
      have b: "behind A r ?s = dispatch A e r ?t"
        using passed(1) csrf(2) m by (simp add: mux_def)
      have t: "fresh (sv_W ?t)" "sv_World ?t = sv_World s1" using s1 by simp_all
      show ?thesis
      proof (cases "service_call A r")
        case None
        from dispatch_idle [OF None m t(1) assms(1)] s1 show ?thesis
          by (intro idle) (simp_all add: eq b)
      next
        case (Some q)
        obtain rep w' where v: "serve (ap_Env A) (ap_Service A) q (sv_World ?t) = (rep, w')" by fastforce
        note d = dispatch_call [OF Some m t(1) v]
        show ?thesis
        proof (rule called [OF Accept csrf(1) Some, of "sv_World s1" rep])
          show "serve (ap_Env A) (ap_Service A) q (sv_World s1) = (rep, sv_World (newServerHandler A r s))"
            using v d(1) by (simp add: eq b)
        qed (use s1 lim d(2,3) in \<open>simp_all add: eq b\<close>)
      qed
    qed
  qed
qed

lemma service_call_POST:
  assumes "service_call A r = Some q"
  shows "rq_Method r = ''POST''" "\<not> isHealthCheckRequest r" "\<not> isStaticAssetRequest r"
proof -
  from assms show "rq_Method r = ''POST''"
    by (auto simp: service_call_def mux_match_def getRoute_def split: if_splits option.splits list.splits prod.splits)
  then show "\<not> isHealthCheckRequest r" "\<not> isStaticAssetRequest r"
    by (auto simp: isHealthCheckRequest_def isStaticAssetRequest_def split: option.splits)
qed

end
