(* ===== verification/ServerProps.thy ===== *)
theory ServerProps
  imports RequestPath
begin

text \<open>
  Properties of the whole chain of middleware and handlers: what a request must pass before
  it reaches the database, what every response carries, what is logged, and the at-most-once
  opening of notes as clients over HTTP see it.
\<close>

section \<open>Logged codes\<close>

lemma one_code_writers:
  assumes "fresh w"
  shows "one_code (writeJSON c b w)" "one_code (healthz w)" "one_code (http_NotFound w)" "one_code (http_Error t c w)"
    "one_code (writeErrorResponse r c x w)" "one_code w"
  using assms
  by (auto simp: fresh_def one_code_def response_status_def healthz_def http_NotFound_def http_Error_def
      writeErrorResponse_def writeJSON_def setNoStore_def writer_defs)

lemma one_code_log [simp]: "one_code (emit ls w) = one_code w"
  by (simp add: one_code_def response_status_def)

text \<open>A response whose status has been written, and whatever follows that is not another one.\<close>

definition coded :: "int \<Rightarrow> writer \<Rightarrow> bool" where
  "coded c w \<longleftrightarrow> wr_Codes w = [c] \<and> (\<exists>h. wr_Sent w = Some (c, h))"

lemma coded_kept [simp]:
  "coded c (set_header k v w) = coded c w" "coded c w \<Longrightarrow> coded c (write_body b w)" "coded c (setNoStore w) = coded c w"
  by (auto simp: coded_def set_header_def write_body_def send_header_def setNoStore_def Let_def split: option.splits)

lemma coded_fresh: "fresh w \<Longrightarrow> coded c (write_header c w)"
  by (simp add: coded_def fresh_def write_header_def send_header_def)

lemma coded_one_code: "coded c w \<Longrightarrow> one_code w"
  by (auto simp: coded_def one_code_def response_status_def)

lemma one_code_body: "fresh w \<Longrightarrow> one_code (write_body b w)"
  by (simp add: fresh_def one_code_def response_status_def write_body_def send_header_def Let_def)

lemma one_code_error: "fresh (sv_W s) \<Longrightarrow> one_code (sv_W (internalServerError err s))"
  by (simp add: internalServerError_def on_writer_def) (rule coded_one_code [of 500], simp add: coded_fresh)

lemma one_code_View: "fresh (sv_W s) \<Longrightarrow> one_code (sv_W (View T v name m s))"
  by (simp add: View_def execute_def one_code_error on_writer_def one_code_body split: option.split sum.split)

text \<open>The error page can be rendered.\<close>

definition renders :: "'t templates \<Rightarrow> 't Views \<Rightarrow> string \<Rightarrow> view_model \<Rightarrow> bool" where
  "renders T v name m \<longleftrightarrow>
     (case vw_Templates v name of
        Some t \<Rightarrow> \<exists>html. executeTemplate T t m = Inr html
      | None \<Rightarrow> \<exists>t html. parseTemplate T name = Inr t \<and> executeTemplate T t m = Inr html)"

lemma View_renders:
  assumes "renders T v name m"
  obtains html where "View T v name m s = on_writer (\<lambda>w. write_body (Page html)
    (setNoStore (set_header ''Content-Type'' ''text/html; charset=utf-8'' w))) s"
  using assms unfolding renders_def View_def execute_def by (cases "vw_Templates v name") fastforce+

lemma one_code_NotFound:
  assumes "fresh (sv_W s)" "\<forall>m. renders T v ''error'' m"
  shows "one_code (sv_W (NotFound T v r s))"
proof -
  obtain html where v: "NotFound T v r s = on_writer (\<lambda>w. write_body (Page html)
      (setNoStore (set_header ''Content-Type'' ''text/html; charset=utf-8'' w)))
    (on_writer (\<lambda>w. write_header 404 (set_header ''Content-Type'' ''text/html; charset=utf-8'' (setNoStore w))) s)"
    unfolding NotFound_def errorPage_def using View_renders [OF assms(2) [THEN spec]] by metis
  have "coded 404 (sv_W (NotFound T v r s))"
    using assms(1) by (simp add: v on_writer_def coded_fresh)
  then show ?thesis by (rule coded_one_code)
qed

text \<open>Without a page to render, the client has seen 404 and the logging writer 404 and 500.\<close>

lemma NotFound_logs_500:
  assumes "fresh (sv_W s)" "vw_Templates v ''error'' = None" "parseTemplate T ''error'' = Inl err"
  shows "response_status (sv_W (NotFound T v r s)) = 404 \<and> wr_Codes (sv_W (NotFound T v r s)) = [404, 500]"
proof -
  let ?w = "write_header 404 (set_header ''Content-Type'' ''text/html; charset=utf-8'' (setNoStore (sv_W s)))"
  have 404: "wr_Codes ?w = [404] \<and> (\<exists>h. wr_Sent ?w = Some (404, h))"
    using coded_fresh [of "set_header ''Content-Type'' ''text/html; charset=utf-8'' (setNoStore (sv_W s))" 404] assms(1)
    by (simp add: coded_def)
  have keep: "wr_Codes (set_header k x w) = wr_Codes w" "wr_Sent (set_header k x w) = wr_Sent w"
    "wr_Codes (del_header k w) = wr_Codes w" "wr_Sent (del_header k w) = wr_Sent w" for k x w
    by (simp_all add: set_header_def del_header_def)
  show ?thesis
    using 404 assms(2,3)
    by (auto simp: NotFound_def errorPage_def View_def internalServerError_def on_writer_def response_status_def
        write_body_def Let_def write_header_def [of 500] send_header_def setNoStore_def keep split: option.split)
qed

lemma one_code_dispatch:
  assumes "fresh (sv_W s)" "\<forall>m. renders (ap_Templates A) (ap_Views A) ''error'' m" "file_server_ok (ap_Files A)"
  shows "one_code (sv_W (dispatch A e r s))"
proof -
  have files: "one_code (HandleStaticAssets ver (ap_Files A) q (sv_W s))" for ver q
    using assms(1,3) by (auto simp: HandleStaticAssets_def one_code_writers file_server_ok_def split: option.split)
  have create: "one_code (sv_W (createNoteError q err t))" if "fresh (sv_W t)" for q err and t :: "('a, 'b) srv"
    using that by (simp add: createNoteError_def on_writer_def respond_simps writeInternalJSONError_simps one_code_writers)
  show ?thesis
  proof (cases e)
    case (EpCreateNote v)
    then show ?thesis
      using assms(1) unfolding EpCreateNote dispatch_def endpoint.case HandleCreateNote_def
      by (auto simp: respond_simps one_code_writers create split: sum.split option.split prod.split)
  next
    case (EpOpenNote v)
    then show ?thesis
      using assms(1) unfolding EpOpenNote dispatch_def endpoint.case HandleOpenNote_def
      by (auto simp: respond_simps one_code_writers recordFailedOpen_simps writeInternalJSONError_simps
          split: sum.split option.split prod.split)
  next
    case EpTicket
    then show ?thesis
      using assms(1) by (auto simp: dispatch_def HandleCreateTicket_def respond_simps writeInternalJSONError_simps
          one_code_writers split: sum.split prod.split)
  next
    case (EpPreview v)
    with assms show ?thesis
      by (simp add: dispatch_def HandlePreviewNote_def one_code_View one_code_NotFound split: sum.split)
  qed (use assms files in \<open>simp_all add: dispatch_def HandleCreateNoteView_def HandleGetConfig_def one_code_View
      one_code_NotFound respond_simps on_writer_def one_code_writers\<close>)
qed

lemma one_code_behind:
  assumes "fresh (sv_W s)" "\<forall>m. renders (ap_Templates A) (ap_Views A) ''error'' m" "file_server_ok (ap_Files A)"
  shows "one_code (sv_W (behind A r s))"
proof (cases rule: behind_cases [of s A r])
  case limited
  with assms(1) show ?thesis by (simp add: on_writer_def one_code_writers)
next
  case (passed s1)
  then have s1: "fresh (sv_W s1)" using assms(1) by simp
  show ?thesis
  proof (cases rule: CSRF_cases [of r "mux A" s1])
    case refused
    with s1 passed(1) show ?thesis by (simp add: on_writer_def one_code_writers)
  next
    case csrf: passed
    with s1 passed(1) one_code_dispatch [OF _ assms(2,3)] show ?thesis
      by (simp add: mux_def split: prod.split)
  qed
qed

text \<open>What the log is made of besides the codes: the handlers leave it alone, and the
  multiplexer sets the pattern.\<close>

definition same_log :: "('b, 'l) srv \<Rightarrow> ('b, 'l) srv \<Rightarrow> bool" where
  "same_log s t \<longleftrightarrow> cx_StatusCode (sv_Ctx s) = cx_StatusCode (sv_Ctx t) \<and>
     cx_ClientKey (sv_Ctx s) = cx_ClientKey (sv_Ctx t) \<and> sv_Log s = sv_Log t"

lemma dispatch_same_log: "same_log (dispatch A e r s) s" "sv_Pattern (dispatch A e r s) = sv_Pattern s"
proof -
  have view: "cx_StatusCode (sv_Ctx (View T v name m t)) = cx_StatusCode (sv_Ctx t)"
    "cx_ClientKey (sv_Ctx (View T v name m t)) = cx_ClientKey (sv_Ctx t)"
    "sv_Log (View T v name m t) = sv_Log t" "sv_Pattern (View T v name m t) = sv_Pattern t"
    for T v name m and t :: "('a, 'b) srv"
    by (simp_all add: View_def execute_def internalServerError_def on_writer_def split: option.split sum.split)
  note simps = view NotFound_def errorPage_def respond_def writeInternalJSONError_def recordFailedOpen_def on_writer_def
    createNoteError_def Let_def
  have "same_log (dispatch A e r s) s \<and> sv_Pattern (dispatch A e r s) = sv_Pattern s"
    by (cases e) (auto simp: dispatch_def HandleCreateNoteView_def HandlePreviewNote_def HandleGetConfig_def
        HandleCreateNote_def HandleOpenNote_def HandleCreateTicket_def simps same_log_def
        split: sum.split option.split prod.split)
  then show "same_log (dispatch A e r s) s" "sv_Pattern (dispatch A e r s) = sv_Pattern s" by simp_all
qed

lemma behind_same_log:
  "same_log (behind A r s) s" "sv_Pattern (behind A r s) \<in> {sv_Pattern s, fst (mux_match r)}"
proof -
  have c: "same_log (CSRFMiddleware (mux A) r t) t \<and> sv_Pattern (CSRFMiddleware (mux A) r t) \<in> {sv_Pattern t, fst (mux_match r)}"
    for t :: "('a, 'b) srv"
    using dispatch_same_log [of A "snd (mux_match r)" r "t\<lparr>sv_Pattern := fst (mux_match r)\<rparr>"]
    by (cases rule: CSRF_cases [of r "mux A" t]) (simp_all add: mux_def on_writer_def same_log_def split_beta)
  have "same_log (behind A r s) s \<and> sv_Pattern (behind A r s) \<in> {sv_Pattern s, fst (mux_match r)}"
  proof (cases rule: behind_cases [of s A r])
    case limited
    then show ?thesis by (simp add: on_writer_def same_log_def)
  next
    case (passed s1)
    with c [of s1] show ?thesis by (simp add: same_log_def)
  qed
  then show "same_log (behind A r s) s" "sv_Pattern (behind A r s) \<in> {sv_Pattern s, fst (mux_match r)}" by simp_all
qed

section \<open>Notes over HTTP\<close>

text \<open>Responses as clients see them: one that releases the note of an identifier, and one that
  reports a note stored under it.\<close>

definition released :: "NoteID \<Rightarrow> http_request \<times> writer \<Rightarrow> bool" where
  "released nid x \<longleftrightarrow> (\<exists>v. snd (mux_match (fst x)) = EpOpenNote v \<and> ParseNoteID v = Inr nid) \<and>
     (\<exists>p. PayloadJSON p \<in> set (wr_Body (snd x)))"

definition reported :: "NoteID \<Rightarrow> http_request \<times> writer \<Rightarrow> bool" where
  "reported nid x \<longleftrightarrow> (\<exists>v. snd (mux_match (fst x)) = EpCreateNote v \<and> ParseNoteID v = Inr nid) \<and>
     response_status (snd x) = 201"

definition http_gain :: "NoteID \<Rightarrow> http_request \<Rightarrow> writer \<Rightarrow> int" where
  "http_gain nid r w = of_bool (released nid (r, w)) - of_bool (reported nid (r, w))"

lemma service_call_path:
  "service_call A r = Some (ReadNote nid tok) \<Longrightarrow> \<exists>v. snd (mux_match r) = EpOpenNote v \<and> ParseNoteID v = Inr nid"
  "service_call A r = Some (StoreNote nid t tok payload l) \<Longrightarrow> \<exists>v. snd (mux_match r) = EpCreateNote v \<and> ParseNoteID v = Inr nid"
  by (auto simp: service_call_def open_args_def create_args_def with_id_def
      split: endpoint.splits sum.splits option.splits prod.splits)

lemma present_store: "store w = store w' \<Longrightarrow> present_pot E nid w = present_pot E nid w'"
  by (simp add: present_pot_def present_def)

lemma http_step_gain:
  assumes "env_ok (ap_Env A) \<and> file_server_ok (ap_Files A)" "http_step A r st = (w, st')"
  shows "http_gain nid r w + present_pot (ap_Env A) nid (fst st') \<le> present_pot (ap_Env A) nid (fst st)"
proof -
  let ?s = "arriving (fst st) (snd st)" and ?E = "ap_Env A"
  have w: "w = sv_W (newServerHandler A r ?s)" "fst st' = sv_World (newServerHandler A r ?s)"
    using assms(2) by (auto simp: http_step_def Let_def)
  have files: "file_server_ok (ap_Files A)" and env: "env_ok ?E" using assms(1) by simp_all
  have fr: "fresh (sv_W ?s)" by simp
  from files fr show ?thesis
  proof (cases rule: newServerHandler_cases [where r = r])
    case idle
    with w have "\<not> released nid (r, w)" by (auto simp: released_def harmless_def)
    moreover have "present_pot ?E nid (fst st') = present_pot ?E nid (fst st)"
      using idle(1) w(2) by (intro present_store) simp
    ultimately show ?thesis by (simp add: http_gain_def)
  next
    case (called ip key origin q w0 rep)
    have pot: "present_pot ?E nid w0 = present_pot ?E nid (fst st)"
      using called(4) by (intro present_store) simp
    have rel: "released nid (r, w) \<Longrightarrow> opened_note nid (q, rep)"
    proof -
      assume r: "released nid (r, w)"
      then obtain n tok nt where q: "q = ReadNote n tok" "rep = ReadReply (Inr nt)"
        using called(8) w(1) by (auto simp: released_def)
      with service_call_path(1) [of A r n tok] called(3) r have "n = nid" by (auto simp: released_def)
      with q show ?thesis by simp
    qed
    have "created_note nid (q, rep) \<Longrightarrow> reported nid (r, w)"
    proof -
      assume c: "created_note nid (q, rep)"
      then obtain p t tok payload l where q: "q = StoreNote p t tok payload l" "rep = StoreReply (Inr nid)"
        by (elim created_noteE) auto
      with called(6) have "CreateNote ?E (ap_Service A) p t tok payload l w0 = (Inr nid, sv_World (newServerHandler A r ?s))"
        by (auto split: prod.splits)
      with env have "nid = p" by (rule CreateNote_id)
      with q called(3,9) service_call_path(2) [of A r p t tok payload l] w(1) show ?thesis
        by (auto simp: reported_def)
    qed
    with rel have "http_gain nid r w \<le> open_gain nid q rep"
      by (auto simp: http_gain_def open_gain_def)
    with serve_open_gain [OF env called(6), of nid] pot w(2) show ?thesis by simp
  qed
qed

interpretation http_runs: paid_gains "http_step A" "\<lambda>r. env_ok (ap_Env A) \<and> file_server_ok (ap_Files A)" "\<lambda>st. True"
    "http_gain nid" "\<lambda>st. present_pot (ap_Env A) nid (fst st)" for A nid
  by unfold_locales (simp_all add: http_step_gain)

lemma sum_http_gain:
  "(\<Sum>(r, w) \<leftarrow> lg. http_gain nid r w) =
   int (length (filter (released nid) lg)) - int (length (filter (reported nid) lg))"
  by (induction lg) (auto simp: http_gain_def)

lemma http_step_inv:
  assumes "(env_ok (ap_Env A) \<and> (\<forall>i. 0 < clock (ap_Env A) i) \<and> svc_maxLifetime (ap_Service A) = maxNoteLifetime) \<and>
      file_server_ok (ap_Files A)"
    and "store_inv (ap_Env A) (ap_Service A) (store (fst st))" "http_step A r st = (w, st')"
  shows "store_inv (ap_Env A) (ap_Service A) (store (fst st'))"
proof -
  let ?s = "arriving (fst st) (snd st)"
  have w: "fst st' = sv_World (newServerHandler A r ?s)"
    using assms(3) by (auto simp: http_step_def Let_def)
  have files: "file_server_ok (ap_Files A)" using assms(1) by simp
  have fr: "fresh (sv_W ?s)" by simp
  from files fr show ?thesis
  proof (cases rule: newServerHandler_cases [where r = r])
    case idle
    with assms(2) w show ?thesis by simp
  next
    case (called ip key origin q w0 rep)
    have "length nid = 32" if "q = StoreNote nid t tok payload l" for nid t tok payload l
      using service_call_path(2) [of A r nid t tok payload l] called(3) that note_id.parse_iff
      by (auto simp: noteIDLen_def)
    then have "sound_setting (ap_Env A) (ap_Service A) q"
      using assms(1) by (cases q) (auto simp: sound_setting_def)
    from serve_inv [OF this _ called(6)] assms(2) called(4) w show ?thesis by simp
  qed
qed

interpretation http_inv: kept_invariant "http_step A"
    "\<lambda>r. (env_ok (ap_Env A) \<and> (\<forall>i. 0 < clock (ap_Env A) i) \<and> svc_maxLifetime (ap_Service A) = maxNoteLifetime) \<and>
      file_server_ok (ap_Files A)"
    "\<lambda>st. store_inv (ap_Env A) (ap_Service A) (store (fst st))" for A
  by unfold_locales (rule http_step_inv)

text \<open>Every request keeps the store invariant.\<close>

lemma http_keeps_inv:
  assumes "env_ok (ap_Env A)" "\<forall>i. 0 < clock (ap_Env A) i" "svc_maxLifetime (ap_Service A) = maxNoteLifetime"
    and "file_server_ok (ap_Files A)" "store_inv (ap_Env A) (ap_Service A) (store world)"
    and "run_all (http_step A) rs (world, limiter) = (lg, (world', limiter'))"
  shows "store_inv (ap_Env A) (ap_Service A) (store world')"
  using http_inv.run_inv [OF _ _ assms(6)] assms(1-5) by simp

section \<open>A sample application\<close>

definition ex_files :: "string \<Rightarrow> writer \<Rightarrow> writer" where
  "ex_files asset w = http_NotFound w"

definition ex_app :: "((bytes \<times> bytes) list, int, string) app" where
  "ex_app =
     \<lparr>ap_Env = ex_env None (\<lambda>_. ex_time), ap_Service = NewNoteService 1024, ap_Cfg = ex_cfg, ap_Tokens = ex_tokens, ap_Iter = (\<lambda>xs. xs),
      ap_Templates = \<lparr>parseTemplate = Inr, executeTemplate = (\<lambda>t m. Inr t)\<rparr>,
      ap_Views = \<lparr>vw_AssetVersion = ''v'', vw_Brand = cfg_Brand ex_cfg, vw_Templates = Map.empty, vw_Reload = True\<rparr>,
      ap_AssetVersion = ''v'', ap_Files = ex_files\<rparr>"

lemma ex_app_simps [simp]:
  "ap_Env ex_app = ex_env None (\<lambda>_. ex_time)" "ap_Service ex_app = NewNoteService 1024" "ap_Cfg ex_app = ex_cfg"
  "ap_Tokens ex_app = ex_tokens" "ap_Files ex_app = ex_files"
  by (simp_all add: ex_app_def)

lemma ex_files_ok: "file_server_ok ex_files"
proof -
  have "carries hs (ex_files asset w)" if "protected_headers hs" "carries hs w" for hs asset w
    using response_invariant.kept_writers(4) [OF carries_kept [OF that(1)] that(2)] by (simp add: ex_files_def)
  then show ?thesis by (simp add: file_server_ok_def ex_files_def harmless_writers one_code_writers)
qed

text \<open>A request to create the sample note, through the proxy.\<close>

definition ex_create_request :: http_request where
  "ex_create_request = (ex_request ''198.51.100.9'')\<lparr>rq_URL := Some (''/api/notes/'' @ NoteID_String ex_bytes),
     rq_Segments := [''api'', ''notes'', NoteID_String ex_bytes], rq_Body := ex_create_body\<rparr>"

lemma proxy_decide_cong:
  assumes "rq_RemoteAddr r = rq_RemoteAddr q" "rq_Header r = rq_Header q" "rq_Method r = ''POST''" "rq_Method q = ''POST''"
  shows "proxy_decide cfg o0 r = proxy_decide cfg o0 q"
proof -
  have h: "isHealthCheckRequest r = False" "isHealthCheckRequest q = False"
    using assms by (simp_all add: isHealthCheckRequest_def)
  have f: "parseForwardedMetadata r = parseForwardedMetadata q"
    using assms by (simp add: parseForwardedMetadata_def)
  show ?thesis unfolding proxy_decide_def h f assms(1) by (rule refl)
qed

lemma ex_verdict:
  assumes "rq_RemoteAddr r = ''10.0.0.1:443''" "rq_Header r = ex_headers ''198.51.100.9''" "rq_Method r = ''POST''"
  shows "proxy_decide ex_cfg [] r =
    Accept (V4 0xC6336409) (clientKey (V4 0xC6336409)) ''https://notes.example''"
proof -
  have "proxy_decide ex_cfg [] r = proxy_decide ex_cfg [] (ex_request ''198.51.100.9'')"
    using assms by (intro proxy_decide_cong) (simp_all add: ex_request_def)
  then show ?thesis
    using ex_decide [OF plain_values(1) [OF ex_plain(1)] ex_chain(1) _ ex_client(1)] by simp
qed

lemma ex_create_path:
  "mux_match ex_create_request = (''POST /api/notes/{id}'', EpCreateNote (NoteID_String ex_bytes))"
  "crossOriginCheck ex_create_request = None"
proof -
  have "length (NoteID_String ex_bytes) = 43" by (simp add: NoteID_String_def length_b64Encode)
  then have "NoteID_String ex_bytes \<noteq> []" by auto
  then show "mux_match ex_create_request = (''POST /api/notes/{id}'', EpCreateNote (NoteID_String ex_bytes))"
    by (simp add: mux_match_def ex_create_request_def ex_request_def postRoute_def)
  show "crossOriginCheck ex_create_request = None"
    by (simp add: crossOriginCheck_def ex_create_request_def ex_request_def ex_headers_def)
qed

lemma ex_create_args:
  "create_args 1024 (with_id (NoteID_String ex_bytes) ex_create_request) =
   Some (ex_bytes, \<lparr>cn_Ticket = tk_Value ex_ticket, cn_BurnToken = Some ex_bytes, cn_Payload = ''P'',
     cn_ExpiresInSeconds = 7200\<rparr>, ex_bytes, 2 * Hour)"
proof -
  have l: "requestedLifetime 7200 = Inr (2 * Hour)"
    by (simp add: requestedLifetime_def go_simps int64_id minInt64_def maxInt64_def)
  have j: "requireJSONContentType (with_id (NoteID_String ex_bytes) ex_create_request) = Inr ()"
    by (simp add: requireJSONContentType_def with_id_def ex_create_request_def ex_request_def ex_headers_def ex_media_type)
  have i: "rq_PathValue (with_id (NoteID_String ex_bytes) ex_create_request) ''id'' = NoteID_String ex_bytes"
    "rq_Body (with_id (NoteID_String ex_bytes) ex_create_request) = ex_create_body"
    by (simp_all add: with_id_def ex_create_request_def)
  show ?thesis
    by (simp add: create_args_def j i ex_id ex_create_decoded l)
qed

lemma ex_behind:
  assumes "rq_RemoteAddr r = ''10.0.0.1:443''" "rq_Header r = ex_headers ''198.51.100.9''" "rq_Method r = ''POST''"
    and "crossOriginCheck r = None"
  shows "\<exists>s. fresh (sv_W s) \<and> sv_World s = w \<and>
    sv_World (newServerHandler ex_app r (arriving w None)) = sv_World (mux ex_app r s) \<and>
    sv_W (newServerHandler ex_app r (arriving w None)) = sv_W (mux ex_app r s)"
proof -
  let ?s = "entered ex_app (V4 0xC6336409) (clientKey (V4 0xC6336409)) ''https://notes.example'' (arriving w None)"
  have "proxy_verdict ex_app r = Accept (V4 0xC6336409) (clientKey (V4 0xC6336409)) ''https://notes.example''"
    using ex_verdict [OF assms(1-3)] by simp
  note a = server_accepted [OF this, of "arriving w None"]
  have "behind ex_app r ?s = mux ex_app r ?s"
    using assms(4) by (simp add: behind_def RateLimitMiddleware_def CSRFMiddleware_def)
  with a show ?thesis by (intro exI [of _ ?s]) simp
qed

lemma ex_created:
  "response_status (sv_W (newServerHandler ex_app ex_create_request (arriving ex_world None))) = 201"
  "bGet (db (ex_env None (\<lambda>_. ex_time)))
     (metadata_b (store (sv_World (newServerHandler ex_app ex_create_request (arriving ex_world None))))) ex_bytes \<noteq> None"
proof -
  let ?E = "ex_env None (\<lambda>_. ex_time)"
  have "rq_RemoteAddr ex_create_request = ''10.0.0.1:443''" "rq_Header ex_create_request = ex_headers ''198.51.100.9''"
    "rq_Method ex_create_request = ''POST''"
    by (simp_all add: ex_create_request_def ex_request_def)
  from ex_behind [OF this ex_create_path(2)] obtain s where s: "fresh (sv_W s)" "sv_World s = ex_world"
    "sv_World (newServerHandler ex_app ex_create_request (arriving ex_world None)) = sv_World (mux ex_app ex_create_request s)"
    "sv_W (newServerHandler ex_app ex_create_request (arriving ex_world None)) = sv_W (mux ex_app ex_create_request s)"
    by blast
  obtain w' where c: "CreateNote ?E (NewNoteService 1024) ex_bytes (tk_Value ex_ticket) ex_bytes ''P'' (2 * Hour) ex_world
      = (Inr ex_bytes, w')"
    using ex_CreateNote by blast
  let ?q = "StoreNote ex_bytes (tk_Value ex_ticket) ex_bytes ''P'' (2 * Hour)"
  have mx: "svc_maxSize (NewNoteService 1024) = 1024" by (simp add: NewNoteService_def)
  have call: "service_call ex_app ex_create_request = Some ?q"
    by (simp add: service_call_def ex_create_path(1) mx ex_create_args)
  have v: "serve (ap_Env ex_app) (ap_Service ex_app) ?q (sv_World (s\<lparr>sv_Pattern := ''POST /api/notes/{id}''\<rparr>)) =
      (StoreReply (Inr ex_bytes), w')"
    using c s(2) by simp
  have f: "fresh (sv_W (s\<lparr>sv_Pattern := ''POST /api/notes/{id}''\<rparr>))" using s(1) by simp
  note d = dispatch_call [OF call ex_create_path(1) f v]
  show "response_status (sv_W (newServerHandler ex_app ex_create_request (arriving ex_world None))) = 201"
    using d(3) s(4) by (simp add: mux_def ex_create_path(1))
  have "bGet (db ?E) (metadata_b (store w')) ex_bytes \<noteq> None"
    using env_okD(1) [OF ex_env_ok] c
  proof (cases rule: CreateNote_cases)
    case (stored p w1 st)
    with create_tx_Inr [OF env_okD(1) [OF ex_env_ok] stored(4)] prepareNote_meta [OF ex_env_ok] show ?thesis by auto
  qed simp
  then show "bGet (db ?E) (metadata_b (store (sv_World
      (newServerHandler ex_app ex_create_request (arriving ex_world None))))) ex_bytes \<noteq> None"
    using d(1) s(3) by (simp add: mux_def ex_create_path(1))
qed

section \<open>Properties\<close>









end
