(* ===== verification/Undisturbed.thy ===== *)
theory Undisturbed
  imports ServerProps
begin

text \<open>
  What the requests of others leave alone: the root key, an identifier they do not store under, and
  a note whose burn token they do not have.
\<close>

section \<open>One operation of the service\<close>

text \<open>An identifier under which nothing is stored.\<close>

definition vacant :: "'b env \<Rightarrow> NoteID \<Rightarrow> 'b store \<Rightarrow> bool" where
  "vacant E nid st \<longleftrightarrow> bGet (db E) (used_tickets_b st) nid = None \<and> bGet (db E) (metadata_b st) nid = None \<and>
     bGet (db E) (payloads_b st) nid = None"

lemma maybe_cleaned_vacant:
  "bolt_ok (db E) \<Longrightarrow> maybe_cleaned E S w w' st \<Longrightarrow> vacant E nid (store w) \<Longrightarrow> vacant E nid st"
  unfolding maybe_cleaned_def vacant_def using Cleanup_tx_removes(1-3) by (metis insertE singletonD)

lemma maybe_cleaned_kept:
  assumes "bolt_ok (db E)" "maybe_cleaned E S w w' st" "store_inv E S (store w)"
    and "note_at E (store w) nid = Some (m, p)" "\<And>i. i < steps w' \<Longrightarrow> clock E i \<le> md_ExpiresAt m"
  shows "note_at E st nid = Some (m, p)"
  using assms(2) unfolding maybe_cleaned_def
proof (elim disjE exE conjE)
  fix i
  assume i: "i < steps w'" "Cleanup_tx E S (clock E i) (store w) = Inr ((), st)"
  have "note_at E st nid = v_notes (spec_cleanup (clock E i) (vault_of E (store w))) nid"
    by (rule Cleanup_tx_note_at [OF assms(1) i(2) assms(3)])
  with assms(4) assms(5) [OF i(1)] show ?thesis by (simp add: spec_cleanup_def vault_of_def)
qed (use assms(4) in simp)

text \<open>A request that cannot burn the note: it does not present a token with the verifier of the note.\<close>

fun spares :: "rootKeyRecord \<Rightarrow> NoteID \<Rightarrow> bytes \<Rightarrow> request \<Rightarrow> bool" where
  "spares k nid ver (ReadNote n tok) \<longleftrightarrow> n = nid \<longrightarrow> burnTokenVerifier (rk_Secret k) tok \<noteq> Inr ver"
| "spares k nid ver _ \<longleftrightarrow> True"

text \<open>How an operation changes the store.\<close>

lemma serve_changes:
  assumes "env_ok E" "serve E S q w = (rep, w')" "q \<noteq> InitKeys"
  obtains (idle) "maybe_cleaned E S w w' (store w')"
  | (created) t tok payload life p st where "q = StoreNote (pr_ID p) t tok payload life"
      "maybe_cleaned E S w w' st" "create_tx E p st = Inr ((), store w')"
  | (looked) n tok res where "q = ReadNote n tok" "OpenNote_tx E S n tok (clock E (steps w)) (store w) = Inr (res, store w')"
proof (cases q)
  case IssueTicket
  with assms(2) obtain r where c: "CreateTicket E w = (r, w')" by (auto split: prod.splits)
  from CreateTicket_store [of E w, unfolded c] show ?thesis by (intro idle) (simp add: maybe_cleaned_def)
next
  case (StoreNote pid t tok payload life)
  with assms(2) obtain r where "CreateNote E S pid t tok payload life w = (r, w')" by (auto split: prod.splits)
  with env_okD(1) [OF assms(1)] show ?thesis
  proof (cases rule: CreateNote_cases)
    case (stored p w1 st)
    moreover have "pr_ID p = pid" using assms(1) stored(1) by (rule prepareNote_meta)
    ultimately show ?thesis using StoreNote by (intro created [of p]) simp_all
  qed (rule idle)
next
  case (ReadNote n tok)
  with assms(2) obtain r where "OpenNote E S n tok w = (r, w')" by (auto split: prod.splits)
  then show ?thesis
    by (cases rule: OpenNote_cases) (use ReadNote in \<open>auto intro: looked idle simp: maybe_cleaned_def\<close>)
next
  case RunCleanup
  with assms(2) obtain r where "Cleanup E S w = (r, w')" by (auto split: prod.splits)
  then show ?thesis
    by (cases rule: Cleanup_cases) (auto intro!: idle simp: maybe_cleaned_def)
qed (use assms(3) in simp)

lemma OpenNote_tx_changes:
  assumes "bolt_ok (db E)" "OpenNote_tx E S nid tok now st = Inr (res, st')"
  shows "st' = st \<or> deleteNoteRecords E st nid = Inr st'"
  using assms(2) by (cases res) (auto dest: OpenNote_tx_None elim: OpenNote_tx_Some)

lemma serve_root:
  assumes "env_ok E" "serve E S q w = (rep, w')" "q \<noteq> InitKeys"
  shows "root_keys_b (store w') = root_keys_b (store w)"
  using assms
proof (cases rule: serve_changes)
  case (created t tok payload life p st)
  with maybe_cleaned_root create_tx_Inr(8) env_okD(1) [OF assms(1)] show ?thesis by metis
next
  case (looked n tok res)
  with OpenNote_tx_changes [OF _ looked(2)] deleteNoteRecords_Inr(4) [of E "store w" n "store w'"] assms(1) show ?thesis by auto
qed (rule maybe_cleaned_root [OF env_okD(1) [OF assms(1)]])

lemma serve_vacant:
  assumes "env_ok E" "serve E S q w = (rep, w')" "q \<noteq> InitKeys" "vacant E nid (store w)"
    and "\<And>t tok payload life. q \<noteq> StoreNote nid t tok payload life"
  shows "vacant E nid (store w')"
  using assms(1-3)
proof (cases rule: serve_changes)
  case (created t tok payload life p st)
  have "nid \<noteq> pr_ID p" using created(1) assms(5) by blast
  moreover have "vacant E nid st" using maybe_cleaned_vacant [OF _ created(2) assms(4)] assms(1) by simp
  ultimately show ?thesis using create_tx_Inr(4-6) [OF _ created(3)] assms(1) by (simp add: vacant_def)
next
  case (looked n tok res)
  with OpenNote_tx_changes [OF _ looked(2)] deleteNoteRecords_Inr(1,2,5) [of E "store w" n "store w'"] assms(1,4) show ?thesis
    by (auto simp: vacant_def)
qed (rule maybe_cleaned_vacant [OF env_okD(1) [OF assms(1)] _ assms(4)])

lemma serve_kept:
  assumes "env_ok E" "serve E S q w = (rep, w')" "q \<noteq> InitKeys" "store_inv E S (store w)"
    and "getRootKey E (root_keys_b (store w)) = Inr k" "spares k nid (md_BurnVerifier m) q"
    and "note_at E (store w) nid = Some (m, p)" "\<And>i. i < steps w' \<Longrightarrow> clock E i \<le> md_ExpiresAt m"
  shows "note_at E (store w') nid = Some (m, p)"
  using assms(1-3)
proof (cases rule: serve_changes)
  case idle
  from maybe_cleaned_kept [OF env_okD(1) [OF assms(1)] idle assms(4,7,8)] show ?thesis .
next
  case (created t tok payload life pr st)
  have bolt: "bolt_ok (db E)" using assms(1) by simp
  have n: "note_at E st nid = Some (m, p)" by (rule maybe_cleaned_kept [OF bolt created(2) assms(4,7,8)])
  note C = create_tx_Inr [OF bolt created(3)]
  have "nid \<noteq> pr_ID pr" using n C(2) by (auto simp: note_at_Some)
  with n C(4,5) show ?thesis by (simp add: note_at_Some)
next
  case (looked n tok res)
  have bolt: "bolt_ok (db E)" using assms(1) by simp
  show ?thesis
  proof (cases "n = nid")
    case True
    obtain ver where ver: "burnTokenVerifier (rk_Secret k) tok = Inr ver" using burnTokenVerifier_Inr by blast
    with assms(6) True looked(1) have "ver \<noteq> md_BurnVerifier m" by simp
    moreover have "validMetadata S m"
      using assms(7) store_invD(3) [OF assms(4), of nid] by (fastforce simp: note_at_Some)
    ultimately have "not_openable E S nid tok (store w)"
      unfolding not_openable_def using assms(5,7) ver by blast
    from not_openable_tx [OF this] looked(2) True assms(7) show ?thesis by simp
  next
    case False
    with OpenNote_tx_changes [OF bolt looked(2)] deleteNoteRecords_vault(1) [OF bolt] assms(7) show ?thesis by auto
  qed
qed

section \<open>Requests over HTTP\<close>

text \<open>The setting of a server as it runs: \<open>main\<close> sets the service up with the longest lifetime, and the clock
  does not go back.\<close>

definition running :: "('b, 'l, 't) app \<Rightarrow> bool" where
  "running A \<longleftrightarrow> env_ok (ap_Env A) \<and> (\<forall>i. 0 < clock (ap_Env A) i) \<and> mono (clock (ap_Env A)) \<and>
     svc_maxLifetime (ap_Service A) = maxNoteLifetime \<and> file_server_ok (ap_Files A)"

lemma runningD:
  assumes "running A"
  shows "env_ok (ap_Env A)" "0 < clock (ap_Env A) i" "i \<le> j \<Longrightarrow> clock (ap_Env A) i \<le> clock (ap_Env A) j"
    "svc_maxLifetime (ap_Service A) = maxNoteLifetime" "file_server_ok (ap_Files A)"
  using assms by (auto simp: running_def monoD)

lemma service_call_not_keys: "service_call A r \<noteq> Some InitKeys"
  by (simp add: service_call_def split: endpoint.split)

lemma http_step_cases:
  assumes "running A" "http_step A r st = (a, st')"
  obtains (idle) "store (fst st') = store (fst st)" "steps (fst st) \<le> steps (fst st')"
  | (called) q w0 rep where "service_call A r = Some q" "store w0 = store (fst st)" "steps (fst st) \<le> steps w0"
      "serve (ap_Env A) (ap_Service A) q w0 = (rep, fst st')"
proof -
  let ?s = "arriving (fst st) (snd st)"
  have w: "fst st' = sv_World (newServerHandler A r ?s)" using assms(2) by (auto simp: http_step_def Let_def)
  from runningD(5) [OF assms(1)] have "fresh (sv_W ?s)" "file_server_ok (ap_Files A)" by simp_all
  from this(2,1) show thesis
  proof (cases rule: newServerHandler_cases [where r = r])
    case idle
    with w show ?thesis by (intro that(1)) simp_all
  next
    case (called ip key origin q w0 rep)
    with w show ?thesis by (intro that(2) [of q w0 rep]) simp_all
  qed
qed

lemma http_step_steps: "running A \<Longrightarrow> http_step A r st = (a, st') \<Longrightarrow> steps (fst st) \<le> steps (fst st')"
  by (erule (1) http_step_cases) (auto dest: serve_steps)

lemma http_step_store_inv:
  assumes "running A" "http_step A r st = (a, st')" "store_inv (ap_Env A) (ap_Service A) (store (fst st))"
  shows "store_inv (ap_Env A) (ap_Service A) (store (fst st'))"
proof -
  have "(env_ok (ap_Env A) \<and> (\<forall>i. 0 < clock (ap_Env A) i) \<and> svc_maxLifetime (ap_Service A) = maxNoteLifetime) \<and>
      file_server_ok (ap_Files A)"
    using runningD [OF assms(1)] by blast
  from http_step_inv [OF this assms(3,2)] show ?thesis .
qed

section \<open>The cleanup job in between\<close>

text \<open>What the server does between two requests of a client: it serves a request, or its cleanup
  goroutine removes what has expired.\<close>

datatype event = Served http_request | Swept

fun event_step ::
  "('b, 'l, 't) app \<Rightarrow> event \<Rightarrow> 'b world \<times> 'l RateLimiter option \<Rightarrow> writer option \<times> ('b world \<times> 'l RateLimiter option)" where
  "event_step A (Served r) st = (case http_step A r st of (a, st') \<Rightarrow> (Some a, st'))"
| "event_step A Swept st = (None, (snd (Cleanup (ap_Env A) (ap_Service A) (fst st)), snd st))"

fun event_call :: "('b, 'l, 't) app \<Rightarrow> event \<Rightarrow> request option" where
  "event_call A (Served r) = service_call A r"
| "event_call A Swept = Some RunCleanup"

lemma event_call_not_keys: "event_call A e \<noteq> Some InitKeys"
  by (cases e) (simp_all add: service_call_not_keys)

lemma event_step_cases:
  assumes "running A" "event_step A e st = (a, st')"
  obtains (idle) "store (fst st') = store (fst st)" "steps (fst st) \<le> steps (fst st')"
  | (called) q w0 rep where "event_call A e = Some q" "q \<noteq> InitKeys" "store w0 = store (fst st)" "steps (fst st) \<le> steps w0"
      "serve (ap_Env A) (ap_Service A) q w0 = (rep, fst st')"
proof (cases e)
  case (Served r)
  with assms(2) obtain b where "http_step A r st = (b, st')" by (auto split: prod.splits)
  with assms(1) show ?thesis
  proof (cases rule: http_step_cases)
    case (called q w0 rep)
    moreover from this have "q \<noteq> InitKeys" using service_call_not_keys by metis
    ultimately show ?thesis using Served by (intro that(2) [of q w0 rep]) simp_all
  qed (rule idle)
next
  case Swept
  obtain r w where c: "Cleanup (ap_Env A) (ap_Service A) (fst st) = (r, w)" by fastforce
  with Swept assms(2) show ?thesis by (intro called [of RunCleanup "fst st" "UnitReply r"]) auto
qed

lemma event_step_steps: "running A \<Longrightarrow> event_step A e st = (a, st') \<Longrightarrow> steps (fst st) \<le> steps (fst st')"
  by (erule (1) event_step_cases) (auto dest: serve_steps)

lemma event_step_store_inv:
  assumes "running A" "event_step A e st = (a, st')" "store_inv (ap_Env A) (ap_Service A) (store (fst st))"
  shows "store_inv (ap_Env A) (ap_Service A) (store (fst st'))"
proof (cases e)
  case (Served r)
  with assms(2) obtain b where "http_step A r st = (b, st')" by (auto split: prod.splits)
  from http_step_store_inv [OF assms(1) this assms(3)] show ?thesis .
next
  case Swept
  obtain r w where c: "Cleanup (ap_Env A) (ap_Service A) (fst st) = (r, w)" by fastforce
  then have "serve (ap_Env A) (ap_Service A) RunCleanup (fst st) = (UnitReply r, fst st')" using Swept assms(2) by auto
  from serve_inv [OF _ assms(3) this] runningD [OF assms(1)] show ?thesis by (simp add: sound_setting_def)
qed

text \<open>Before the note is stored: its identifier stays free, the root key stays.\<close>

definition awaits :: "('b, 'l, 't) app \<Rightarrow> NoteID \<Rightarrow> 'b \<Rightarrow> nat \<Rightarrow> 'b world \<times> 'l RateLimiter option \<Rightarrow> bool" where
  "awaits A nid rk n st \<longleftrightarrow> vacant (ap_Env A) nid (store (fst st)) \<and> root_keys_b (store (fst st)) = rk \<and>
     store_inv (ap_Env A) (ap_Service A) (store (fst st)) \<and> n \<le> steps (fst st)"

text \<open>While it is stored: the note stays as long as it has not expired.\<close>

definition holds :: "('b, 'l, 't) app \<Rightarrow> NoteID \<Rightarrow> Metadata \<Rightarrow> bytes \<Rightarrow> 'b \<Rightarrow> 'b world \<times> 'l RateLimiter option \<Rightarrow> bool" where
  "holds A nid m p rk st \<longleftrightarrow> root_keys_b (store (fst st)) = rk \<and>
     store_inv (ap_Env A) (ap_Service A) (store (fst st)) \<and>
     (clock (ap_Env A) (steps (fst st)) \<le> md_ExpiresAt m \<longrightarrow> note_at (ap_Env A) (store (fst st)) nid = Some (m, p))"

lemma awaits_step:
  assumes "running A \<and> (\<forall>t tok payload life. event_call A e \<noteq> Some (StoreNote nid t tok payload life))"
    and "awaits A nid rk n st" "event_step A e st = (a, st')"
  shows "awaits A nid rk n st'"
proof -
  from assms(1) have run: "running A" by simp
  have "vacant (ap_Env A) nid (store (fst st')) \<and> root_keys_b (store (fst st')) = rk"
    using run assms(3)
  proof (cases rule: event_step_cases)
    case (called q w0 rep)
    have "vacant (ap_Env A) nid (store (fst st'))"
      by (rule serve_vacant [OF runningD(1) [OF run] called(5,2)]) (use assms(1,2) called(1,3) in \<open>simp_all add: awaits_def\<close>)
    moreover have "root_keys_b (store (fst st')) = rk"
      using serve_root [OF runningD(1) [OF run] called(5,2)] assms(2) called(3) by (simp add: awaits_def)
    ultimately show ?thesis by simp
  qed (use assms(2) in \<open>simp add: awaits_def\<close>)
  with event_step_store_inv [OF run assms(3)] event_step_steps [OF run assms(3)] assms(2) show ?thesis
    by (simp add: awaits_def)
qed

lemma holds_step:
  assumes "running A \<and> getRootKey (ap_Env A) rk = Inr k \<and> (\<forall>q. event_call A e = Some q \<longrightarrow> spares k nid (md_BurnVerifier m) q)"
    and "holds A nid m p rk st" "event_step A e st = (a, st')"
  shows "holds A nid m p rk st'"
proof -
  let ?E = "ap_Env A"
  from assms(1) have run: "running A" by simp
  have le: "clock ?E (steps (fst st)) \<le> clock ?E (steps (fst st'))"
    using runningD(3) [OF run event_step_steps [OF run assms(3)]] .
  have "root_keys_b (store (fst st')) = rk \<and>
    (clock ?E (steps (fst st')) \<le> md_ExpiresAt m \<longrightarrow> note_at ?E (store (fst st')) nid = Some (m, p))"
    using run assms(3)
  proof (cases rule: event_step_cases)
    case (called q w0 rep)
    have "note_at ?E (store (fst st')) nid = Some (m, p)" if "clock ?E (steps (fst st')) \<le> md_ExpiresAt m"
    proof (rule serve_kept [OF runningD(1) [OF run] called(5,2), where k = k])
      show "clock ?E i \<le> md_ExpiresAt m" if "i < steps (fst st')" for i
        using runningD(3) [OF run, of i "steps (fst st')"] that \<open>clock ?E (steps (fst st')) \<le> md_ExpiresAt m\<close> by simp
    qed (use that le assms(1,2) called(1,3) in \<open>simp_all add: holds_def\<close>)
    moreover have "root_keys_b (store (fst st')) = rk"
      using serve_root [OF runningD(1) [OF run] called(5,2)] assms(2) called(3) by (simp add: holds_def)
    ultimately show ?thesis by simp
  qed (use assms(2) le in \<open>simp add: holds_def\<close>)
  with event_step_store_inv [OF run assms(3)] assms(2) show ?thesis by (simp add: holds_def)
qed

interpretation waiting: kept_invariant "event_step A"
    "\<lambda>e. running A \<and> (\<forall>t tok payload life. event_call A e \<noteq> Some (StoreNote nid t tok payload life))"
    "awaits A nid rk n" for A nid rk n
  by unfold_locales (rule awaits_step)

interpretation holding: kept_invariant "event_step A"
    "\<lambda>e. running A \<and> getRootKey (ap_Env A) rk = Inr k \<and> (\<forall>q. event_call A e = Some q \<longrightarrow> spares k nid (md_BurnVerifier m) q)"
    "holds A nid m p rk" for A rk k nid m p
  by unfold_locales (rule holds_step)

end
