(* ===== verification/Protocol.thy ===== *)
theory Protocol
  imports Undisturbed
begin

text \<open>
  The protocol of a client from one end to the other: it asks for a ticket, stores a note with
  it, and whoever holds the burn token opens the note. Requests of others may come in between.
\<close>

section \<open>What the service needs to store and to open a note\<close>

text \<open>Writes under a 32-byte key succeed, up to the \<open>MaxValueSize\<close> of bbolt: it refuses empty and
  oversized keys and oversized values only.\<close>

definition takes_notes :: "'b bolt \<Rightarrow> bool" where
  "takes_notes B \<longleftrightarrow> (\<forall>b k v. length k = 32 \<and> length v \<le> 2147483646 \<longrightarrow> (\<exists>b'. bPut B b k v = Inr b'))"

text \<open>An instant that RFC 3339 can express in the zone of the host.\<close>

definition writable :: "zone \<Rightarrow> time \<Rightarrow> bool" where
  "writable z t \<longleftrightarrow> (\<exists>s. timeIn z t = Inr s)"

lemma marshal_writable:
  "writable z (md_CreatedAt m) \<Longrightarrow> writable z (md_ExpiresAt m) \<Longrightarrow> \<exists>b. marshalMetadata z m = Inr b"
  "writable z (um_ExpiresAt u) \<Longrightarrow> \<exists>b. marshalMarker z u = Inr b"
  "writable z (td_IssuedAt d) \<Longrightarrow> writable z (td_Exp d) \<Longrightarrow> \<exists>b. marshalTicket z d = Inr b"
  by (auto simp: writable_def marshalMetadata_def marshalMarker_def marshalTicket_def)

lemma length_marshalMetadata:
  assumes "marshalMetadata z m = Inr b" "length (md_BurnVerifier m) = 32"
  shows "length b \<le> 200"
proof -
  from assms(1) obtain t1 t2 where t: "timeIn z (md_CreatedAt m) = Inr t1" "timeIn z (md_ExpiresAt m) = Inr t2"
    and b: "b = objectText [(''burnVerifier'', bytesText (md_BurnVerifier m)), (''createdAt'', t1), (''expiresAt'', t2)]"
    by (auto simp: marshalMetadata_def split: sum.splits)
  have "length t1 \<le> 37" "length t2 \<le> 37" using t length_timeText by (auto simp: timeIn_def)
  then show ?thesis
    using assms(2) by (simp add: b objectText_def member_def bytesText_def inQuotes_def length_stdEncode)
qed

lemma length_marshalMarker:
  assumes "marshalMarker z u = Inr b"
  shows "length b \<le> 60"
proof -
  from assms obtain t where t: "timeIn z (um_ExpiresAt u) = Inr t" and b: "b = objectText [(''expiresAt'', t)]"
    by (auto simp: marshalMarker_def split: sum.splits)
  have "length t \<le> 37" using t length_timeText by (auto simp: timeIn_def)
  then show ?thesis by (simp add: b objectText_def member_def)
qed

lemma create_tx_vacant:
  assumes "takes_notes (db E)" "length (pr_ID p) = 32" "vacant E (pr_ID p) st"
    and "length (pr_Metadata p) \<le> 200" "length (pr_Marker p) \<le> 60" "length (pr_Payload p) \<le> 2147483646"
  obtains st' where "create_tx E p st = Inr ((), st')"
proof -
  have "length (pr_Metadata p) \<le> 2147483646" "length (pr_Marker p) \<le> 2147483646" using assms(4,5) by simp_all
  with assms(1,2,6) obtain m y u where "bPut (db E) (metadata_b st) (pr_ID p) (pr_Metadata p) = Inr m"
    "bPut (db E) (payloads_b st) (pr_ID p) (pr_Payload p) = Inr y"
    "bPut (db E) (used_tickets_b st) (pr_ID p) (pr_Marker p) = Inr u"
    unfolding takes_notes_def by metis
  with assms(3) that show thesis by (simp add: create_tx_def vacant_def Let_def)
qed

lemma CreateNote_succeeds:
  assumes "env_ok E" "reliable (db E)" "takes_notes (db E)" "S = NewNoteService mx" "length pid = 32"
    and "verifyTicket E t pid tok w = (Inr (d, ver), w1)" "length t \<le> maxTicketLen"
    and "payload \<noteq> []" "int (length payload) \<le> mx" "minNoteLifetime \<le> life" "life \<le> maxNoteLifetime"
    and "writable (zone E) (clock E (steps w1))" "writable (zone E) (clock E (steps w1) + life)" "writable (zone E) (td_Exp d)"
    and "vacant E pid (store w)" "mx \<le> hardMaxNoteSize"
  obtains w' where "CreateNote E S pid t tok payload life w = (Inr pid, w')" "steps w1 \<le> steps w'"
    "note_at E (store w') pid = Some (\<lparr>md_BurnVerifier = ver, md_CreatedAt = clock E (steps w1),
       md_ExpiresAt = clock E (steps w1) + life\<rparr>, payload)"
    "root_keys_b (store w') = root_keys_b (store w)"
proof -
  have bolt: "bolt_ok (db E)" using assms(1) by simp
  have S: "svc_maxSize S = mx" "svc_maxLifetime S = maxNoteLifetime" using assms(4) by (simp_all add: NewNoteService_def)
  let ?m = "\<lparr>md_BurnVerifier = ver, md_CreatedAt = clock E (steps w1), md_ExpiresAt = clock E (steps w1) + life\<rparr>"
  obtain mb where mb: "marshalMetadata (zone E) ?m = Inr mb" using marshal_writable(1) [of _ ?m] assms(12,13) by auto
  obtain ub where ub: "marshalMarker (zone E) \<lparr>um_ExpiresAt = td_Exp d\<rparr> = Inr ub"
    using marshal_writable(2) [of _ "\<lparr>um_ExpiresAt = td_Exp d\<rparr>"] assms(14) by auto
  have st1: "store w1 = store w" using gate.gate_frame [of E t pid tok w] assms(6) by simp
  have id: "td_ID d = pid" using gate.gate_id [OF assms(6)] by simp
  let ?p = "\<lparr>pr_ID = pid, pr_Metadata = mb, pr_Payload = payload, pr_Marker = ub\<rparr>"
  have prep: "prepareNote E S pid t tok payload life w = (Inr ?p, tick w1)"
    using assms(6-11) mb ub
    by (simp add: prepareNote_def S normalizeLifetime_def s_now_def time_Add_def Let_def id)
  obtain st' where tx: "create_tx E ?p (store w) = Inr ((), st')"
  proof (rule create_tx_vacant [OF assms(3), of ?p "store w"])
    have "length ver = 32" using gate.gate_id [OF assms(6)] by simp
    then show "length (pr_Metadata ?p) \<le> 200" using length_marshalMetadata [OF mb] by simp
    show "length (pr_Marker ?p) \<le> 60" using length_marshalMarker [OF ub] by simp
    show "length (pr_Payload ?p) \<le> 2147483646" using assms(9,16) by (simp add: hardMaxNoteSize_def)
  qed (use assms(5,15) in simp_all)
  then have "CreateNote E S pid t tok payload life w = (Inr pid, (tick (tick w1))\<lparr>store := st'\<rparr>)"
    using prep st1 assms(2) by (simp add: CreateNote_def storeNote_def db_Update_reliable isStorageFull_def createOutcome_def)
  moreover have "note_at E st' pid = Some (?m, payload)" "root_keys_b st' = root_keys_b (store w)"
    using create_tx_Inr [OF bolt tx] unmarshal_marshalMetadata [OF _ mb] assms(1) by (simp_all add: note_at_Some)
  ultimately show thesis by (intro that [of "(tick (tick w1))\<lparr>store := st'\<rparr>"]) simp_all
qed

lemma OpenNote_succeeds:
  assumes "reliable (db E)" "note_at E (store w) nid = Some (m, payload)" "validMetadata S m"
    and "getRootKey E (root_keys_b (store w)) = Inr k" "burnTokenVerifier (rk_Secret k) tok = Inr (md_BurnVerifier m)"
    and "clock E (steps w) \<le> md_ExpiresAt m"
  shows "\<exists>w'. OpenNote E S nid tok w = (Inr \<lparr>nt_Payload = payload, nt_Metadata = m\<rparr>, w')"
proof -
  obtain st' where "deleteNoteRecords E (store w) nid = Inr st'" by (rule deleteNoteRecords_reliable [OF assms(1)])
  with assms show ?thesis
    by (auto simp: OpenNote_def s_now_def db_Update_reliable OpenNote_tx_def note_at_Some Let_def Before_def not_less)
qed

lemma CreateTicket_succeeds:
  assumes "reliable (db E)" "getRootKey E (root_keys_b (store w)) = Inr k"
    and "writable (zone E) (clock E (Suc (steps w)))" "writable (zone E) (clock E (Suc (steps w)) + ticketTimeout)"
  obtains t where "CreateTicket E w = (Inr t, tick (tick (tick w)))"
proof -
  let ?tok = "NewBurnToken (random E (steps w))" and ?now = "clock E (Suc (steps w))"
  obtain ver where ver: "burnTokenVerifier (rk_Secret k) ?tok = Inr ver" using burnTokenVerifier_Inr by blast
  let ?d = "\<lparr>td_V = 1, td_ID = NewNoteID (random E (Suc (Suc (steps w)))), td_IssuedAt = ?now,
    td_Exp = time_Add ?now ticketTimeout, td_BurnVerifier = b64Encode ver\<rparr>"
  obtain p where p: "marshalTicket (zone E) ?d = Inr p"
    using marshal_writable(3) [of "zone E" ?d] assms(3,4) by (auto simp: time_Add_def)
  obtain sig where "ticketSignature (rk_Secret k) (''v1.'' @ b64Encode p) = Inr sig" using ticketSignature_Inr by blast
  with p have "signTicket E (rk_Secret k) ?d = Inr (''v1.'' @ b64Encode p @ ''.'' @ b64Encode sig)"
    by (simp add: signTicket_def)
  with ver assms(2) obtain t where
    "CreateTicket_tx E ?tok ?now (random E (Suc (Suc (steps w)))) (store w) = Inr t"
    by (simp add: CreateTicket_tx_def)
  with assms(1) have "CreateTicket E w = (Inr t, tick (tick (tick w)))"
    by (simp add: CreateTicket_def s_random_def s_now_def db_View_def reliable_def)
  then show thesis by (rule that)
qed

lemma issued_texts:
  assumes "CreateTicket E w = (Inr t, w1)"
  shows "ticketText (tk_Value t)" "length (td_ID (tk_Data t)) = 32" "length (tk_BurnToken t) = 32"
    "td_IssuedAt (tk_Data t) = clock E (Suc (steps w))" "store w1 = store w" "steps w1 = steps w + 3"
proof -
  from CreateTicket_Inr(1) [OF assms] obtain k v p sig where
    "tk_Data t = \<lparr>td_V = 1, td_ID = NewNoteID (random E (Suc (Suc (steps w)))), td_IssuedAt = clock E (Suc (steps w)),
       td_Exp = clock E (Suc (steps w)) + ticketTimeout, td_BurnVerifier = b64Encode v\<rparr>"
    "tk_Value t = ''v1.'' @ b64Encode p @ ''.'' @ b64Encode sig" "tk_BurnToken t = NewBurnToken (random E (steps w))"
    by (rule CreateTicket_tx_Inr)
  then show "ticketText (tk_Value t)" "length (td_ID (tk_Data t)) = 32" "length (tk_BurnToken t) = 32"
    "td_IssuedAt (tk_Data t) = clock E (Suc (steps w))"
    using ticketText_parts [of p sig] by simp_all
  show "store w1 = store w" by (rule CreateTicket_Inr(2) [OF assms])
  show "steps w1 = steps w + 3" using CreateTicket_steps [of E w] assms by simp
qed

section \<open>A request that passes the guards\<close>

definition passes :: "('b, 'l, 't) app \<Rightarrow> http_request \<Rightarrow> 'b world \<times> 'l RateLimiter option \<Rightarrow> bool" where
  "passes A r st \<longleftrightarrow> (\<exists>ip key origin. proxy_decide (ap_Cfg A) [] r = Accept ip key origin \<and>
     crossOriginCheck r = None \<and>
     (case snd st of None \<Rightarrow> True
      | Some l \<Rightarrow> fst (fst (AllowRequest (ap_Tokens A) (ap_Iter A) l key (clock (ap_Env A) (steps (fst st)))))))"

abbreviation answer :: "('b, 'l, 't) app \<Rightarrow> http_request \<Rightarrow> 'b world \<times> 'l RateLimiter option \<Rightarrow> writer" where
  "answer A r st \<equiv> fst (http_step A r st)"

abbreviation world_after :: "('b, 'l, 't) app \<Rightarrow> http_request \<Rightarrow> 'b world \<times> 'l RateLimiter option \<Rightarrow> 'b world" where
  "world_after A r st \<equiv> fst (snd (http_step A r st))"

lemma passes_dispatch:
  assumes "passes A r st"
  obtains s where "fresh (sv_W s)" "store (sv_World s) = store (fst st)" "steps (fst st) \<le> steps (sv_World s)"
    "answer A r st = sv_W (dispatch A (snd (mux_match r)) r s)"
    "world_after A r st = sv_World (dispatch A (snd (mux_match r)) r s)"
proof -
  from assms obtain ip key origin where p: "proxy_verdict A r = Accept ip key origin" "crossOriginCheck r = None"
    and l: "case snd st of None \<Rightarrow> True
      | Some l \<Rightarrow> fst (fst (AllowRequest (ap_Tokens A) (ap_Iter A) l key (clock (ap_Env A) (steps (fst st)))))"
    unfolding passes_def by blast
  let ?a = "arriving (fst st) (snd st)"
  let ?s = "entered A ip key origin ?a"
  have eq: "answer A r st = sv_W (behind A r ?s)" "world_after A r st = sv_World (behind A r ?s)"
    using server_accepted [OF p(1), of ?a] by (simp_all add: http_step_def Let_def)
  show thesis
  proof (cases rule: behind_cases [of ?s A r])
    case (limited li t0 w0 retry l')
    with l show ?thesis by (simp add: s_now_def)
  next
    case (passed s1)
    have "store (sv_World s1) = store (fst st)" "steps (fst st) \<le> steps (sv_World s1)" "fresh (sv_W s1)"
      using passed(2,5) by (auto dest!: store_s_now)
    moreover have "CSRFMiddleware (mux A) r s1 = dispatch A (snd (mux_match r)) r (s1\<lparr>sv_Pattern := fst (mux_match r)\<rparr>)"
      using p(2) by (simp add: CSRFMiddleware_def mux_def split: prod.split)
    ultimately show ?thesis using eq passed(1) by (intro that [of "s1\<lparr>sv_Pattern := fst (mux_match r)\<rparr>"]) simp_all
  qed
qed

section \<open>The three requests of a client\<close>

definition replied :: "writer \<Rightarrow> int \<Rightarrow> body \<Rightarrow> bool" where
  "replied w code b \<longleftrightarrow> response_status w = code \<and> wr_Body w = [b]"

lemma replied_respond: "fresh (sv_W s) \<Longrightarrow> replied (sv_W (respond c b s)) c b"
  by (simp add: replied_def respond_simps writeJSON_fresh response_status_def)

definition asks_ticket :: "('b, 'l, 't) app \<Rightarrow> http_request \<Rightarrow> 'b world \<times> 'l RateLimiter option \<Rightarrow> bool" where
  "asks_ticket A r st \<longleftrightarrow> passes A r st \<and> snd (mux_match r) = EpTicket"

definition stores_note ::
  "('b, 'l, 't) app \<Rightarrow> http_request \<Rightarrow> string \<Rightarrow> string \<Rightarrow> 'b world \<times> 'l RateLimiter option \<Rightarrow> bool" where
  "stores_note A r v b st \<longleftrightarrow> passes A r st \<and> snd (mux_match r) = EpCreateNote v \<and>
     requireJSONContentType r = Inr () \<and> rq_Body r = b"

definition opens_note ::
  "('b, 'l, 't) app \<Rightarrow> http_request \<Rightarrow> string \<Rightarrow> string \<Rightarrow> 'b world \<times> 'l RateLimiter option \<Rightarrow> bool" where
  "opens_note A r v b st \<longleftrightarrow> passes A r st \<and> snd (mux_match r) = EpOpenNote v \<and>
     requireJSONContentType r = Inr () \<and> rq_Body r = b"

definition ticket_reply :: "Ticket \<Rightarrow> body" where
  "ticket_reply t = TicketJSON (NoteID_String (td_ID (tk_Data t))) (tk_Value t) (BurnToken_String (tk_BurnToken t))
     (td_Exp (tk_Data t))"

lemma with_id_simps [simp]:
  "requireJSONContentType (with_id v r) = requireJSONContentType r" "rq_PathValue (with_id v r) ''id'' = v"
  "rq_Body (with_id v r) = rq_Body r"
  by (simp_all add: with_id_def requireJSONContentType_def)

lemma ticket_step:
  assumes "asks_ticket A r st" "reliable (db (ap_Env A))" "getRootKey (ap_Env A) (root_keys_b (store (fst st))) = Inr k"
    and "\<And>i. writable (zone (ap_Env A)) (clock (ap_Env A) i) \<and> writable (zone (ap_Env A)) (clock (ap_Env A) i + ticketTimeout)"
    and "http_step A r st = (a, st')"
  obtains t w0 where "replied a 200 (ticket_reply t)" "CreateTicket (ap_Env A) w0 = (Inr t, fst st')"
    "store w0 = store (fst st)" "steps (fst st) \<le> steps w0"
proof -
  from assms(1) have e: "snd (mux_match r) = EpTicket" and "passes A r st" by (simp_all add: asks_ticket_def)
  from this(2) obtain s where s: "fresh (sv_W s)" "store (sv_World s) = store (fst st)" "steps (fst st) \<le> steps (sv_World s)"
    "answer A r st = sv_W (dispatch A EpTicket r s)" "world_after A r st = sv_World (dispatch A EpTicket r s)"
    by (rule passes_dispatch) (auto simp: e)
  obtain t where t: "CreateTicket (ap_Env A) (sv_World s) = (Inr t, tick (tick (tick (sv_World s))))"
    by (rule CreateTicket_succeeds [OF assms(2), of "sv_World s" k]) (use assms(3,4) s(2) in simp_all)
  have d: "dispatch A EpTicket r s = respond 200 (ticket_reply t) (s\<lparr>sv_World := tick (tick (tick (sv_World s)))\<rparr>)"
    by (simp add: dispatch_def HandleCreateTicket_def t ticket_reply_def)
  show thesis
  proof (rule that [of t "sv_World s"])
    show "replied a 200 (ticket_reply t)" using s(1,4) assms(5) d by (simp add: replied_respond)
    show "CreateTicket (ap_Env A) (sv_World s) = (Inr t, fst st')" using s(5) assms(5) d t by (simp add: respond_simps)
  qed (use s in simp_all)
qed

text \<open>A note that the limits of the API let through.\<close>

definition acceptable :: "int \<Rightarrow> bytes \<Rightarrow> nat \<Rightarrow> bool" where
  "acceptable mx payload seconds \<longleftrightarrow> payload \<noteq> [] \<and> int (length payload) \<le> mx \<and> printable payload \<and>
     escapes payload \<le> 188 \<and> 3600 \<le> seconds \<and> seconds \<le> 1209600"

lemma requestedLifetime_valid:
  "3600 \<le> s \<Longrightarrow> s \<le> 1209600 \<Longrightarrow> requestedLifetime s = Inr (s * Second)"
  using requestedLifetime_agrees [of s 1] by (simp add: normalizeLifetime_def go_simps)

lemma create_args_valid:
  assumes "acceptable mx payload seconds" "length nid = 32" "length tok = 32" "ticketText ticket" "length ticket \<le> maxTicketLen"
    and "requireJSONContentType r = Inr ()" "rq_Body r = createBody ticket (BurnToken_String tok) payload seconds"
  shows "create_args mx (with_id (NoteID_String nid) r) =
    Some (nid, \<lparr>cn_Ticket = ticket, cn_BurnToken = Some tok, cn_Payload = payload, cn_ExpiresInSeconds = int seconds\<rparr>, tok,
      int seconds * Second)"
proof -
  from assms(1) have n: "int (length payload) \<le> mx" "printable payload" "escapes payload \<le> 188" "seconds \<le> 1209600" "3600 \<le> seconds"
    unfolding acceptable_def by blast+
  have "int seconds \<le> maxInt64" using n(4) by (simp add: maxInt64_def)
  note d = decode_createBody [OF ticketText_quoted(1) [OF assms(4)] n(2) assms(3) this
      createBody_fits [OF assms(4,5,3) n(1,3,4)]]
  have "ParseNoteID (NoteID_String nid) = Inr nid" using assms(2) by (intro note_id.parse_render) (simp add: noteIDLen_def)
  moreover have "requestedLifetime (int seconds) = Inr (int seconds * Second)"
    using n(4,5) by (intro requestedLifetime_valid) linarith+
  ultimately show ?thesis using d assms(6,7) by (simp add: create_args_def)
qed

lemma open_args_valid:
  assumes "length nid = 32" "length tok = 32"
    and "requireJSONContentType r = Inr ()" "rq_Body r = openBody (BurnToken_String tok)"
  shows "open_args (with_id (NoteID_String nid) r) = Some (nid, tok)"
proof -
  have "ParseNoteID (NoteID_String nid) = Inr nid" using assms(1) by (intro note_id.parse_render) (simp add: noteIDLen_def)
  with assms decode_openBody [OF assms(2) openBody_fits [OF assms(2)]] show ?thesis by (simp add: open_args_def)
qed

lemma open_step:
  assumes "opens_note A r (NoteID_String nid) (openBody (BurnToken_String tok)) st" "running A" "reliable (db (ap_Env A))"
    and "length nid = 32" "length tok = 32"
    and "holds A nid m payload rk st" "getRootKey (ap_Env A) rk = Inr k"
    and "burnTokenVerifier (rk_Secret k) tok = Inr (md_BurnVerifier m)"
    and "http_step A r st = (a, st')" "clock (ap_Env A) (steps (fst st')) \<le> md_ExpiresAt m"
  shows "replied a 200 (PayloadJSON payload)"
proof -
  let ?E = "ap_Env A"
  from assms(1) have e: "snd (mux_match r) = EpOpenNote (NoteID_String nid)" "passes A r st"
    and j: "requireJSONContentType r = Inr ()" "rq_Body r = openBody (BurnToken_String tok)" by (simp_all add: opens_note_def)
  from e(2) obtain s where s: "fresh (sv_W s)" "store (sv_World s) = store (fst st)" "steps (fst st) \<le> steps (sv_World s)"
    "answer A r st = sv_W (dispatch A (EpOpenNote (NoteID_String nid)) r s)"
    "world_after A r st = sv_World (dispatch A (EpOpenNote (NoteID_String nid)) r s)"
    by (rule passes_dispatch) (auto simp: e(1))
  have d: "dispatch A (EpOpenNote (NoteID_String nid)) r s =
      HandleOpenNote ?E (ap_Service A) (with_id (NoteID_String nid) r) s"
    by (simp add: dispatch_def)
  obtain res w where o: "OpenNote ?E (ap_Service A) nid tok (sv_World s) = (res, w)" by fastforce
  note H = HandleOpenNote_args [OF open_args_valid [OF assms(4,5) j], of ?E "ap_Service A" s, unfolded o]
  have "steps w = steps (sv_World s) + 2" using o by (cases rule: OpenNote_cases) simp_all
  moreover have "fst st' = w"
    using s(5) assms(9) H by (cases res) (auto simp: d answer_simps)
  ultimately have "steps (sv_World s) \<le> steps (fst st')" "steps (fst st) \<le> steps (fst st')" using s(3) by simp_all
  from this [THEN runningD(3) [OF assms(2)], THEN order_trans, OF assms(10)]
  have le: "clock ?E (steps (sv_World s)) \<le> md_ExpiresAt m" "clock ?E (steps (fst st)) \<le> md_ExpiresAt m" .
  from le(2) assms(6) have n: "note_at ?E (store (sv_World s)) nid = Some (m, payload)"
    and root: "root_keys_b (store (sv_World s)) = rk" and "store_inv ?E (ap_Service A) (store (fst st))"
    using s(2) by (simp_all add: holds_def)
  moreover have "validMetadata (ap_Service A) m"
    using n store_invD(3) [OF \<open>store_inv ?E (ap_Service A) (store (fst st))\<close>, of nid] s(2) by (fastforce simp: note_at_Some)
  ultimately have "res = Inr \<lparr>nt_Payload = payload, nt_Metadata = m\<rparr>"
    using OpenNote_succeeds [OF assms(3) n, of "ap_Service A" k tok] assms(7,8) le(1) o by simp
  with H s(1,4) assms(9) show ?thesis by (simp add: d replied_respond)
qed

text \<open>The instants at which the server writes times can be expressed in RFC 3339.\<close>

definition writes_times :: "'b env \<Rightarrow> nat \<Rightarrow> bool" where
  "writes_times E seconds \<longleftrightarrow> (\<forall>i. writable (zone E) (clock E i) \<and> writable (zone E) (clock E i + ticketTimeout) \<and>
     writable (zone E) (clock E i + int seconds * Second))"

lemma issued_expiry:
  assumes "CreateTicket E w = (Inr t, w1)"
  shows "td_Exp (tk_Data t) = clock E (Suc (steps w)) + ticketTimeout"
  using CreateTicket_Inr(1) [OF assms] by (rule CreateTicket_tx_Inr) simp

lemma issued_verifier:
  assumes "CreateTicket E w = (Inr t, w1)" "getRootKey E (root_keys_b (store w)) = Inr k"
    and "verifyTicket E (tk_Value t) pid (tk_BurnToken t) v = (Inr (d, ver), v1)" "root_keys_b (store v) = root_keys_b (store w)"
  shows "burnTokenVerifier (rk_Secret k) (tk_BurnToken t) = Inr ver"
  using assms(3)
proof (rule verifyTicket_Inr)
  fix pv sv k' assume "getRootKey E (root_keys_b (store v)) = Inr k'"
    "checkSignature E (rk_Secret k') pv sv ver (tk_BurnToken t) = Inr ()"
  with assms(2,4) checkSignature_Inr [of E "rk_Secret k'" pv sv ver] show ?thesis by auto
qed

lemma issued_verifies:
  assumes "running A" "reliable (db (ap_Env A))" "CreateTicket (ap_Env A) w = (Inr t, w1)"
    and "root_keys_b (store v) = root_keys_b (store w)" "Suc (steps w) \<le> steps v" "clock (ap_Env A) (steps v) \<le> td_Exp (tk_Data t)"
  obtains ver where "verifyTicket (ap_Env A) (tk_Value t) (td_ID (tk_Data t)) (tk_BurnToken t) v = (Inr (tk_Data t, ver), tick (tick v))"
proof -
  have i: "td_IssuedAt (tk_Data t) = clock (ap_Env A) (Suc (steps w))" using issued_texts(4) [OF assms(3)] .
  have "clock (ap_Env A) (Suc (steps w)) \<le> clock (ap_Env A) (steps v)" by (rule runningD(3) [OF assms(1,5)])
  then have "clock (ap_Env A) (Suc (steps w)) \<le> clock (ap_Env A) (steps v) + Minute" by (simp add: go_simps)
  with verify_issued [OF runningD(1) [OF assms(1)] assms(3,4) _ _ _ assms(6)] assms(2) runningD(2) [OF assms(1)] that
  show thesis by (auto simp: reliable_def i)
qed

lemma issued_length:
  assumes "running A" "reliable (db (ap_Env A))" "CreateTicket (ap_Env A) w = (Inr t, w1)"
  shows "length (tk_Value t) \<le> maxTicketLen"
proof -
  have "clock (ap_Env A) (steps (w\<lparr>steps := Suc (steps w)\<rparr>)) \<le> td_Exp (tk_Data t)"
    using issued_expiry [OF assms(3)] by (simp add: go_simps)
  from issued_verifies [OF assms _ _ this] obtain ver where
    "verifyTicket (ap_Env A) (tk_Value t) (td_ID (tk_Data t)) (tk_BurnToken t) (w\<lparr>steps := Suc (steps w)\<rparr>) =
      (Inr (tk_Data t, ver), tick (tick (w\<lparr>steps := Suc (steps w)\<rparr>)))" by auto
  then show ?thesis by (rule verifyTicket_Inr) (rule decodeTicket_Inr(2))
qed

lemma createNoteError_world: "sv_World (createNoteError r err s) = sv_World s"
  by (simp add: createNoteError_def respond_simps writeInternalJSONError_simps on_writer_def)

lemma create_step:
  assumes "stores_note A r (NoteID_String pid) (createBody (tk_Value t) (BurnToken_String (tk_BurnToken t)) payload seconds) st"
    and "running A" "reliable (db (ap_Env A))" "takes_notes (db (ap_Env A))" "ap_Service A = NewNoteService mx"
      "mx \<le> hardMaxNoteSize" "acceptable mx payload seconds" "writes_times (ap_Env A) seconds"
    and "CreateTicket (ap_Env A) w0 = (Inr t, w1)" "pid = td_ID (tk_Data t)"
      "getRootKey (ap_Env A) (root_keys_b (store w0)) = Inr k"
    and "awaits A pid (root_keys_b (store w0)) (steps w1) st" "http_step A r st = (a, st')"
      "clock (ap_Env A) (steps (fst st')) \<le> td_Exp (tk_Data t)"
  obtains m where "replied a 201 (CreatedJSON (NoteID_String pid) (int seconds))"
    "holds A pid m payload (root_keys_b (store w0)) st'" "burnTokenVerifier (rk_Secret k) (tk_BurnToken t) = Inr (md_BurnVerifier m)"
    "clock (ap_Env A) (steps (fst st)) + int seconds * Second \<le> md_ExpiresAt m"
proof -
  let ?E = "ap_Env A" and ?S = "ap_Service A" and ?tok = "tk_BurnToken t"
  have env: "env_ok ?E" by (rule runningD(1) [OF assms(2)])
  from assms(1) have e: "snd (mux_match r) = EpCreateNote (NoteID_String pid)" "passes A r st"
    and j: "requireJSONContentType r = Inr ()" "rq_Body r = createBody (tk_Value t) (BurnToken_String ?tok) payload seconds"
    by (simp_all add: stores_note_def)
  from e(2) obtain s where s: "fresh (sv_W s)" "store (sv_World s) = store (fst st)" "steps (fst st) \<le> steps (sv_World s)"
    "answer A r st = sv_W (dispatch A (EpCreateNote (NoteID_String pid)) r s)"
    "world_after A r st = sv_World (dispatch A (EpCreateNote (NoteID_String pid)) r s)"
    by (rule passes_dispatch) (auto simp: e(1))
  note T = issued_texts [OF assms(9)]
  from assms(12) have aw: "vacant ?E pid (store (sv_World s))" "root_keys_b (store (sv_World s)) = root_keys_b (store w0)"
    "store_inv ?E ?S (store (fst st))" "steps w1 \<le> steps (fst st)"
    using s(2) by (simp_all add: awaits_def)
  have d: "dispatch A (EpCreateNote (NoteID_String pid)) r s = HandleCreateNote ?E ?S (with_id (NoteID_String pid) r) s"
    by (simp add: dispatch_def)
  have args: "create_args (svc_maxSize ?S) (with_id (NoteID_String pid) r) =
      Some (pid, \<lparr>cn_Ticket = tk_Value t, cn_BurnToken = Some ?tok, cn_Payload = payload, cn_ExpiresInSeconds = int seconds\<rparr>,
        ?tok, int seconds * Second)"
    using create_args_valid [OF assms(7) _ T(3,1) issued_length [OF assms(2,3,9)] j] T(2) assms(5,10) by simp
  obtain res w where c: "CreateNote ?E ?S pid (tk_Value t) ?tok payload (int seconds * Second) (sv_World s) = (res, w)"
    by fastforce
  note H = HandleCreateNote_args [OF args, of ?E s]
  have w: "fst st' = w"
    using s(5) assms(13) H c by (cases res) (auto simp: d respond_simps createNoteError_world)
  have "steps (sv_World s) \<le> steps w" using CreateNote_steps [of "sv_World s" ?E ?S] c by (metis snd_conv)
  from runningD(3) [OF assms(2) this] assms(14) have "clock ?E (steps (sv_World s)) \<le> td_Exp (tk_Data t)"
    unfolding w by (rule order_trans)
  moreover have "Suc (steps w0) \<le> steps (sv_World s)" using T(6) aw(4) s(3) by simp
  ultimately obtain ver where ver: "verifyTicket ?E (tk_Value t) pid ?tok (sv_World s) = (Inr (tk_Data t, ver), tick (tick (sv_World s)))"
    using issued_verifies [OF assms(2,3,9) aw(2)] assms(10) by auto
  let ?now = "clock ?E (steps (sv_World s) + 2)"
  let ?m = "\<lparr>md_BurnVerifier = ver, md_CreatedAt = ?now, md_ExpiresAt = ?now + int seconds * Second\<rparr>"
  obtain w' where c': "CreateNote ?E ?S pid (tk_Value t) ?tok payload (int seconds * Second) (sv_World s) = (Inr pid, w')"
      "note_at ?E (store w') pid = Some (?m, payload)" "root_keys_b (store w') = root_keys_b (store (sv_World s))"
  proof (rule CreateNote_succeeds [OF env assms(3,4,5) _ ver issued_length [OF assms(2,3,9)]])
    show "payload \<noteq> []" "int (length payload) \<le> mx" using assms(7) unfolding acceptable_def by blast+
    have "3600 \<le> seconds" "seconds \<le> 1209600" using assms(7) unfolding acceptable_def by blast+
    then show "minNoteLifetime \<le> int seconds * Second" "int seconds * Second \<le> maxNoteLifetime" by (simp_all add: go_simps)
    show "writable (zone ?E) (clock ?E (steps (tick (tick (sv_World s)))))"
      "writable (zone ?E) (clock ?E (steps (tick (tick (sv_World s)))) + int seconds * Second)"
      "writable (zone ?E) (td_Exp (tk_Data t))"
      using assms(8) unfolding writes_times_def issued_expiry [OF assms(9)] by blast+
  qed (use T(2) aw(1) assms(6,10) in simp_all)
  have res: "res = Inr pid" "w' = w" using c c'(1) by simp_all
  have "replied a 201 (CreatedJSON (NoteID_String pid) (int seconds))"
    using s(1,4) assms(13) H c res by (simp add: d replied_respond duration_values)
  moreover have "holds A pid ?m payload (root_keys_b (store w0)) st'"
    using c'(2,3) aw(2) w res http_step_store_inv [OF assms(2,13) aw(3)] by (simp add: holds_def)
  moreover have "burnTokenVerifier (rk_Secret k) ?tok = Inr ver" by (rule issued_verifier [OF assms(9,11) ver aw(2)])
  moreover have "clock ?E (steps (fst st)) \<le> ?now" using s(3) by (intro runningD(3) [OF assms(2)]) simp
  ultimately show thesis by (intro that [of ?m]) simp_all
qed

end
