(* ===== verification/ProtocolProps.thy ===== *)
theory ProtocolProps
  imports Protocol
begin

text \<open>
  The promise of the program over HTTP: whoever gets a ticket can store a note with it, and whoever
  then holds its burn token can read it, whatever others do in the meantime.
\<close>

section \<open>Others\<close>

definition stores_under :: "('b, 'l, 't) app \<Rightarrow> NoteID \<Rightarrow> event \<Rightarrow> bool" where
  "stores_under A nid e \<longleftrightarrow> (\<exists>t tok payload life. event_call A e = Some (StoreNote nid t tok payload life))"

definition presents :: "('b, 'l, 't) app \<Rightarrow> rootKeyRecord \<Rightarrow> NoteID \<Rightarrow> BurnToken \<Rightarrow> event \<Rightarrow> bool" where
  "presents A k nid tok e \<longleftrightarrow> (\<exists>tok'. event_call A e = Some (ReadNote nid tok') \<and>
     burnTokenVerifier (rk_Secret k) tok' = burnTokenVerifier (rk_Secret k) tok)"

lemma spares_presents:
  assumes "\<not> presents A k nid tok e" "event_call A e = Some q" "burnTokenVerifier (rk_Secret k) tok = Inr ver"
  shows "spares k nid ver q"
  using assms by (cases q) (auto simp: presents_def)

section \<open>A sample exchange\<close>

definition ex_post :: "string list \<Rightarrow> string \<Rightarrow> http_request" where
  "ex_post segs b = (ex_request ''198.51.100.9'')\<lparr>rq_URL := Some (concat (map ((#) CHR ''/'') segs)),
     rq_Segments := segs, rq_Body := b\<rparr>"

lemma ex_post_passes: "passes ex_app (ex_post segs b) (w, None)"
proof -
  have "proxy_decide ex_cfg [] (ex_post segs b) = Accept (V4 0xC6336409) (clientKey (V4 0xC6336409)) ''https://notes.example''"
    using ex_verdict [of "ex_post segs b"] by (simp add: ex_post_def ex_request_def)
  moreover have "crossOriginCheck (ex_post segs b) = None"
    by (simp add: crossOriginCheck_def ex_post_def ex_request_def ex_headers_def)
  ultimately show ?thesis by (simp add: passes_def)
qed

lemma ex_post_json: "requireJSONContentType (ex_post segs b) = Inr ()"
  by (simp add: requireJSONContentType_def ex_post_def ex_request_def ex_headers_def ex_media_type)

lemma ex_post_route:
  "snd (mux_match (ex_post [''api'', ''tickets''] b)) = EpTicket"
  "v \<noteq> [] \<Longrightarrow> snd (mux_match (ex_post [''api'', ''notes'', v] b)) = EpCreateNote v"
  "v \<noteq> [] \<Longrightarrow> snd (mux_match (ex_post [''api'', ''notes'', v, ''open''] b)) = EpOpenNote v"
  by (simp_all add: mux_match_def ex_post_def ex_request_def postRoute_def)

lemma ex_running: "running ex_app"
  by (simp add: running_def ex_env_ok ex_files_ok ex_time_def mono_def)

lemma ex_writes_times: "writes_times (ex_env None (\<lambda>_. ex_time)) 7200"
proof -
  have e: "int 7200 * Second = 2 * Hour" "ticketTimeout = 15 * Minute" by (simp_all add: go_simps)
  show ?thesis unfolding writes_times_def writable_def ex_env_simps e using ex_times by blast
qed

lemma ex_takes_notes: "takes_notes (mem_bolt cap)"
  by (auto simp: takes_notes_def)

text \<open>Without a limiter there is none after a request either.\<close>

lemma dispatch_limiter:
  fixes s :: "('a, 'b) srv"
  shows "sv_Limiter (dispatch A e r s) = sv_Limiter s"
proof -
  have view: "sv_Limiter (View T v name m t) = sv_Limiter t" for T v name m and t :: "('a, 'b) srv"
    by (simp add: View_def execute_def internalServerError_def on_writer_def split: option.split sum.split)
  show ?thesis
    by (cases e) (auto simp: dispatch_def HandleCreateNoteView_def HandlePreviewNote_def HandleGetConfig_def
        HandleCreateNote_def HandleOpenNote_def HandleCreateTicket_def view NotFound_def errorPage_def respond_def
        writeInternalJSONError_def recordFailedOpen_def on_writer_def createNoteError_def Let_def
        split: sum.split option.split prod.split)
qed

lemma ex_no_limiter:
  assumes "http_step ex_app (ex_post segs b) (w, None) = (a, st)"
  shows "snd st = None"
proof -
  have p: "proxy_verdict ex_app (ex_post segs b) = Accept (V4 0xC6336409) (clientKey (V4 0xC6336409)) ''https://notes.example''"
    using ex_verdict [of "ex_post segs b"] by (simp add: ex_post_def ex_request_def)
  have c: "crossOriginCheck (ex_post segs b) = None"
    by (simp add: crossOriginCheck_def ex_post_def ex_request_def ex_headers_def)
  have "sv_Limiter (behind ex_app (ex_post segs b) s) = None" if "sv_Limiter s = None" for s
    using that c by (simp add: behind_def RateLimitMiddleware_def CSRFMiddleware_def mux_def dispatch_limiter split: prod.split)
  with assms server_accepted(2) [OF p, of "arriving w None"] show ?thesis
    by (auto simp: http_step_def Let_def)
qed

section \<open>The property\<close>

text \<open>The first half: an issued ticket stores a note.\<close>

lemma ticket_stores:
  assumes "running A" "reliable (db (ap_Env A))" "takes_notes (db (ap_Env A))" "ap_Service A = NewNoteService mx"
      "mx \<le> hardMaxNoteSize" "acceptable mx payload seconds" "writes_times (ap_Env A) seconds"
    and "store_inv (ap_Env A) (ap_Service A) (store (fst st1))" "getRootKey (ap_Env A) (root_keys_b (store (fst st1))) = Inr k"
    and "CreateTicket (ap_Env A) w0 = (Inr t, fst st1)" "vacant (ap_Env A) (td_ID (tk_Data t)) (store (fst st1))"
    and "run_all (event_step A) es1 st1 = (lg1, st2)" "\<forall>e \<in> set es1. \<not> stores_under A (td_ID (tk_Data t)) e"
    and "stores_note A r2 (NoteID_String (td_ID (tk_Data t)))
      (createBody (tk_Value t) (BurnToken_String (tk_BurnToken t)) payload seconds) st2"
    and "http_step A r2 st2 = (a2, st3)" "clock (ap_Env A) (steps (fst st3)) \<le> td_Exp (tk_Data t)"
  obtains m where "replied a2 201 (CreatedJSON (NoteID_String (td_ID (tk_Data t))) (int seconds))"
    "holds A (td_ID (tk_Data t)) m payload (root_keys_b (store (fst st1))) st3"
    "burnTokenVerifier (rk_Secret k) (tk_BurnToken t) = Inr (md_BurnVerifier m)"
    "clock (ap_Env A) (steps (fst st2)) + int seconds * Second \<le> md_ExpiresAt m"
proof -
  have root: "root_keys_b (store (fst st1)) = root_keys_b (store w0)" using issued_texts(5) [OF assms(10)] by simp
  have aw: "awaits A (td_ID (tk_Data t)) (root_keys_b (store w0)) (steps (fst st1)) st1"
    using assms(8,11) root by (simp add: awaits_def)
  have "awaits A (td_ID (tk_Data t)) (root_keys_b (store w0)) (steps (fst st1)) st2"
    by (rule waiting.run_inv [OF _ aw assms(12)]) (use assms(1,13) in \<open>simp add: stores_under_def\<close>)
  moreover have "getRootKey (ap_Env A) (root_keys_b (store w0)) = Inr k" using assms(9) root by simp
  ultimately show thesis
    using that unfolding root by (elim create_step [OF assms(14,1-7,10) refl _ _ assms(15,16)]) assumption
qed



end
