(* ===== verification/LogProps.thy ===== *)
theory LogProps
  imports ServerProps
begin

text \<open>
  What the log may show. The README demands that the server never logs request bodies, burn tokens,
  note identifiers or queries, and that log lines hold route patterns, status codes, coarse reasons and
  rate-limit keys.
\<close>

section \<open>The vocabulary of the log\<close>

definition routeNames :: "string list" where
  "routeNames = [''unmatched'', ''/'', ''GET /{$}'', ''GET /note/{id}'', ''GET /api/config'', ''POST /api/notes/{id}'',
     ''POST /api/notes/{id}/open'', ''POST /api/tickets'', ''GET /static/{asset}'', ''GET /static/{version}/{asset...}'',
     ''GET /healthz'', ''GET /favicon.ico'', ''GET /.well-known/{asset...}'']"

definition eventNames :: "string list" where
  "eventNames = [''request_completed'', ''proxy_rejected'', ''rate_limited'', ''rate_limiter_saturated'', ''invalid_ticket'',
     ''open_failed'', ''ticket_create_failed'', ''note_save_failed'', ''note_open_failed_internal'']"

definition reasonNames :: "string list" where
  "reasonNames = [''expired'', ''unusable'', ''invalid'', ''invalid_token'', ''open_failed'', ''invalid_remote_addr'',
     ''untrusted_proxy_source'', ''invalid_forwarded_metadata'', ''forwarded_proto_not_https'', ''invalid_forwarded_origin'',
     ''forwarded_host_mismatch'', ''invalid_forwarded_chain'']"

text \<open>An attribute that shows nothing of the request but its method and its remote address.\<close>

fun discreet_attr :: "http_request \<Rightarrow> string \<Rightarrow> string \<times> log_value \<Rightarrow> bool" where
  "discreet_attr r key (name, LogText t) \<longleftrightarrow>
     name = ''event'' \<and> t \<in> set eventNames \<or> name = ''reason'' \<and> t \<in> set reasonNames \<or>
     name = ''route'' \<and> t \<in> set ((rq_Method r @ '' /{app...}'') # routeNames) \<or>
     name = ''method'' \<and> t = rq_Method r \<or> name = ''client'' \<and> t = key \<or> name = ''remote'' \<and> t = remoteText r"
| "discreet_attr r key (name, LogInt n) \<longleftrightarrow> name \<in> {''status'', ''bucket_count''}"
| "discreet_attr r key (name, LogErr err) \<longleftrightarrow> name = ''error''"
| "discreet_attr r key (name, LogFlag b) \<longleftrightarrow> False"

fun discreet :: "http_request \<Rightarrow> string \<Rightarrow> log_line \<Rightarrow> bool" where
  "discreet r key (LogLine level msg args) \<longleftrightarrow> list_all (discreet_attr r key) args"

section \<open>Routes and reasons\<close>

lemma mux_pattern: "fst (mux_match r) \<in> set routeNames"
proof -
  have "fst m \<in> set routeNames" if "getRoute segs = Some m" for segs m
    using that unfolding getRoute_def by (auto simp: routeNames_def split: list.splits if_splits)
  moreover have "fst m \<in> set routeNames" if "postRoute segs = Some m" for segs m
    using that unfolding postRoute_def by (auto simp: routeNames_def split: list.splits if_splits)
  moreover have "''/'' \<in> set routeNames" by (simp add: routeNames_def)
  ultimately show ?thesis by (auto simp: mux_match_def split: option.split)
qed

lemma fallback_names: "fallbackRoutePattern m p \<in> set ((m @ '' /{app...}'') # routeNames)"
  by (simp add: fallbackRoutePattern_def routeNames_def)

lemma routePattern_names: "routePattern (Some (r\<lparr>rq_Pattern := p\<rparr>)) \<in> set ((rq_Method r @ '' /{app...}'') # routeNames)"
  if "p = [] \<or> p \<in> set routeNames"
  using that fallback_names [of "rq_Method r"] by (auto simp: routePattern_def routeNames_def split: option.split)

lemma routePattern_set: "p \<in> set routeNames \<Longrightarrow> routePattern (Some (q\<lparr>rq_Pattern := p\<rparr>)) = p"
  by (auto simp: routePattern_def routeNames_def)

lemma reject_reason: "proxy_decide cfg o0 r = Reject reason \<Longrightarrow> reason \<in> set reasonNames"
  by (auto simp: proxy_decide_def reasonNames_def split: sum.splits if_splits prod.splits)

lemma ticket_reason: "ticketErrorReason err \<in> set reasonNames"
  by (simp add: ticketErrorReason_def reasonNames_def)

section \<open>The lines of a request\<close>

lemma log_writers [simp]:
  "wr_Log (set_header k v w) = wr_Log w" "wr_Log (del_header k w) = wr_Log w" "wr_Log (write_header c w) = wr_Log w"
  "wr_Log (write_body b w) = wr_Log w" "wr_Log (setNoStore w) = wr_Log w" "wr_Log (writeJSON c b w) = wr_Log w"
  "wr_Log (http_Error t c w) = wr_Log w" "wr_Log (writeErrorResponse r c x w) = wr_Log w" "wr_Log (healthz w) = wr_Log w"
  "wr_Log (http_NotFound w) = wr_Log w"
  by (simp_all add: writer_defs setNoStore_def writeJSON_def http_Error_def writeErrorResponse_def healthz_def
      http_NotFound_def split: option.split)

lemma log_headers [simp]: "wr_Log (fold (\<lambda>(k, v). set_header k v) hs w) = wr_Log w"
  by (induction hs arbitrary: w) auto

text \<open>The file server logs nothing.\<close>

definition quiet :: "(string \<Rightarrow> writer \<Rightarrow> writer) \<Rightarrow> bool" where
  "quiet files \<longleftrightarrow> (\<forall>asset w. wr_Log (files asset w) = wr_Log w)"

definition discreet_log :: "http_request \<Rightarrow> string \<Rightarrow> log_line list \<Rightarrow> bool" where
  "discreet_log r key ls \<longleftrightarrow> list_all (discreet r key) ls"

lemma discreet_log_simps [simp]:
  "discreet_log r key []" "discreet_log r key (l # ls) \<longleftrightarrow> discreet r key l \<and> discreet_log r key ls"
  "discreet_log r key (ls @ ls') \<longleftrightarrow> discreet_log r key ls \<and> discreet_log r key ls'"
  by (simp_all add: discreet_log_def)

lemma discreet_event:
  assumes "sv_Pattern s \<in> set routeNames" "event \<in> set eventNames" "reason \<in> set reasonNames"
  shows "discreet r (cx_ClientKey (sv_Ctx s)) (requestEvent event q reason status s)"
  using assms by (simp add: requestEvent_def logSecurityEvent_def routed_def routePattern_set eventNames_def)

lemma discreet_error:
  assumes "sv_Pattern s \<in> set routeNames" "event \<in> set eventNames"
  shows "discreet r (cx_ClientKey (sv_Ctx s)) (logRequestError (Some (routed q s)) (Some ((sv_Ctx s)\<lparr>cx_Err := e\<rparr>)) event err [])"
  using assms by (simp add: logRequestError_def routed_def routePattern_set)

lemma log_View [simp]: "wr_Log (sv_W (View T v name m s)) = wr_Log (sv_W s)"
  by (simp add: View_def execute_def internalServerError_def on_writer_def split: option.split sum.split)

lemma log_NotFound [simp]: "wr_Log (sv_W (NotFound T v r s)) = wr_Log (sv_W s)"
  by (simp add: NotFound_def errorPage_def on_writer_def)

lemma event_names:
  "''invalid_ticket'' \<in> set eventNames" "''open_failed'' \<in> set eventNames" "''ticket_create_failed'' \<in> set eventNames"
  "''note_save_failed'' \<in> set eventNames" "''note_open_failed_internal'' \<in> set eventNames"
  "''invalid_token'' \<in> set reasonNames" "''open_failed'' \<in> set reasonNames"
  by (simp_all add: eventNames_def reasonNames_def)

text \<open>The three places where a handler logs.\<close>

lemma log_handlers:
  assumes "sv_Pattern s \<in> set routeNames" "discreet_log r (cx_ClientKey (sv_Ctx s)) (wr_Log (sv_W s))"
  shows "event \<in> set eventNames \<Longrightarrow>
      discreet_log r (cx_ClientKey (sv_Ctx s)) (wr_Log (sv_W (writeInternalJSONError q event err (s\<lparr>sv_World := w\<rparr>))))"
    "discreet_log r (cx_ClientKey (sv_Ctx s)) (wr_Log (sv_W (createNoteError q err (s\<lparr>sv_World := w\<rparr>))))"
    "reason \<in> set reasonNames \<Longrightarrow>
      discreet_log r (cx_ClientKey (sv_Ctx s)) (wr_Log (sv_W (recordFailedOpen q reason s)))"
    "reason \<in> set reasonNames \<Longrightarrow>
      discreet_log r (cx_ClientKey (sv_Ctx s)) (wr_Log (sv_W (recordFailedOpen q reason (s\<lparr>sv_World := w\<rparr>))))"
proof -
  note E = discreet_event [of "s\<lparr>sv_World := w\<rparr>"] discreet_event [of s] discreet_error [of "s\<lparr>sv_World := w\<rparr>"]
  show internal: "discreet_log r (cx_ClientKey (sv_Ctx s)) (wr_Log (sv_W (writeInternalJSONError q event err (s\<lparr>sv_World := w\<rparr>))))"
    if "event \<in> set eventNames" for event err
    using that assms E(3) [of event] by (simp add: writeInternalJSONError_simps)
  show "discreet_log r (cx_ClientKey (sv_Ctx s)) (wr_Log (sv_W (createNoteError q err (s\<lparr>sv_World := w\<rparr>))))"
    using assms E(1) [OF _ event_names(1) ticket_reason] internal [OF event_names(4)]
    by (simp add: createNoteError_def respond_simps on_writer_def)
  show "discreet_log r (cx_ClientKey (sv_Ctx s)) (wr_Log (sv_W (recordFailedOpen q reason s)))"
    "discreet_log r (cx_ClientKey (sv_Ctx s)) (wr_Log (sv_W (recordFailedOpen q reason (s\<lparr>sv_World := w\<rparr>))))"
    if "reason \<in> set reasonNames" for reason
    using that assms E(1,2) event_names(2) by (simp_all add: recordFailedOpen_simps)
qed

lemma dispatch_log:
  assumes "quiet (ap_Files A)" "sv_Pattern s \<in> set routeNames" "discreet_log r (cx_ClientKey (sv_Ctx s)) (wr_Log (sv_W s))"
  shows "discreet_log r (cx_ClientKey (sv_Ctx s)) (wr_Log (sv_W (dispatch A e q s)))"
proof -
  note L = log_handlers [OF assms(2,3)] and resp = respond_simps
  have files: "discreet_log r (cx_ClientKey (sv_Ctx s)) (wr_Log (HandleStaticAssets ver (ap_Files A) q' (sv_W s)))" for ver q'
    using assms(1,3) by (simp add: HandleStaticAssets_def quiet_def split: option.split)
  show ?thesis
  proof (cases e)
    case (EpCreateNote v)
    show ?thesis
      unfolding EpCreateNote dispatch_def endpoint.case HandleCreateNote_def
      using assms(3) L(2) by (auto simp: resp split: sum.split option.split prod.split)
  next
    case (EpOpenNote v)
    show ?thesis
      unfolding EpOpenNote dispatch_def endpoint.case HandleOpenNote_def
      using assms(3) L(1) [OF event_names(5)] L(3) [OF event_names(6)] L(4) [OF event_names(7)]
      by (auto simp: resp split: sum.split option.split prod.split)
  next
    case EpTicket
    show ?thesis
      unfolding EpTicket dispatch_def endpoint.case HandleCreateTicket_def
      using assms(3) L(1) [OF event_names(3)] by (auto simp: resp split: sum.split prod.split)
  qed (use assms(3) files in \<open>simp_all add: dispatch_def HandleCreateNoteView_def HandlePreviewNote_def HandleGetConfig_def
      on_writer_def resp split: sum.split\<close>)
qed

section \<open>The property\<close>

text \<open>All lines of a request, in the order in which they are written.\<close>

definition request_log :: "('b, 'l, 't) app \<Rightarrow> http_request \<Rightarrow> 'b world \<Rightarrow> 'l RateLimiter option \<Rightarrow> log_line list" where
  "request_log A r world limiter =
     (let t = newServerHandler A r (arriving world limiter) in wr_Log (sv_W t) @ sv_Log t)"

lemma behind_log:
  assumes "quiet (ap_Files A)" "sv_Pattern s = []" "wr_Log (sv_W s) = []"
  shows "discreet_log r (cx_ClientKey (sv_Ctx s)) (wr_Log (sv_W (behind A r s)))"
proof (cases rule: behind_cases [of s A r])
  case (limited l t0 w0 retry l')
  have "discreet_log r key (saturationLog iter l key now)" for iter key now
    by (simp add: saturationLog_def Let_def logSecurityEvent_def eventNames_def)
  with limited(6) assms routePattern_names [of "[]" r] show ?thesis
    by (auto simp: on_writer_def logSecurityEvent_def routed_def eventNames_def)
next
  case (passed s1)
  show ?thesis
  proof (cases rule: CSRF_cases [of r "mux A" s1])
    case refused
    with passed assms show ?thesis by (simp add: on_writer_def)
  next
    case csrf: passed
    obtain pattern e where m: "mux_match r = (pattern, e)" by fastforce
    have "pattern \<in> set routeNames" using mux_pattern [of r] by (simp add: m)
    with dispatch_log [OF assms(1), of "s1\<lparr>sv_Pattern := pattern\<rparr>" r e r] passed csrf(2) assms(3)
    show ?thesis by (simp add: mux_def m)
  qed
qed



end
