(* ===== verification/Startup.thy ===== *)
theory Startup
  imports Server ConfigProps Database
begin

text \<open>
  \<open>main.go\<close> up to the listening server: the environment of \<open>--dev\<close>, and \<open>run\<close>, which reads
  the configuration, opens and maintains the database, prepares the assets and the pages and
  assembles the application. Everything outside the program is a field of \<open>platform\<close>.
\<close>

section \<open>The environment of a development run\<close>

text \<open>\<open>godotenv.Read\<close> returns the variables of \<open>.env\<close>, none when it cannot read the file, and
  an error, here with whether it is \<open>fs.ErrNotExist\<close>.\<close>

record dotenv =
  de_Env :: "string \<rightharpoonup> string"
  de_Err :: "(goerr \<times> bool) option"

definition loadDevelopmentEnv :: "dotenv \<Rightarrow> (string \<Rightarrow> string) \<Rightarrow> (string \<Rightarrow> string) result" where
  "loadDevelopmentEnv d Getenv =
     (case de_Err d of
        Some (err, False) \<Rightarrow> Inl err
      | _ \<Rightarrow>
          (let env = (if de_Env d envEnvironment = None then (de_Env d)(envEnvironment \<mapsto> environmentDevelopment)
                      else de_Env d)
           in Inr (\<lambda>key. let value = Getenv key
                in if value \<noteq> [] then value
                   else case env key of Some value \<Rightarrow> value | None \<Rightarrow> [])))"

section \<open>Assembling the application\<close>

text \<open>The fields that depend on a flag are those of \<open>applicationFileSystems\<close>: the directories
  of a development run, or the embedded files.\<close>

record ('b, 'l, 't) platform =
  pl_Env :: "'b env"
  pl_OS :: "'b osenv"
  pl_Tokens :: "'l tokenlib"
  pl_Iter :: "'l buckets \<Rightarrow> 'l buckets"
  pl_StaticFS :: "bool \<Rightarrow> entry list"
  pl_FileServer :: "bool \<Rightarrow> string \<Rightarrow> writer \<Rightarrow> writer"
  pl_TemplateFS :: "bool \<Rightarrow> 't templates"

record http_Server =
  hs_Addr :: string
  hs_ReadHeaderTimeout :: duration
  hs_ReadTimeout :: duration
  hs_WriteTimeout :: duration
  hs_IdleTimeout :: duration
  hs_MaxHeaderBytes :: int

definition newServer :: "Config \<Rightarrow> http_Server" where
  "newServer cfg =
     \<lparr>hs_Addr = JoinHostPort (cfg_Host cfg) (cfg_Port cfg), hs_ReadHeaderTimeout = 5 * Second,
      hs_ReadTimeout = 15 * Second, hs_WriteTimeout = 30 * Second, hs_IdleTimeout = 60 * Second,
      hs_MaxHeaderBytes = 16 * 1024\<rparr>"

definition applicationFileSystems ::
  "('b, 'l, 't) platform \<Rightarrow> Config \<Rightarrow> entry list \<times> (string \<Rightarrow> writer \<Rightarrow> writer) \<times> 't templates" where
  "applicationFileSystems P cfg =
     (let dev = cfg_IsDevelopment cfg in (pl_StaticFS P dev, pl_FileServer P dev, pl_TemplateFS P dev))"

text \<open>The database of the service is the set of buckets of the opened file. Without one of
  them the service would panic on a nil bucket; \<open>openDB\<close> creates them all.\<close>

definition openWorld :: "('b, 'l, 't) platform \<Rightarrow> Config \<Rightarrow> ('b world) result \<times> log" where
  "openWorld P cfg =
     (case openDB (db (pl_Env P)) (pl_OS P) 0 (cfg_DBPath cfg) (cfg_MaxDBSize cfg) of
        (Inl err, lg) \<Rightarrow> (Inl err, lg)
      | (Inr raw, lg) \<Rightarrow>
          (case store_of raw of
             None \<Rightarrow> (Inl (Msg ''panic: nil bucket''), lg)
           | Some st \<Rightarrow> (Inr \<lparr>store = st, steps = 1\<rparr>, lg)))"

definition assemble :: "('b, 'l, 't) platform \<Rightarrow> Config \<Rightarrow> ('b, 'l, 't) app result" where
  "assemble P cfg =
     (case applicationFileSystems P cfg of (staticFS, fileServer, templateFS) \<Rightarrow>
     (case NewAssetVersion staticFS of
        Inl err \<Rightarrow> Inl (Wrap ''error creating asset version: %w'' err)
      | Inr assetVersion \<Rightarrow>
     (case NewViews templateFS assetVersion (cfg_IsDevelopment cfg) (cfg_Brand cfg) of
        Inl err \<Rightarrow> Inl (Wrap ''error parsing templates: %w'' err)
      | Inr views \<Rightarrow>
          Inr \<lparr>ap_Env = pl_Env P, ap_Service = NewNoteService (cfg_MaxNoteSize cfg), ap_Cfg = cfg,
            ap_Tokens = pl_Tokens P, ap_Iter = pl_Iter P, ap_Templates = templateFS,
            ap_Views = views, ap_AssetVersion = assetVersion, ap_Files = fileServer\<rparr>)))"

text \<open>What \<open>run\<close> has when it starts to listen.\<close>

record ('b, 'l, 't) running =
  rn_App :: "('b, 'l, 't) app"
  rn_Server :: http_Server
  rn_World :: "'b world"
  rn_Limiter :: "'l RateLimiter"
  rn_Log :: log

text \<open>\<open>run\<close> before \<open>runServer\<close>.\<close>

definition run_setup ::
  "('b, 'l, 't) platform \<Rightarrow> (string \<Rightarrow> string) option \<Rightarrow> StartupOptions \<Rightarrow> ('b, 'l, 't) running result" where
  "run_setup P getenv options =
     (case NewConfigWithOptions getenv options of
        Inl err \<Rightarrow> Inl (Wrap ''error creating config: %w'' err)
      | Inr cfg \<Rightarrow>
     (case openWorld P cfg of
        (Inl err, lg) \<Rightarrow> Inl err
      | (Inr w0, lg) \<Rightarrow>
     (case StartupMaintenance (pl_Env P) (NewNoteService (cfg_MaxNoteSize cfg)) w0 of
        (Inl err, w) \<Rightarrow> Inl (Wrap ''error initializing database state: %w'' err)
      | (Inr _, w) \<Rightarrow>
     (case assemble P cfg of
        Inl err \<Rightarrow> Inl err
      | Inr A \<Rightarrow>
          Inr \<lparr>rn_App = A, rn_Server = newServer cfg, rn_World = w, rn_Limiter = NewRateLimiter (cfg_RateLimit cfg),
            rn_Log = lg\<rparr>))))"

text \<open>\<open>main\<close>: the environment depends on the flag \<open>--dev\<close>.\<close>

definition main_setup ::
  "('b, 'l, 't) platform \<Rightarrow> dotenv \<Rightarrow> (string \<Rightarrow> string) \<Rightarrow> bool \<Rightarrow> ('b, 'l, 't) running result" where
  "main_setup P d Getenv dev =
     (case (if dev then loadDevelopmentEnv d Getenv else Inr Getenv) of
        Inl err \<Rightarrow> Inl err
      | Inr getenv \<Rightarrow> run_setup P (Some getenv) \<lparr>so_Development = dev\<rparr>)"

text \<open>\<open>runServer\<close> up to the listener, whose address is what \<open>net.Listen\<close> chose for that of the server.\<close>

definition runServer :: "(string \<Rightarrow> string result) \<Rightarrow> http_Server \<Rightarrow> string result" where
  "runServer Listen server =
     (case Listen (hs_Addr server) of Inl err \<Rightarrow> Inl (Wrap ''error listening on %s: %w'' err) | Inr addr \<Rightarrow> Inr addr)"

text \<open>\<open>main\<close> and what it calls, until the server listens or the process exits: the lines written and the
  exit code, if it comes to that. \<open>flags\<close> is what \<open>flag\<close> parsed: \<open>--dev\<close> and the number of
  positional arguments.\<close>

definition main_start ::
  "('b, 'l, 't) platform \<Rightarrow> dotenv \<Rightarrow> (string \<Rightarrow> string) \<Rightarrow> (bool \<times> nat) result \<Rightarrow> (string \<Rightarrow> string result) \<Rightarrow>
     log_line list \<times> int option" where
  "main_start P d Getenv flags Listen =
     (case flags of
        Inl err \<Rightarrow> ([logServerError ''flag_parse_failed'' err []], Some 1)
      | Inr (dev, nArg) \<Rightarrow>
     (if nArg \<noteq> 0
      then ([LogLine LevelError logMsgStartupFailed
               [(''event'', LogText ''unexpected_positional_arguments''), (''count'', LogInt (int nArg))]], Some 1)
      else case (if dev then loadDevelopmentEnv d Getenv else Inr Getenv) of
        Inl err \<Rightarrow> ([logServerError ''development_environment_load_failed'' err []], Some 1)
      | Inr getenv \<Rightarrow>
     (case run_setup P (Some getenv) \<lparr>so_Development = dev\<rparr> of
        Inl err \<Rightarrow> ([logServerError ''application_run_failed'' err []], Some 1)
      | Inr rn \<Rightarrow>
     (case runServer Listen (rn_Server rn) of
        Inl err \<Rightarrow> ([logServerError ''application_run_failed'' err []], Some 1)
      | Inr addr \<Rightarrow>
          ([logStartupSummary (ap_Cfg (rn_App rn)) addr,
            LogLine LevelInfo logMsgServerLifecycle [(''event'', LogText ''server_listening''), (''addr'', LogText addr)]],
           None)))))"

section \<open>Lemmas\<close>

lemma main_start_Inr:
  assumes "main_setup P d Getenv dev = Inr rn"
  shows "main_start P d Getenv (Inr (dev, 0)) Listen =
    (case Listen (hs_Addr (newServer (ap_Cfg (rn_App rn)))) of
       Inl err \<Rightarrow> ([logServerError ''application_run_failed'' (Wrap ''error listening on %s: %w'' err) []], Some 1)
     | Inr addr \<Rightarrow>
         ([logStartupSummary (ap_Cfg (rn_App rn)) addr,
           LogLine LevelInfo logMsgServerLifecycle [(''event'', LogText ''server_listening''), (''addr'', LogText addr)]],
          None))"
proof -
  have "rn_Server rn = newServer (ap_Cfg (rn_App rn))"
    using assms by (auto simp: main_setup_def run_setup_def assemble_def split: sum.splits if_splits prod.splits)
  with assms show ?thesis
    by (auto simp: main_setup_def main_start_def runServer_def split: sum.splits if_splits)
qed

lemma main_setup_Inr:
  assumes "main_setup P d Getenv dev = Inr rn"
  obtains getenv cfg w0 lg A where "NewConfigWithOptions (Some getenv) \<lparr>so_Development = dev\<rparr> = Inr cfg"
    "openWorld P cfg = (Inr w0, lg)"
    "StartupMaintenance (pl_Env P) (NewNoteService (cfg_MaxNoteSize cfg)) w0 = (Inr (), rn_World rn)"
    "assemble P cfg = Inr A" "rn_App rn = A" "rn_Limiter rn = NewRateLimiter (cfg_RateLimit cfg)"
    "rn_Server rn = newServer cfg" "dev \<longrightarrow> loadDevelopmentEnv d Getenv = Inr getenv" "\<not> dev \<longrightarrow> getenv = Getenv"
  using assms
  by (auto simp: main_setup_def run_setup_def split: if_splits sum.splits prod.splits)

lemma openWorld_Inr:
  assumes "openWorld P cfg = (Inr w, lg)"
  obtains raw where "openDB (db (pl_Env P)) (pl_OS P) 0 (cfg_DBPath cfg) (cfg_MaxDBSize cfg) = (Inr raw, lg)"
    "store_of raw = Some (store w)"
  using assms by (auto simp: openWorld_def split: prod.splits sum.splits option.splits)

lemma openWorld_panic:
  assumes "bolt_ok (db (pl_Env P))"
  shows "fst (openWorld P cfg) \<noteq> Inl (Msg ''panic: nil bucket'') \<or>
    fst (openDB (db (pl_Env P)) (pl_OS P) 0 (cfg_DBPath cfg) (cfg_MaxDBSize cfg)) = Inl (Msg ''panic: nil bucket'')"
  using openDB_facts [OF assms, of "pl_OS P" 0 "cfg_DBPath cfg" "cfg_MaxDBSize cfg"]
  by (auto simp: openWorld_def split: prod.splits sum.splits option.splits)

lemma assemble_Inr:
  assumes "assemble P cfg = Inr A"
  shows "ap_Env A = pl_Env P" "ap_Service A = NewNoteService (cfg_MaxNoteSize cfg)" "ap_Cfg A = cfg"
    "ap_Files A = pl_FileServer P (cfg_IsDevelopment cfg)" "length (ap_AssetVersion A) \<le> 16"
    "vw_AssetVersion (ap_Views A) = ap_AssetVersion A"
  using assms
  by (auto simp: assemble_def applicationFileSystems_def Let_def NewAssetVersion_def NewViews_def split: sum.splits if_splits)

end
