(* ===== verification/Lifecycle.thy ===== *)
theory Lifecycle
  imports RequestPath Startup
begin

text \<open>
  \<open>serveServer\<close> of \<open>main.go\<close> as a state machine: the main function, the goroutine that serves
  and the goroutine that cleans up, with the context, the error channel and the wait group
  they share, and the deferred close of the database in \<open>run\<close>. A request is one step here;
  \<open>Interleaving\<close> takes them apart.
\<close>

section \<open>State\<close>

text \<open>Where each goroutine stands. The serving one carries what it got from \<open>Serve\<close>, with
  \<open>None\<close> for \<open>http.ErrServerClosed\<close>; waiting for the wait group is waiting for both.\<close>

datatype main_pc = AwaitCtx | InShutdown | InClose | AwaitGroup | ReceiveErr | Returned "unit result"

datatype serve_pc = InServe | SendErr "goerr option" | CallCancel "goerr option" | ServeDone "goerr option"

datatype clean_pc = AwaitTick | InCleanup | CleanDone

record ('b, 'l) life =
  lf_main :: main_pc
  lf_serve :: serve_pc
  lf_clean :: clean_pc
  lf_ctxDone :: bool
  lf_serveErr :: "goerr option option"
  lf_closing :: bool
  lf_active :: nat
  lf_world :: "'b world"
  lf_limiter :: "'l RateLimiter option"
  lf_dbOpen :: bool

definition life_start :: "('b, 'l, 't) running \<Rightarrow> ('b, 'l) life" where
  "life_start rn =
     \<lparr>lf_main = AwaitCtx, lf_serve = InServe, lf_clean = AwaitTick, lf_ctxDone = False, lf_serveErr = None,
      lf_closing = False, lf_active = 0, lf_world = rn_World rn, lf_limiter = Some (rn_Limiter rn), lf_dbOpen = True\<rparr>"

text \<open>Events: those from outside are a signal, an arriving request, a failing listener and a
  tick of the cleanup ticker.\<close>

datatype event =
    Signal | Arrives | ServeFails goerr | Tick
  | Handled http_request | ServeReturns | ErrSent | Cancelled | Cleaned | CleanReturns
  | ShutdownCalled | Drained | ShutdownFailed | Closed | GroupDone | ErrReceived | DBClosed

definition outside :: "event \<Rightarrow> bool" where
  "outside e \<longleftrightarrow> e \<in> {Signal, Arrives, Tick} \<or> (\<exists>err. e = ServeFails err)"

definition serve_result :: "goerr option \<Rightarrow> unit result" where
  "serve_result e = (case e of None \<Rightarrow> Inr () | Some err \<Rightarrow> Inl (Wrap ''error serving HTTP: %w'' err))"

section \<open>Steps\<close>

text \<open>\<open>Shutdown\<close> and \<open>Close\<close> make \<open>Serve\<close> return \<open>ErrServerClosed\<close>; \<open>Shutdown\<close> returns when no
  request is active, with an error if closing the listener failed, or when the grace period,
  if there is one, is over. A request that outlives \<open>Close\<close> finds the database closed.\<close>

inductive life_step :: "('b, 'l, 't) app \<Rightarrow> ('b, 'l) life \<Rightarrow> event \<Rightarrow> ('b, 'l) life \<Rightarrow> bool" for A where
  signal: "life_step A s Signal (s\<lparr>lf_ctxDone := True\<rparr>)"
| arrives: "lf_serve s = InServe \<Longrightarrow> \<not> lf_closing s \<Longrightarrow> life_step A s Arrives (s\<lparr>lf_active := Suc (lf_active s)\<rparr>)"
| handled: "lf_active s = Suc n \<Longrightarrow> lf_dbOpen s \<Longrightarrow> http_step A r (lf_world s, lf_limiter s) = (w, (world, limiter)) \<Longrightarrow>
    life_step A s (Handled r) (s\<lparr>lf_active := n, lf_world := world, lf_limiter := limiter\<rparr>)"
| handled_late: "lf_active s = Suc n \<Longrightarrow> \<not> lf_dbOpen s \<Longrightarrow> life_step A s (Handled r) (s\<lparr>lf_active := n\<rparr>)"
| serve_fails: "lf_serve s = InServe \<Longrightarrow> \<not> lf_closing s \<Longrightarrow> life_step A s (ServeFails err) (s\<lparr>lf_serve := SendErr (Some err)\<rparr>)"
| serve_returns: "lf_serve s = InServe \<Longrightarrow> lf_closing s \<Longrightarrow> life_step A s ServeReturns (s\<lparr>lf_serve := SendErr None\<rparr>)"
| err_sent: "lf_serve s = SendErr e \<Longrightarrow> lf_serveErr s = None \<Longrightarrow>
    life_step A s ErrSent (s\<lparr>lf_serve := CallCancel e, lf_serveErr := Some e\<rparr>)"
| cancelled: "lf_serve s = CallCancel e \<Longrightarrow> life_step A s Cancelled (s\<lparr>lf_serve := ServeDone e, lf_ctxDone := True\<rparr>)"
| ticked: "lf_clean s = AwaitTick \<Longrightarrow> life_step A s Tick (s\<lparr>lf_clean := InCleanup\<rparr>)"
| cleaned: "lf_clean s = InCleanup \<Longrightarrow> Cleanup (ap_Env A) (ap_Service A) (lf_world s) = (res, world) \<Longrightarrow>
    life_step A s Cleaned (s\<lparr>lf_clean := AwaitTick, lf_world := world\<rparr>)"
| clean_returns: "lf_clean s = AwaitTick \<Longrightarrow> lf_ctxDone s \<Longrightarrow> life_step A s CleanReturns (s\<lparr>lf_clean := CleanDone\<rparr>)"
| shutdown: "lf_main s = AwaitCtx \<Longrightarrow> lf_ctxDone s \<Longrightarrow>
    life_step A s ShutdownCalled (s\<lparr>lf_main := InShutdown, lf_closing := True\<rparr>)"
| drained: "lf_main s = InShutdown \<Longrightarrow> lf_active s = 0 \<Longrightarrow> life_step A s Drained (s\<lparr>lf_main := AwaitGroup\<rparr>)"
| shutdown_failed: "lf_main s = InShutdown \<Longrightarrow> lf_active s = 0 \<or> 0 < cfg_GracePeriod (ap_Cfg A) \<Longrightarrow>
    life_step A s ShutdownFailed (s\<lparr>lf_main := InClose\<rparr>)"
| closed: "lf_main s = InClose \<Longrightarrow> life_step A s Closed (s\<lparr>lf_main := AwaitGroup\<rparr>)"
| group_done: "lf_main s = AwaitGroup \<Longrightarrow> lf_serve s = ServeDone e \<Longrightarrow> lf_clean s = CleanDone \<Longrightarrow>
    life_step A s GroupDone (s\<lparr>lf_main := ReceiveErr\<rparr>)"
| err_received: "lf_main s = ReceiveErr \<Longrightarrow> lf_serveErr s = Some e \<Longrightarrow>
    life_step A s ErrReceived (s\<lparr>lf_main := Returned (serve_result e), lf_serveErr := None\<rparr>)"
| db_closed: "lf_main s = Returned res \<Longrightarrow> lf_dbOpen s \<Longrightarrow> life_step A s DBClosed (s\<lparr>lf_dbOpen := False\<rparr>)"

section \<open>Invariant\<close>

text \<open>How far each goroutine has come when the others have come that far.\<close>

definition life_inv :: "('b, 'l) life \<Rightarrow> bool" where
  "life_inv s \<longleftrightarrow>
     (lf_main s = AwaitCtx \<longleftrightarrow> \<not> lf_closing s) \<and> (lf_closing s \<longrightarrow> lf_ctxDone s) \<and>
     (lf_clean s = CleanDone \<longrightarrow> lf_ctxDone s) \<and>
     (case lf_serve s of
        InServe \<Rightarrow> lf_serveErr s = None
      | SendErr e \<Rightarrow> lf_serveErr s = None
      | CallCancel e \<Rightarrow> lf_serveErr s = Some e
      | ServeDone e \<Rightarrow> lf_ctxDone s \<and>
          (case lf_main s of Returned r \<Rightarrow> r = serve_result e \<and> lf_serveErr s = None | _ \<Rightarrow> lf_serveErr s = Some e)) \<and>
     (lf_main s = ReceiveErr \<or> (\<exists>r. lf_main s = Returned r) \<longrightarrow>
        (\<exists>e. lf_serve s = ServeDone e) \<and> lf_clean s = CleanDone) \<and>
     (\<not> lf_dbOpen s \<longrightarrow> (\<exists>r. lf_main s = Returned r))"

lemma life_inv_start: "life_inv (life_start rn)"
  by (simp add: life_inv_def life_start_def)

lemma life_step_inv:
  assumes "life_inv s" "life_step A s e s'"
  shows "life_inv s'"
  using assms(2,1)
proof (cases rule: life_step.cases)
  case (err_received x)
  then show ?thesis using assms(1) by (auto simp: life_inv_def split: serve_pc.splits)
qed (auto simp: life_inv_def split: serve_pc.splits main_pc.splits)

interpretation life: step_invariant "life_step A" "\<lambda>e. True" life_inv for A
  by unfold_locales (rule life_step_inv)

section \<open>Progress\<close>

text \<open>The main function only moves forward; its positions are preordered by their stage.\<close>

fun stage :: "main_pc \<Rightarrow> nat" where
  "stage AwaitCtx = 0"
| "stage InShutdown = 1"
| "stage InClose = 2"
| "stage AwaitGroup = 3"
| "stage ReceiveErr = 4"
| "stage (Returned r) = 5"

instantiation main_pc :: preorder
begin

definition less_eq_main_pc :: "main_pc \<Rightarrow> main_pc \<Rightarrow> bool" where
  "m \<le> n \<longleftrightarrow> stage m \<le> stage n"

definition less_main_pc :: "main_pc \<Rightarrow> main_pc \<Rightarrow> bool" where
  "m < n \<longleftrightarrow> stage m < stage n"

instance
  by standard (auto simp: less_eq_main_pc_def less_main_pc_def)

end

lemma Returned_top: "Returned r \<le> m \<longleftrightarrow> (\<exists>q. m = Returned q)"
  by (cases m) (simp_all add: less_eq_main_pc_def)

lemma main_forward: "life_step A s e s' \<Longrightarrow> lf_main s \<le> lf_main s'"
  by (cases rule: life_step.cases) (auto simp: less_eq_main_pc_def)

lemma main_forward_path: "path (life_step A) s es s' \<Longrightarrow> lf_main s \<le> lf_main s'"
  by (induction rule: path.induct) (auto intro: order_trans main_forward)

text \<open>A closed database stays as it is.\<close>

lemma closed_step:
  assumes "life_step A s e s'" "life_inv s" "\<not> lf_dbOpen s"
  shows "lf_world s' = lf_world s \<and> \<not> lf_dbOpen s'"
  using assms by (cases rule: life_step.cases) (auto simp: life_inv_def)

lemma closed_path:
  "path (life_step A) s es s' \<Longrightarrow> life_inv s \<Longrightarrow> \<not> lf_dbOpen s \<Longrightarrow> lf_world s' = lf_world s \<and> \<not> lf_dbOpen s'"
  by (induction rule: path.induct) (simp_all add: closed_step life_step_inv)

section \<open>Rank\<close>

text \<open>Steps the server still has to take on its own.\<close>

definition rank :: "('b, 'l) life \<Rightarrow> nat" where
  "rank s =
     (5 - stage (lf_main s)) +
     (case lf_serve s of InServe \<Rightarrow> 3 | SendErr e \<Rightarrow> 2 | CallCancel e \<Rightarrow> 1 | ServeDone e \<Rightarrow> 0) +
     (case lf_clean s of InCleanup \<Rightarrow> 2 | AwaitTick \<Rightarrow> 1 | CleanDone \<Rightarrow> 0) + lf_active s + of_bool (lf_dbOpen s)"

lemma inside_rank: "life_step A s e s' \<Longrightarrow> \<not> outside e \<Longrightarrow> rank s' < rank s"
  by (cases rule: life_step.cases) (auto simp: rank_def outside_def)

lemma inside_path_rank:
  "path (life_step A) s es s' \<Longrightarrow> \<forall>e \<in> set es. \<not> outside e \<Longrightarrow> length es + rank s' \<le> rank s"
proof (induction rule: path.induct)
  case (more s e s1 es s2)
  with inside_rank [OF more.hyps(1)] show ?case by simp
qed simp

text \<open>Once the context is done, the server can always go on.\<close>

lemma inside_progress:
  assumes "life_inv s" "lf_ctxDone s" "\<not> ((\<exists>r. lf_main s = Returned r) \<and> \<not> lf_dbOpen s)"
  shows "\<exists>e s'. \<not> outside e \<and> life_step A s e s' \<and> lf_ctxDone s'"
proof -
  have go: "?thesis" if "life_step A s e s'" "\<not> outside e" "lf_ctxDone s'" for e s' using that by blast
  note out = outside_def
  show ?thesis
  proof (cases "lf_main s")
    case AwaitCtx
    show ?thesis by (rule go [OF life_step.shutdown [OF AwaitCtx assms(2)]]) (simp_all add: out assms(2))
  next
    case InShutdown
    show ?thesis
    proof (cases "lf_active s")
      case 0
      show ?thesis by (rule go [OF life_step.drained [OF InShutdown 0]]) (simp_all add: out assms(2))
    next
      case (Suc n)
      fix r
      obtain w world limiter where h: "http_step A r (lf_world s, lf_limiter s) = (w, (world, limiter))"
        using surj_pair by metis
      have o: "lf_dbOpen s" using assms(1) InShutdown by (auto simp: life_inv_def)
      show ?thesis by (rule go [OF life_step.handled [OF Suc o h]]) (simp_all add: out assms(2))
    qed
  next
    case InClose
    show ?thesis by (rule go [OF life_step.closed [OF InClose]]) (simp_all add: out assms(2))
  next
    case AwaitGroup
    show ?thesis
    proof (cases "lf_clean s")
      case AwaitTick
      show ?thesis by (rule go [OF life_step.clean_returns [OF AwaitTick assms(2)]]) (simp_all add: out assms(2))
    next
      case InCleanup
      obtain res world where c: "Cleanup (ap_Env A) (ap_Service A) (lf_world s) = (res, world)" by fastforce
      show ?thesis by (rule go [OF life_step.cleaned [OF InCleanup c]]) (simp_all add: out assms(2))
    next
      case CleanDone
      show ?thesis
      proof (cases "lf_serve s")
        case InServe
        have c: "lf_closing s" using assms(1) AwaitGroup by (auto simp: life_inv_def)
        show ?thesis by (rule go [OF life_step.serve_returns [OF InServe c]]) (simp_all add: out assms(2))
      next
        case (SendErr e)
        have c: "lf_serveErr s = None" using assms(1) SendErr by (simp add: life_inv_def)
        show ?thesis by (rule go [OF life_step.err_sent [OF SendErr c]]) (simp_all add: out assms(2))
      next
        case (CallCancel e)
        show ?thesis by (rule go [OF life_step.cancelled [OF CallCancel]]) (simp_all add: out assms(2))
      next
        case (ServeDone e)
        show ?thesis by (rule go [OF life_step.group_done [OF AwaitGroup ServeDone CleanDone]]) (simp_all add: out assms(2))
      qed
    qed
  next
    case ReceiveErr
    then obtain e where c: "lf_serveErr s = Some e" using assms(1) by (auto simp: life_inv_def)
    show ?thesis by (rule go [OF life_step.err_received [OF ReceiveErr c]]) (simp_all add: out assms(2))
  next
    case (Returned r)
    with assms(3) have c: "lf_dbOpen s" by simp
    show ?thesis by (rule go [OF life_step.db_closed [OF Returned c]]) (simp_all add: out assms(2))
  qed
qed

lemma inside_path_to_end:
  assumes "life_inv s" "lf_ctxDone s"
  shows "\<exists>es s'. path (life_step A) s es s' \<and> (\<forall>e \<in> set es. \<not> outside e) \<and> (\<exists>r. lf_main s' = Returned r) \<and> \<not> lf_dbOpen s'"
  using assms
proof (induction "rank s" arbitrary: s rule: less_induct)
  case less
  show ?case
  proof (cases "(\<exists>r. lf_main s = Returned r) \<and> \<not> lf_dbOpen s")
    case True
    then show ?thesis by (intro exI [of _ "[]"] exI [of _ s]) simp
  next
    case False
    from inside_progress [OF less.prems False, of A] obtain e s1 where
      1: "\<not> outside e" "life_step A s e s1" "lf_ctxDone s1" by blast
    from less.hyps [OF inside_rank [OF 1(2,1)] life_step_inv [OF less.prems(1) 1(2)] 1(3)] obtain es s' where
      "path (life_step A) s1 es s'" "\<forall>e \<in> set es. \<not> outside e" "\<exists>r. lf_main s' = Returned r" "\<not> lf_dbOpen s'" by blast
    with 1 show ?thesis by (intro exI [of _ "e # es"] exI [of _ s']) (auto intro: path.more)
  qed
qed

end
