(* ===== verification/StartupProps.thy ===== *)
theory StartupProps
  imports Startup NoteProps RateLimiter
begin

text \<open>
  What holds when the server starts to listen: configuration, database, root key and limiter
  fit together.
\<close>

section \<open>Lemmas\<close>

lemma Cleanup_tx_frame:
  assumes "bolt_ok (db E)" "Cleanup_tx E S now st = Inr (u, st')"
  shows "root_keys_b st' = root_keys_b st" "config_b st' = config_b st"
  using assms deleteEach_Inr [OF assms(1)]
  by (auto simp: Cleanup_tx_def Let_def split: sum.splits)

lemma StartupMaintenance_Inr:
  assumes "env_ok E" "StartupMaintenance E S w = (Inr (), w')"
  shows "\<exists>k. getRootKey E (root_keys_b (store w')) = Inr k" "config_b (store w') = config_b (store w)"
    "bGet (db E) (root_keys_b (store w)) rootKeyStorageKey \<noteq> None \<Longrightarrow> root_keys_b (store w') = root_keys_b (store w)"
proof -
  from assms(2) obtain w1 where e: "EnsureRootKeys E w = (Inr (), w1)" and c: "Cleanup E S w1 = (Inr (), w')"
    by (auto simp: StartupMaintenance_def split: prod.splits sum.splits)
  from e obtain now rnd where tx: "EnsureRootKeys_tx E now rnd (store w) = Inr ((), store w1)"
    by (cases rule: EnsureRootKeys_cases) auto
  from c have "\<exists>now. Cleanup_tx E S now (store w1) = Inr ((), store w')"
    by (cases rule: Cleanup_cases) auto
  then have f: "root_keys_b (store w') = root_keys_b (store w1)" "config_b (store w') = config_b (store w1)"
    using Cleanup_tx_frame [OF env_okD(1) [OF assms(1)]] by blast+
  show "\<exists>k. getRootKey E (root_keys_b (store w')) = Inr k"
    using EnsureRootKeys_tx_getRootKey [OF assms(1) tx] f(1) by simp
  show "config_b (store w') = config_b (store w)"
    using EnsureRootKeys_tx_frame [OF tx] f(2) by simp
  show "root_keys_b (store w') = root_keys_b (store w)"
    if "bGet (db E) (root_keys_b (store w)) rootKeyStorageKey \<noteq> None"
    using EnsureRootKeys_tx_existing [OF that tx] f(1) by simp
qed

section \<open>A sample platform\<close>

definition ex_platform :: "((bytes \<times> bytes) list, int, string) platform" where
  "ex_platform =
     \<lparr>pl_Env = ex_env None (\<lambda>_. ex_time), pl_OS = example_os,
      pl_Tokens = ex_tokens, pl_Iter = (\<lambda>xs. xs),
      pl_StaticFS = (\<lambda>dev. []), pl_FileServer = (\<lambda>dev asset w. http_NotFound w),
      pl_TemplateFS = (\<lambda>dev. \<lparr>parseTemplate = Inr, executeTemplate = (\<lambda>t m. Inr t)\<rparr>)\<rparr>"

definition ex_no_dotenv :: dotenv where
  "ex_no_dotenv = \<lparr>de_Env = Map.empty, de_Err = Some (Msg ''open .env'', True)\<rparr>"

lemma ex_openWorld:
  assumes "cfg_MaxDBSize cfg \<le> maxInt64"
  shows "openWorld ex_platform cfg =
    (Inr \<lparr>store = \<lparr>payloads_b = [], config_b = [(schemaVersionKey, encodeUint64 1)], metadata_b = [],
       root_keys_b = [], used_tickets_b = []\<rparr>, steps = 1\<rparr>, [])"
  using assms
  by (simp add: openWorld_def ex_platform_def openDB_def example_os_def validateDBParent_def validateDBFile_def
      raw_Update_def mem_bolt_def init_tx_def ensureBuckets_def bucketNames_def bucket_name_defs
      CreateBucketIfNotExists_def ensureSchemaVersion_def nil_slice_def schemaVersionKey_def
      mem_entries_def store_of_def currentSchemaVersion_def)

lemma ex_maintenance:
  "\<exists>w'. StartupMaintenance (ex_env None (\<lambda>_. ex_time)) S
     \<lparr>store = \<lparr>payloads_b = [], config_b = c, metadata_b = [], root_keys_b = [], used_tickets_b = []\<rparr>, steps = 1\<rparr>
     = (Inr (), w')"
proof -
  let ?E = "ex_env None (\<lambda>_. ex_time)"
  let ?st = "\<lparr>payloads_b = [], config_b = c, metadata_b = [], root_keys_b = [], used_tickets_b = []\<rparr>"
  have tx: "EnsureRootKeys_tx ?E ex_time (\<lambda>j. CHR ''r'') ?st = Inr ((), ?st\<lparr>root_keys_b := [(''root_key'', ex_root)]\<rparr>)"
    by (simp add: EnsureRootKeys_tx_def mem_bolt_def putRootKey_def ex_fillRandom IsZero_def ex_time_def
        ex_rk_def [symmetric, unfolded ex_time_def] rootKeyStorageKey_def mem_entries_def)
  have cl: "Cleanup_tx ?E S ex_time (?st\<lparr>root_keys_b := k\<rparr>) = Inr ((), ?st\<lparr>root_keys_b := k\<rparr>)" for k
    by (simp add: Cleanup_tx_def mem_bolt_def)
  show ?thesis
    by (simp add: StartupMaintenance_def EnsureRootKeys_def Cleanup_def s_now_def db_Update_reliable mem_bolt_reliable
        tx [simplified] cl [simplified])
qed

lemma ex_setup: "\<exists>rn. main_setup ex_platform ex_no_dotenv (\<lambda>_. []) False = Inr rn"
proof -
  obtain cfg where cfg: "NewConfigWithOptions (Some (\<lambda>_. [])) \<lparr>so_Development = False\<rparr> = Inr cfg"
    using ex_config by blast
  have "bounded_config cfg" using NewConfig_facts [OF cfg] by blast
  then have "cfg_MaxDBSize cfg \<le> maxInt64" by (simp add: bounded_config_def hardMaxDBSize_def maxInt64_def)
  note w = ex_openWorld [OF this]
  obtain w' where m: "StartupMaintenance (ex_env None (\<lambda>_. ex_time)) (NewNoteService (cfg_MaxNoteSize cfg))
     \<lparr>store = \<lparr>payloads_b = [], config_b = [(schemaVersionKey, encodeUint64 1)], metadata_b = [], root_keys_b = [],
       used_tickets_b = []\<rparr>, steps = 1\<rparr> = (Inr (), w')"
    using ex_maintenance by blast
  have p: "pl_Env ex_platform = ex_env None (\<lambda>_. ex_time)" by (simp_all add: ex_platform_def)
  have "\<exists>A. assemble ex_platform cfg = Inr A"
    by (simp add: assemble_def applicationFileSystems_def Let_def ex_platform_def NewAssetVersion_def NewViews_def)
  then show ?thesis
    by (auto simp: main_setup_def run_setup_def p cfg w m [simplified])
qed

section \<open>Properties\<close>

text \<open>C22: a server that starts to listen fits together: its configuration is within the limits
  and in development mode only under \<open>--dev\<close>; the service has the configured size limit and
  the limiter, still empty, the configured rate; the database has schema version 1 and a
  usable root key, the one the file had if it had an entry; the version in the asset paths is
  the one the server answers to; and it listens on the configured address and logs a summary of this
  configuration, or exits with code 1 when it cannot listen.\<close>

theorem startup_ready:
  assumes "env_ok (pl_Env P)" "main_setup P d Getenv dev = Inr rn"
  shows "bounded_config (ap_Cfg (rn_App rn)) \<and> cfg_IsDevelopment (ap_Cfg (rn_App rn)) = dev \<and>
    ap_Service (rn_App rn) = NewNoteService (cfg_MaxNoteSize (ap_Cfg (rn_App rn))) \<and>
    rn_Limiter rn = NewRateLimiter (cfg_RateLimit (ap_Cfg (rn_App rn))) \<and>
    decodeUint64 (nil_slice (bGet (db (pl_Env P)) (config_b (store (rn_World rn))) schemaVersionKey)) = 1 \<and>
    (\<exists>k. getRootKey (pl_Env P) (root_keys_b (store (rn_World rn))) = Inr k) \<and>
    (\<exists>raw. bolt_Open (pl_OS P) (cfg_DBPath (ap_Cfg (rn_App rn))) (cfg_MaxDBSize (ap_Cfg (rn_App rn))) = Inr raw \<and>
       (\<forall>v. raw_lookup (db (pl_Env P)) raw rootKeysBucketName rootKeyStorageKey = Some v \<longrightarrow>
          bGet (db (pl_Env P)) (root_keys_b (store (rn_World rn))) rootKeyStorageKey = Some v)) \<and>
    AssetPath (vw_AssetVersion (ap_Views (rn_App rn))) name = AssetPath (ap_AssetVersion (rn_App rn)) name \<and>
    main_start P d Getenv (Inr (dev, 0)) Listen =
      (case Listen (JoinHostPort (cfg_Host (ap_Cfg (rn_App rn))) (cfg_Port (ap_Cfg (rn_App rn)))) of
         Inl err \<Rightarrow> ([logServerError ''application_run_failed'' (Wrap ''error listening on %s: %w'' err) []], Some 1)
       | Inr addr \<Rightarrow>
           ([logStartupSummary (ap_Cfg (rn_App rn)) addr,
             LogLine LevelInfo logMsgServerLifecycle [(''event'', LogText ''server_listening''), (''addr'', LogText addr)]],
            None))"
proof -
  let ?B = "db (pl_Env P)"
  from assms(2) obtain getenv cfg w0 lg A where
    c: "NewConfigWithOptions (Some getenv) \<lparr>so_Development = dev\<rparr> = Inr cfg"
    and o: "openWorld P cfg = (Inr w0, lg)"
    and m: "StartupMaintenance (pl_Env P) (NewNoteService (cfg_MaxNoteSize cfg)) w0 = (Inr (), rn_World rn)"
    and a: "assemble P cfg = Inr A" "rn_App rn = A" "rn_Limiter rn = NewRateLimiter (cfg_RateLimit cfg)"
    by (rule main_setup_Inr)
  from o obtain raw' where d: "openDB ?B (pl_OS P) 0 (cfg_DBPath cfg) (cfg_MaxDBSize cfg) = (Inr raw', lg)"
    and st: "store_of raw' = Some (store w0)"
    by (rule openWorld_Inr)
  from openDB_facts [OF env_okD(1) [OF assms(1)] d] obtain raw where raw:
    "bolt_Open (pl_OS P) (cfg_DBPath cfg) (cfg_MaxDBSize cfg) = Inr raw" "raw_version ?B raw' = 1"
    "\<forall>name k. (name, k) \<noteq> (configBucketName, schemaVersionKey) \<longrightarrow> raw_lookup ?B raw' name k = raw_lookup ?B raw name k"
    by blast
  note M = StartupMaintenance_Inr [OF assms(1) m]
  have schema: "decodeUint64 (nil_slice (bGet ?B (config_b (store (rn_World rn))) schemaVersionKey)) = 1"
    using raw(2) store_of_Some(2) [OF st] M(2) by (simp add: raw_version_def raw_lookup_def)
  have key: "bGet ?B (root_keys_b (store (rn_World rn))) rootKeyStorageKey = Some v"
    if "raw_lookup ?B raw rootKeysBucketName rootKeyStorageKey = Some v" for v
  proof -
    have "(rootKeysBucketName, rootKeyStorageKey) \<noteq> (configBucketName, schemaVersionKey)"
      by (simp add: rootKeysBucketName_def configBucketName_def)
    with raw(3) that have "raw_lookup ?B raw' rootKeysBucketName rootKeyStorageKey = Some v" by metis
    then have "bGet ?B (root_keys_b (store w0)) rootKeyStorageKey = Some v"
      by (simp add: raw_lookup_def store_of_Some(4) [OF st])
    with M(3) show ?thesis by simp
  qed
  note listens = main_start_Inr [OF assms(2), of Listen, unfolded newServer_def http_Server.simps]
  show ?thesis
    using NewConfig_facts [OF c] assemble_Inr [OF a(1)] a(2,3) M(1) schema raw(1) key listens by simp
qed

theorem startup_ready_witness:
  "\<exists>rn. main_setup ex_platform ex_no_dotenv (\<lambda>_. []) False = Inr rn \<and> bounded_config (ap_Cfg (rn_App rn)) \<and>
     (\<exists>k. getRootKey (ex_env None (\<lambda>_. ex_time)) (root_keys_b (store (rn_World rn))) = Inr k)"
proof -
  obtain rn where r: "main_setup ex_platform ex_no_dotenv (\<lambda>_. []) False = Inr rn" using ex_setup by blast
  have e: "env_ok (pl_Env ex_platform)" and e': "pl_Env ex_platform = ex_env None (\<lambda>_. ex_time)"
    using ex_env_ok by (simp_all add: ex_platform_def)
  from startup_ready [OF e r, of "[]"] r show ?thesis unfolding e' by blast
qed

end
