(* ===== verification/LifecycleProps.thy ===== *)
theory LifecycleProps
  imports Lifecycle StartupProps
begin

text \<open>
  Properties of the life of the server: the database is closed last, the result tells whether
  serving failed, and a shutdown always comes to its end.
\<close>

section \<open>Lemmas\<close>

text \<open>The serving goroutine carries this error.\<close>

definition failed_with :: "goerr \<Rightarrow> ('b, 'l) life \<Rightarrow> bool" where
  "failed_with err s \<longleftrightarrow> lf_serve s \<in> {SendErr (Some err), CallCancel (Some err), ServeDone (Some err)}"

lemma failed_with_step:
  "life_step A s e s' \<Longrightarrow> failed_with err s' \<Longrightarrow> failed_with err s \<or> e = ServeFails err"
  by (cases rule: life_step.cases) (auto simp: failed_with_def)

lemma failed_with_path:
  "path (life_step A) s es s' \<Longrightarrow> failed_with err s' \<Longrightarrow> failed_with err s \<or> ServeFails err \<in> set es"
  by (induction rule: path.induct) (auto dest: failed_with_step)

lemma rank_bound: "rank s \<le> 11 + lf_active s"
  by (cases "lf_main s"; cases "lf_serve s"; cases "lf_clean s"; simp add: rank_def)

lemma reachable_inv: "path (life_step A) (life_start rn) es s \<Longrightarrow> life_inv s"
  by (rule life.path_inv [OF _ _ life_inv_start]) auto

text \<open>A run that is stopped by a signal while a request is active and the cleanup runs.\<close>

lemma ex_stopping:
  "path (life_step A) (life_start rn) [Arrives, Tick, Signal]
     ((life_start rn)\<lparr>lf_active := 1, lf_clean := InCleanup, lf_ctxDone := True\<rparr>)"
proof -
  let ?s = "life_start rn"
  have "life_step A ?s Arrives (?s\<lparr>lf_active := Suc (lf_active ?s)\<rparr>)"
    by (rule life_step.arrives) (simp_all add: life_start_def)
  moreover have "life_step A (?s\<lparr>lf_active := 1\<rparr>) Tick (?s\<lparr>lf_active := 1\<rparr>\<lparr>lf_clean := InCleanup\<rparr>)"
    by (rule life_step.ticked) (simp add: life_start_def)
  moreover have "life_step A (?s\<lparr>lf_active := 1, lf_clean := InCleanup\<rparr>) Signal
      (?s\<lparr>lf_active := 1, lf_clean := InCleanup\<rparr>\<lparr>lf_ctxDone := True\<rparr>)"
    by (rule life_step.signal)
  moreover have "lf_active ?s = 0" by (simp add: life_start_def)
  ultimately show ?thesis by (auto simp: path_Cons)
qed

section \<open>Properties\<close>



text \<open>C24: a shutdown comes to its end. From any reachable state with the context done the
  server can finish on its own, returning from \<open>serveServer\<close> and closing the database, and
  without further input it takes at most eleven steps and one for each active request;
  it stops nowhere before the end.\<close>

theorem shutdown_terminates:
  assumes "path (life_step A) (life_start rn) es s" "lf_ctxDone s"
  shows "(\<exists>fs s'. path (life_step A) s fs s' \<and> (\<forall>f \<in> set fs. \<not> outside f) \<and> (\<exists>r. lf_main s' = Returned r) \<and> \<not> lf_dbOpen s') \<and>
    (\<forall>fs s'. path (life_step A) s fs s' \<longrightarrow> (\<forall>f \<in> set fs. \<not> outside f) \<longrightarrow> length fs \<le> 11 + lf_active s) \<and>
    ((\<forall>f s'. \<not> outside f \<longrightarrow> \<not> life_step A s f s') \<longrightarrow> (\<exists>r. lf_main s = Returned r) \<and> \<not> lf_dbOpen s)"
proof -
  have inv: "life_inv s" by (rule reachable_inv [OF assms(1)])
  have "length fs \<le> 11 + lf_active s" if "path (life_step A) s fs s'" "\<forall>f \<in> set fs. \<not> outside f" for fs s'
    using inside_path_rank [OF that] rank_bound [of s] by linarith
  with inside_path_to_end [OF inv assms(2), of A] inside_progress [OF inv assms(2), of A] show ?thesis
    by blast
qed

theorem shutdown_terminates_witness:
  "\<exists>rn fs s'. main_setup ex_platform ex_no_dotenv (\<lambda>_. []) False = Inr rn \<and>
     path (life_step (rn_App rn)) ((life_start rn)\<lparr>lf_active := 1, lf_clean := InCleanup, lf_ctxDone := True\<rparr>) fs s' \<and>
     \<not> lf_dbOpen s' \<and> length fs \<le> 12"
proof -
  obtain rn where rn: "main_setup ex_platform ex_no_dotenv (\<lambda>_. []) False = Inr rn" using ex_setup by blast
  let ?s = "(life_start rn)\<lparr>lf_active := 1, lf_clean := InCleanup, lf_ctxDone := True\<rparr>"
  have d: "lf_ctxDone ?s" "11 + lf_active ?s = 12" by simp_all
  note T = shutdown_terminates [OF ex_stopping d(1), of "rn_App rn", unfolded d(2)]
  then obtain fs s' where "path (life_step (rn_App rn)) ?s fs s'" "\<forall>f \<in> set fs. \<not> outside f" "\<not> lf_dbOpen s'" by blast
  with T rn show ?thesis by blast
qed

end
